(* ===== verification/Prelude.thy ===== *)
theory Prelude
  imports Main "HOL-Library.Word" "HOL-Library.AList"
begin

text \<open>
  Shared vocabulary of the development.

  The repository is JavaScript; this theory fixes how its run-time behaviour is read in HOL:
  \<^item> \<open>run\<close> is the outcome of executing a piece of code: it returns a value, throws, or
    does not terminate (\<open>Diverge\<close>);
  \<^item> numbers are integers (the code never leaves the range in which a JavaScript double is
    exact, except where a theory says so; \<open>JsDouble\<close> has the others), and the bitwise operators convert their operands with
    \<open>ToInt32\<close>, which is written out as \<open>to_int32\<close>;
  \<^item> \<open>jsval\<close> is a dynamically typed value, with plain objects as association lists in
    property order;
  \<^item> strings are character lists, one character per UTF-16 unit below 256.
\<close>

unbundle bit_operations_syntax

named_theorems run_simps \<open>unfolding of the outcome combinators\<close>
named_theorems js_defs \<open>definitions of the JavaScript number operators\<close>

section \<open>Outcomes\<close>

datatype js_error =
    RangeError
  | TypeError
  | ReferenceError string \<comment> \<open>an undeclared variable\<close>
  | SyntaxError string "string list" "char option" nat nat nat
      \<comment> \<open>of the generated parser: message, expected, found, offset, line, column\<close>
  | JsError string
  | NotModelled string \<comment> \<open>the model stops here: the code goes on\<close>

datatype 'a run = Return 'a | Throw js_error | Diverge

fun run_bind :: "'a run \<Rightarrow> ('a \<Rightarrow> 'b run) \<Rightarrow> 'b run" where
  "run_bind (Return x) f = f x"
| "run_bind (Throw e) f = Throw e"
| "run_bind Diverge f = Diverge"

definition returns :: "'a run \<Rightarrow> bool" where
  "returns r = (case r of Return x \<Rightarrow> True | _ \<Rightarrow> False)"

lemma run_bind_Return_right [simp]: "run_bind m Return = m"
  by (cases m) simp_all

lemma run_bind_assoc: "run_bind (run_bind m f) g = run_bind m (\<lambda>x. run_bind (f x) g)"
  by (cases m) simp_all

lemma run_bind_eq_Return_iff [simp]:
  "run_bind m f = Return y \<longleftrightarrow> (\<exists>x. m = Return x \<and> f x = Return y)"
  by (cases m) simp_all

lemma run_bind_cong [fundef_cong]:
  "m = m' \<Longrightarrow> (\<And>x. m' = Return x \<Longrightarrow> f x = f' x) \<Longrightarrow> run_bind m f = run_bind m' f'"
  by (cases m') simp_all

lemma run_bind_eq_Diverge_iff:
  "run_bind m f = Diverge \<longleftrightarrow> m = Diverge \<or> (\<exists>x. m = Return x \<and> f x = Diverge)"
  by (cases m) simp_all

lemma returns_simps [simp]:
  "returns (Return x)" "\<not> returns (Throw e)" "\<not> returns Diverge"
  by (simp_all add: returns_def)

lemma returns_iff: "returns r \<longleftrightarrow> (\<exists>x. r = Return x)"
  by (cases r) simp_all

lemma returns_run_bind [simp]:
  "returns (run_bind m f) \<longleftrightarrow> (\<exists>x. m = Return x \<and> returns (f x))"
  by (cases m) simp_all

text \<open>Running a fallible operation over a list, left to right, stopping at the first throw.\<close>

fun run_map :: "('a \<Rightarrow> 'b run) \<Rightarrow> 'a list \<Rightarrow> 'b list run" where
  "run_map f [] = Return []"
| "run_map f (x # xs) = run_bind (f x) (\<lambda>y. run_bind (run_map f xs) (\<lambda>ys. Return (y # ys)))"

lemma run_map_Return: "(\<And>x. x \<in> set xs \<Longrightarrow> f x = Return (g x)) \<Longrightarrow> run_map f xs = Return (map g xs)"
  by (induction xs) simp_all

lemma run_map_length: "run_map f xs = Return ys \<Longrightarrow> length ys = length xs"
  by (induction xs arbitrary: ys) auto

text \<open>A loop over a list that threads a state.\<close>

fun run_fold :: "('s \<Rightarrow> 'a \<Rightarrow> 's run) \<Rightarrow> 'a list \<Rightarrow> 's \<Rightarrow> 's run" where
  "run_fold f [] s = Return s"
| "run_fold f (x # xs) s = run_bind (f s x) (run_fold f xs)"

lemma run_fold_append: "run_fold f (xs @ ys) s = run_bind (run_fold f xs s) (run_fold f ys)"
  by (induction xs arbitrary: s) (auto simp: run_bind_assoc intro: run_bind_cong)

lemma run_fold_cong:
  "(\<And>s x. x \<in> set xs \<Longrightarrow> f s x = g s x) \<Longrightarrow> run_fold f xs s = run_fold g xs s"
proof (induction xs arbitrary: s)
  case (Cons x xs)
  then have "run_fold f xs = run_fold g xs" by auto
  with Cons.prems show ?case by simp
qed simp

text \<open>
  \<open>try ... catch\<close>: \<open>run_try m h\<close> runs \<open>h\<close> when \<open>m\<close> throws; leaving the model is not an
  exception of the program. \<open>try_steps\<close> runs a sequence of assignments to an object inside a
  \<open>try\<close> block, which keeps what was assigned before the first throw.
\<close>

fun not_modelled :: "js_error \<Rightarrow> bool" where
  "not_modelled (NotModelled m) = True"
| "not_modelled e = False"

definition run_try :: "'a run \<Rightarrow> 'a run \<Rightarrow> 'a run" where
  "run_try m h = (case m of Throw e \<Rightarrow> if not_modelled e then m else h | _ \<Rightarrow> m)"

fun try_steps :: "('s \<Rightarrow> 's run) list \<Rightarrow> 's \<Rightarrow> 's run" where
  "try_steps [] s = Return s"
| "try_steps (f # fs) s =
     (case f s of
        Return s' \<Rightarrow> try_steps fs s'
      | Throw e \<Rightarrow> if not_modelled e then Throw e else Return s
      | Diverge \<Rightarrow> Diverge)"

lemma run_try_simps [simp]:
  "run_try (Return x) h = Return x" "run_try Diverge h = Diverge"
  "run_try (Throw e) h = (if not_modelled e then Throw e else h)"
  by (simp_all add: run_try_def)

section \<open>JavaScript's bitwise operators\<close>

definition to_int32 :: "int \<Rightarrow> int" where
  [js_defs]: "to_int32 k = signed_take_bit 31 k"

definition js_and :: "int \<Rightarrow> int \<Rightarrow> int" where
  [js_defs]: "js_and a b = to_int32 a AND to_int32 b"

definition js_or :: "int \<Rightarrow> int \<Rightarrow> int" where
  [js_defs]: "js_or a b = to_int32 a OR to_int32 b"

definition js_shl :: "int \<Rightarrow> nat \<Rightarrow> int" where
  [js_defs]: "js_shl a n = to_int32 (push_bit (n mod 32) (to_int32 a))"

definition js_sar :: "int \<Rightarrow> nat \<Rightarrow> int" where
  [js_defs]: "js_sar a n = drop_bit (n mod 32) (to_int32 a)"

lemma to_int32_id: "- (2 ^ 31) \<le> k \<Longrightarrow> k < 2 ^ 31 \<Longrightarrow> to_int32 k = k"
  by (simp add: to_int32_def signed_take_bit_int_eq_self)

lemma to_int32_mod: "to_int32 k mod 2 ^ n = k mod 2 ^ n" if "n \<le> 32"
proof -
  have "take_bit n (signed_take_bit 31 k) = take_bit n k"
  proof (rule bit_eqI)
    fix i
    have "i < n \<Longrightarrow> min i 31 = i" using that by simp
    then show "bit (take_bit n (signed_take_bit 31 k)) i \<longleftrightarrow> bit (take_bit n k) i"
      by (auto simp: bit_take_bit_iff bit_signed_take_bit_iff)
  qed
  then show ?thesis by (simp add: to_int32_def take_bit_eq_mod)
qed

lemma js_and_mask: "js_and k (2 ^ n - 1) = k mod 2 ^ n" if "n < 32"
proof -
  have "to_int32 (2 ^ n - 1) = 2 ^ n - 1"
  proof (rule to_int32_id)
    have "(1::int) \<le> 2 ^ n" by simp
    then have "0 \<le> (2::int) ^ n - 1" by simp
    then show "- (2 ^ 31) \<le> (2::int) ^ n - 1" by (rule order_trans [rotated]) simp
    have "(2::int) ^ n \<le> 2 ^ 31" using that by (intro power_increasing) auto
    then show "(2::int) ^ n - 1 < 2 ^ 31" by simp
  qed
  then have "js_and k (2 ^ n - 1) = to_int32 k AND mask n"
    by (simp add: js_and_def mask_eq_exp_minus_1)
  also have "\<dots> = to_int32 k mod 2 ^ n" by (simp add: take_bit_eq_mask [symmetric] take_bit_eq_mod)
  finally show ?thesis using that by (simp add: to_int32_mod)
qed

lemma js_and_255: "js_and k 255 = k mod 256"
  using js_and_mask [of 8 k] by simp

lemma js_sar_div: "n < 32 \<Longrightarrow> js_sar k n = to_int32 k div 2 ^ n"
  by (simp add: js_sar_def drop_bit_eq_div)

text \<open>
  \<open>(len + 3) & 0xFFFFFFFFFC\<close>: the mask has forty bits, but \<open>ToInt32\<close> turns it into
  \<open>-4\<close>, so the expression rounds up to a multiple of four while \<open>len + 3\<close> is a
  signed 32-bit number.
\<close>

definition js_align4 :: "int \<Rightarrow> int" where
  [js_defs]: "js_align4 len = js_and (len + 3) 0xFFFFFFFFFC"

lemma and_minus_4: "k AND (- 4) = 4 * (k div 4)" for k :: int
proof -
  have "k - (k AND mask 2) = k AND NOT (k AND mask 2)"
    by (rule disjunctive_diff_eq_and_not, rule bit_eqI) (auto simp: bit_simps)
  also have "\<dots> = k AND NOT (mask 2)"
    by (rule bit_eqI) (auto simp: bit_simps)
  finally have "k AND NOT (mask 2) = k - (k AND mask 2)" ..
  also have "k AND mask 2 = k mod 4"
    by (simp add: take_bit_eq_mask [symmetric] take_bit_eq_mod)
  finally show ?thesis by (simp add: minus_mod_eq_mult_div [symmetric] mask_eq_exp_minus_1 not_int_def)
qed

lemma js_align4_eq:
  assumes "- (2 ^ 31) \<le> len" and "len + 3 < 2 ^ 31"
  shows "js_align4 len = 4 * ((len + 3) div 4)"
proof -
  have "to_int32 (len + 3) = len + 3" using assms by (intro to_int32_id) auto
  moreover have "to_int32 0xFFFFFFFFFC = - 4" by (simp add: to_int32_def)
  ultimately show ?thesis by (simp add: js_align4_def js_and_def and_minus_4)
qed

section \<open>Values\<close>

datatype jsval =
    Undef
  | Null
  | JBool bool
  | Num int
  | Str string
  | Buf "8 word list"
  | Arr "jsval list"
  | Obj "(string \<times> jsval) list"
  | ErrorObj string

text \<open>
  Property access: \<open>o[k]\<close> is \<open>undefined\<close> for a property the object does not have and
  throws when \<open>o\<close> is \<open>undefined\<close> or \<open>null\<close>. Assignment replaces the value in place or
  appends the property, which is the enumeration order of JavaScript for names that are not array
  indices.
\<close>

definition obj_get :: "(string \<times> jsval) list \<Rightarrow> string \<Rightarrow> jsval" where
  "obj_get ps k = (case map_of ps k of None \<Rightarrow> Undef | Some v \<Rightarrow> v)"

fun get_prop :: "jsval \<Rightarrow> string \<Rightarrow> jsval run" where
  "get_prop Undef k = Throw TypeError"
| "get_prop Null k = Throw TypeError"
| "get_prop (Obj ps) k = Return (obj_get ps k)"
| "get_prop _ k = Return Undef"

lemma get_prop_not_Diverge [simp]: "get_prop v k \<noteq> Diverge"
  by (cases v) simp_all

definition obj_set :: "string \<Rightarrow> jsval \<Rightarrow> (string \<times> jsval) list \<Rightarrow> (string \<times> jsval) list" where
  "obj_set k v ps = AList.update k v ps"

lemma obj_get_set [simp]: "obj_get (obj_set k v ps) k' = (if k' = k then v else obj_get ps k')"
  by (simp add: obj_get_def obj_set_def update_conv)

lemma obj_get_Nil [simp]: "obj_get [] k = Undef"
  by (simp add: obj_get_def)

lemma obj_get_Cons [simp]: "obj_get ((k, v) # ps) k' = (if k' = k then v else obj_get ps k')"
  by (simp add: obj_get_def)

lemma keys_obj_set: "map fst (obj_set k v ps) = (if k \<in> fst ` set ps then map fst ps else map fst ps @ [k])"
  by (simp add: obj_set_def update_keys)

lemma distinct_obj_set: "distinct (map fst ps) \<Longrightarrow> distinct (map fst (obj_set k v ps))"
  by (simp add: obj_set_def distinct_update)

text \<open>JavaScript truthiness (\<open>NaN\<close> does not occur as a stored value).\<close>

fun truthy :: "jsval \<Rightarrow> bool" where
  "truthy Undef = False"
| "truthy Null = False"
| "truthy (JBool b) = b"
| "truthy (Num n) = (n \<noteq> 0)"
| "truthy (Str s) = (s \<noteq> [])"
| "truthy _ = True"

text \<open>\<open>ToInt32\<close> of a value that is a number or not a number at all.\<close>

definition num_or_0 :: "jsval \<Rightarrow> int" where
  "num_or_0 v = (case v of Num n \<Rightarrow> n | _ \<Rightarrow> 0)"

text \<open>Strict equality; objects are compared by identity, which a fresh object never satisfies.\<close>

fun strict_eq :: "jsval \<Rightarrow> jsval \<Rightarrow> bool" where
  "strict_eq Undef Undef = True"
| "strict_eq Null Null = True"
| "strict_eq (JBool a) (JBool b) = (a = b)"
| "strict_eq (Num a) (Num b) = (a = b)"
| "strict_eq (Str a) (Str b) = (a = b)"
| "strict_eq _ _ = False"

end
