(* ===== verification/NodeBuffer.thy ===== *)
theory NodeBuffer
  imports Prelude
begin

text \<open>
  The part of Node's \<open>Buffer\<close> that the sources use, on lists of bytes. Node 8 is the
  version read here (the code passes the \<open>noAssert\<close> argument, which later versions ignore):
  out-of-range reads throw a \<open>RangeError\<close>, a checked write of a value that does not fit throws a
  \<open>TypeError\<close>, writes with a true \<open>noAssert\<close> truncate their value,
  \<open>slice\<close> and \<open>toString\<close> clamp their bounds, and \<open>new Buffer(n)\<close> is zero-filled.
\<close>

type_synonym byte = "8 word"
type_synonym bytes = "byte list"

named_theorems buf_simps \<open>evaluation of buffer operations\<close>

section \<open>Little-endian and big-endian numbers\<close>

text \<open>The \<open>n\<close> low bytes of an integer, least significant first, and back.\<close>

fun le_bytes :: "nat \<Rightarrow> int \<Rightarrow> bytes" where
  "le_bytes 0 v = []"
| "le_bytes (Suc n) v = word_of_int v # le_bytes n (v div 256)"

fun le_val :: "bytes \<Rightarrow> int" where
  "le_val [] = 0"
| "le_val (b # bs) = uint b + 256 * le_val bs"

lemma length_le_bytes [simp]: "length (le_bytes n v) = n"
  by (induction n arbitrary: v) simp_all

lemma uint_byte_bounds: "0 \<le> uint (b :: byte) \<and> uint b < 256"
  using uint_bounded [of b] by simp

lemma le_val_bounds: "0 \<le> le_val bs \<and> le_val bs < 256 ^ length bs"
proof (induction bs)
  case (Cons b bs)
  then show ?case using uint_byte_bounds [of b] by auto
qed simp

lemma le_val_le_bytes: "le_val (le_bytes n v) = v mod 256 ^ n"
proof (induction n arbitrary: v)
  case (Suc n)
  have "uint (word_of_int v :: byte) = v mod 256" by (simp add: uint_word_of_int)
  then show ?case by (simp add: Suc mod_mult2_eq' zmod_zmult2_eq)
qed simp

lemma le_bytes_le_val: "le_bytes (length bs) (le_val bs) = bs"
proof (induction bs)
  case (Cons b bs)
  have "(uint b + 256 * le_val bs) div 256 = le_val bs"
    using uint_byte_bounds [of b] by simp
  moreover have "(word_of_int (uint b + 256 * le_val bs) :: byte) = b"
  proof (rule word_uint_eqI)
    have "uint (word_of_int (uint b + 256 * le_val bs) :: byte) = (uint b + 256 * le_val bs) mod 256"
      by (simp only: uint_word_of_int) simp
    also have "\<dots> = uint b mod 256" by simp
    also have "\<dots> = uint b" using uint_byte_bounds [of b] by (intro mod_pos_pos_trivial) auto
    finally show "uint (word_of_int (uint b + 256 * le_val bs) :: byte) = uint b" .
  qed
  ultimately show ?case using Cons by simp
qed simp

lemma le_bytes_append: "le_bytes (m + n) v = le_bytes m v @ le_bytes n (v div 256 ^ m)"
  by (induction m arbitrary: v) (simp_all add: zdiv_zmult2_eq)

lemma le_bytes_mod: "le_bytes n (v mod 256 ^ n) = le_bytes n v"
  by (metis le_bytes_le_val le_val_le_bytes length_le_bytes)

section \<open>Reading\<close>

text \<open>Reads throw when the bytes are not all inside the buffer.\<close>

definition read_bytes :: "nat \<Rightarrow> bytes \<Rightarrow> nat \<Rightarrow> bytes run" where
  "read_bytes n buf off =
     (if off + n \<le> length buf then Return (take n (drop off buf)) else Throw RangeError)"

definition readUInt8 :: "bytes \<Rightarrow> nat \<Rightarrow> int run" where
  "readUInt8 buf off = run_bind (read_bytes 1 buf off) (\<lambda>bs. Return (le_val bs))"

definition readUInt16LE :: "bytes \<Rightarrow> nat \<Rightarrow> int run" where
  "readUInt16LE buf off = run_bind (read_bytes 2 buf off) (\<lambda>bs. Return (le_val bs))"

definition readUInt32LE :: "bytes \<Rightarrow> nat \<Rightarrow> int run" where
  "readUInt32LE buf off = run_bind (read_bytes 4 buf off) (\<lambda>bs. Return (le_val bs))"

lemmas read_defs = readUInt8_def readUInt16LE_def readUInt32LE_def

lemma read_bytes_append [simp]:
  "length pre = off \<Longrightarrow> length bs = n \<Longrightarrow> read_bytes n (pre @ bs @ post) off = Return bs"
  by (simp add: read_bytes_def)

lemma readUInt16LE_at:
  "length pre = off \<Longrightarrow> 0 \<le> v \<Longrightarrow> v < 65536 \<Longrightarrow> readUInt16LE (pre @ le_bytes 2 v @ post) off = Return v"
  by (simp add: readUInt16LE_def le_val_le_bytes)

lemma readUInt32LE_at:
  "length pre = off \<Longrightarrow> 0 \<le> v \<Longrightarrow> v < 2 ^ 32 \<Longrightarrow> readUInt32LE (pre @ le_bytes 4 v @ post) off = Return v"
  by (simp add: readUInt32LE_def le_val_le_bytes)

lemma readUInt16LE_range: "readUInt16LE buf off = Return v \<Longrightarrow> 0 \<le> v \<and> v < 65536"
  using le_val_bounds [of "take 2 (drop off buf)"]
  by (auto simp: readUInt16LE_def read_bytes_def split: if_splits)

lemma readUInt16LE_returns_iff: "(\<exists>v. readUInt16LE buf off = Return v) \<longleftrightarrow> off + 2 \<le> length buf"
  by (auto simp: readUInt16LE_def read_bytes_def)

lemma read_not_Diverge [simp]:
  "readUInt8 b i \<noteq> Diverge" "readUInt16LE b i \<noteq> Diverge" "readUInt32LE b i \<noteq> Diverge"
  by (simp_all add: read_defs read_bytes_def)

section \<open>Writing\<close>

definition write_at :: "bytes \<Rightarrow> nat \<Rightarrow> bytes \<Rightarrow> bytes" where
  "write_at buf off bs = take off buf @ bs @ drop (off + length bs) buf"

lemma length_write_at [simp]: "off + length bs \<le> length buf \<Longrightarrow> length (write_at buf off bs) = length buf"
  by (simp add: write_at_def)

definition writeUInt16LE :: "bytes \<Rightarrow> int \<Rightarrow> nat \<Rightarrow> bytes run" where
  "writeUInt16LE buf v off =
     (if v < 0 \<or> 65536 \<le> v then Throw TypeError
      else if off + 2 \<le> length buf then Return (write_at buf off (le_bytes 2 v))
      else Throw RangeError)"

section \<open>Slices and text\<close>

text \<open>\<open>slice(start, end)\<close> of buffers and strings: negative bounds count from the end, then clamp.\<close>

definition clamp_index :: "int \<Rightarrow> nat \<Rightarrow> nat" where
  "clamp_index i n = nat (if i < 0 then max (int n + i) 0 else min i (int n))"

definition js_slice :: "'a list \<Rightarrow> int \<Rightarrow> int \<Rightarrow> 'a list" where
  "js_slice xs s e =
     (let s' = clamp_index s (length xs); e' = clamp_index e (length xs)
      in take (e' - s') (drop s' xs))"

lemma js_slice_middle:
  "length pre = s \<Longrightarrow> s + length mid = e \<Longrightarrow> js_slice (pre @ mid @ post) (int s) (int e) = mid"
  by (simp add: js_slice_def clamp_index_def)

text \<open>\<open>toString('ascii', start, end)\<close> drops the high bit of each byte.\<close>

definition ascii_char :: "byte \<Rightarrow> char" where
  "ascii_char b = char_of (uint b mod 128)"

definition ascii_slice :: "bytes \<Rightarrow> int \<Rightarrow> int \<Rightarrow> string" where
  "ascii_slice buf s e =
     (let n = int (length buf); s' = max s 0; e' = min e n
      in if s' > n \<or> e' \<le> s' then []
         else map ascii_char (take (nat (e' - s')) (drop (nat s') buf)))"

definition hex_digit :: "nat \<Rightarrow> char" where
  "hex_digit d = (let k = d mod 16 in char_of (if k < 10 then 48 + k else 87 + k))"

definition hex_byte :: "byte \<Rightarrow> string" where
  "hex_byte b = [hex_digit (unat b div 16), hex_digit (unat b)]"

definition to_hex :: "bytes \<Rightarrow> string" where
  "to_hex buf = concat (map hex_byte buf)"

lemma length_to_hex [simp]: "length (to_hex bs) = 2 * length bs"
  by (induction bs) (simp_all add: to_hex_def hex_byte_def)

definition bytes_of_string :: "string \<Rightarrow> bytes" where
  "bytes_of_string s = map of_char s"

lemma length_bytes_of_string [simp]: "length (bytes_of_string s) = length s"
  by (simp add: bytes_of_string_def)

section \<open>Concatenation\<close>

text \<open>
  \<open>Buffer.concat(list, total)\<close>: an element that is not a buffer (\<open>None\<close>, what a failed
  \<open>pack()\<close> leaves in the list) throws; the result has exactly \<open>total\<close> bytes, cut or
  padded with zeros.
\<close>

fun all_buffers :: "bytes option list \<Rightarrow> bytes list run" where
  "all_buffers [] = Return []"
| "all_buffers (None # bs) = Throw TypeError"
| "all_buffers (Some b # bs) = run_bind (all_buffers bs) (\<lambda>r. Return (b # r))"

definition fit :: "nat \<Rightarrow> bytes \<Rightarrow> bytes" where
  "fit n bs = take n bs @ replicate (n - length bs) 0"

definition buffer_concat :: "bytes option list \<Rightarrow> nat \<Rightarrow> bytes run" where
  "buffer_concat bufs totlen = run_bind (all_buffers bufs) (\<lambda>bs. Return (fit totlen (concat bs)))"

lemma all_buffers_Some [simp]: "all_buffers (map Some bs) = Return bs"
  by (induction bs) simp_all

lemma fit_exact [simp]: "fit (length bs) bs = bs"
  by (simp add: fit_def)

lemma length_fit [simp]: "length (fit n bs) = n"
  by (simp add: fit_def)

end
