(* ===== verification/JsString.thy ===== *)
theory JsString
  imports NodeBuffer
begin

text \<open>
  String operations of JavaScript that the sources use: case conversion, \<open>indexOf\<close>,
  \<open>split\<close>, \<open>parseInt\<close> and the printing of integers. Characters are those of ASCII; case
  conversion leaves everything else alone.
\<close>

definition is_digit :: "char \<Rightarrow> bool" where
  "is_digit c \<longleftrightarrow> c \<in> set ''0123456789''"

definition is_alpha :: "char \<Rightarrow> bool" where
  "is_alpha c \<longleftrightarrow> c \<in> set ''abcdefghijklmnopqrstuvwxyzABCDEFGHIJKLMNOPQRSTUVWXYZ''"

definition is_xdigit :: "char \<Rightarrow> bool" where
  "is_xdigit c \<longleftrightarrow> c \<in> set ''0123456789abcdefABCDEF''"

definition is_wordchar :: "char \<Rightarrow> bool" where
  "is_wordchar c \<longleftrightarrow> is_alpha c \<or> is_digit c \<or> c = CHR ''_''"

definition to_lower_char :: "char \<Rightarrow> char" where
  "to_lower_char c =
     (let n = of_char c :: nat in if 65 \<le> n \<and> n \<le> 90 then char_of (n + 32) else c)"

definition to_upper_char :: "char \<Rightarrow> char" where
  "to_upper_char c =
     (let n = of_char c :: nat in if 97 \<le> n \<and> n \<le> 122 then char_of (n - 32) else c)"

definition toLowerCase :: "string \<Rightarrow> string" where
  "toLowerCase s = map to_lower_char s"

definition toUpperCase :: "string \<Rightarrow> string" where
  "toUpperCase s = map to_upper_char s"

text \<open>\<open>indexOf(c)\<close> of a one-character string; \<open>None\<close> is \<open>-1\<close>.\<close>

fun index_of :: "char \<Rightarrow> string \<Rightarrow> nat option" where
  "index_of c [] = None"
| "index_of c (x # xs) = (if x = c then Some 0 else map_option Suc (index_of c xs))"

lemma index_of_Some: "index_of c s = Some i \<Longrightarrow> i < length s \<and> s ! i = c"
  by (induction s arbitrary: i) (auto split: if_splits)

lemma index_of_append: "c \<notin> set xs \<Longrightarrow> index_of c (xs @ c # ys) = Some (length xs)"
  by (induction xs) auto

text \<open>\<open>split(sep)\<close> for a one-character separator.\<close>

fun split_on :: "char \<Rightarrow> string \<Rightarrow> string list" where
  "split_on c [] = [[]]"
| "split_on c (x # xs) =
     (if x = c then [] # split_on c xs
      else case split_on c xs of [] \<Rightarrow> [[x]] | w # ws \<Rightarrow> (x # w) # ws)"

text \<open>\<open>s.split(c)[i]\<close>; \<open>None\<close> is \<open>undefined\<close>.\<close>

definition split_nth :: "char \<Rightarrow> string \<Rightarrow> nat \<Rightarrow> string option" where
  "split_nth c s i = (let ws = split_on c s in if i < length ws then Some (ws ! i) else None)"

text \<open>Substring test, for the regular expressions that are plain words.\<close>

definition has_substring :: "string \<Rightarrow> string \<Rightarrow> bool" where
  "has_substring w s \<longleftrightarrow> (\<exists>i \<in> set [0..<Suc (length s)]. take (length w) (drop i s) = w)"

section \<open>Numbers and strings\<close>

definition digit_value :: "char \<Rightarrow> nat option" where
  "digit_value c =
     (let n = of_char c :: nat in
      if 48 \<le> n \<and> n \<le> 57 then Some (n - 48)
      else if 97 \<le> n \<and> n \<le> 122 then Some (n - 87)
      else if 65 \<le> n \<and> n \<le> 90 then Some (n - 55)
      else None)"

definition is_radix_digit :: "nat \<Rightarrow> char \<Rightarrow> bool" where
  "is_radix_digit r c = (case digit_value c of None \<Rightarrow> False | Some d \<Rightarrow> d < r)"

definition digits_value :: "nat \<Rightarrow> string \<Rightarrow> nat" where
  "digits_value r ds = foldl (\<lambda>acc c. acc * r + the (digit_value c)) 0 ds"

definition is_space :: "char \<Rightarrow> bool" where
  "is_space c \<longleftrightarrow> of_char c \<in> {9, 10, 11, 12, 13, 32 :: nat}"

text \<open>
  \<open>parseInt(s, radix)\<close>: leading white space, a sign, with radix 16 an optional
  \<open>0x\<close>, then the longest run of digits; \<open>None\<close> is \<open>NaN\<close>.
\<close>

definition parse_sign :: "string \<Rightarrow> int \<times> string" where
  "parse_sign s =
     (case s of [] \<Rightarrow> (1, [])
      | c # cs \<Rightarrow> if c = CHR ''-'' then (- 1, cs) else if c = CHR ''+'' then (1, cs) else (1, c # cs))"

definition strip_0x :: "nat \<Rightarrow> string \<Rightarrow> string" where
  "strip_0x r s =
     (if r = 16 \<and> (take 2 s = ''0x'' \<or> take 2 s = ''0X'') then drop 2 s else s)"

definition parseInt :: "nat \<Rightarrow> string \<Rightarrow> int option" where
  "parseInt r s =
     (let (sg, body) = parse_sign (dropWhile is_space s);
          ds = takeWhile (is_radix_digit r) (strip_0x r body)
      in if ds = [] then None else Some (sg * int (digits_value r ds)))"

text \<open>\<open>n.toString(radix)\<close> for a non-negative integer, and decimal printing of integers.\<close>

definition digit_char :: "nat \<Rightarrow> char" where
  "digit_char d = (let k = d mod 36 in char_of (if k < 10 then 48 + k else 87 + k))"

fun nat_to_radix :: "nat \<Rightarrow> nat \<Rightarrow> string" where
  "nat_to_radix r n =
     (if n < r \<or> r < 2 then [digit_char n] else nat_to_radix r (n div r) @ [digit_char (n mod r)])"

declare nat_to_radix.simps [simp del]

definition show_int :: "int \<Rightarrow> string" where
  "show_int n = (if n < 0 then CHR ''-'' # nat_to_radix 10 (nat (- n)) else nat_to_radix 10 (nat n))"

text \<open>Joining with a separator.\<close>

fun join_with :: "string \<Rightarrow> string list \<Rightarrow> string" where
  "join_with sep [] = []"
| "join_with sep [w] = w"
| "join_with sep (w # ws) = w @ sep @ join_with sep ws"

text \<open>
  \<open>buf.toString()\<close> decodes UTF-8. The characters from 128 to 255 take two bytes, the first of which is
  \<open>C2\<close> or \<open>C3\<close>; all other sequences give characters from 256 on, the replacement character for invalid
  ones included, and are shown as \<open>?\<close>, since such characters are outside the model.
\<close>

fun utf8_text :: "bytes \<Rightarrow> string" where
  "utf8_text [] = []"
| "utf8_text [b] = [if b < 128 then char_of (uint b) else CHR ''?'']"
| "utf8_text (b # c # bs) =
     (if b < 128 then char_of (uint b) # utf8_text (c # bs)
      else if b \<in> {0xC2, 0xC3} \<and> 128 \<le> c \<and> c < 192 then char_of ((uint b - 0xC0) * 64 + (uint c - 128)) # utf8_text bs
      else CHR ''?'' # utf8_text (c # bs))"

lemma utf8_text_ascii: "list_all (\<lambda>b. b < 128) bs \<Longrightarrow> utf8_text bs = map (\<lambda>b. char_of (uint b)) bs"
  by (induction bs rule: utf8_text.induct) simp_all

text \<open>String conversion in \<open>a + b\<close> where \<open>a\<close> is a string.\<close>

fun to_string :: "jsval \<Rightarrow> string" where
  "to_string Undef = ''undefined''"
| "to_string Null = ''null''"
| "to_string (JBool b) = (if b then ''true'' else ''false'')"
| "to_string (Num n) = show_int n"
| "to_string (Str s) = s"
| "to_string (ErrorObj m) = ''Error: '' @ m"
| "to_string (Buf b) = utf8_text b"
| "to_string (Obj ps) = ''[object Object]''"
| "to_string (Arr vs) = join_with '','' (map (\<lambda>v. if v = Undef \<or> v = Null then [] else to_string v) vs)"

lemma digit_value_digit_char: "d < 36 \<Longrightarrow> digit_value (digit_char d) = Some d"
  by (simp add: digit_value_def digit_char_def Let_def)

lemma digits_value_append1:
  "digits_value r (ds @ [c]) = digits_value r ds * r + the (digit_value c)"
  by (simp add: digits_value_def)

lemma digits_value_nat_to_radix:
  "2 \<le> r \<Longrightarrow> r \<le> 36 \<Longrightarrow> digits_value r (nat_to_radix r n) = n"
proof (induction r n rule: nat_to_radix.induct)
  case (1 r n)
  show ?case
  proof (cases "n < r")
    case True
    then have "digit_value (digit_char n) = Some n" using "1.prems" by (intro digit_value_digit_char) simp
    with True show ?thesis by (subst nat_to_radix.simps) (simp add: digits_value_def)
  next
    case False
    then have "digits_value r (nat_to_radix r (n div r)) = n div r"
      using "1.IH" "1.prems" by simp
    moreover have "digit_value (digit_char (n mod r)) = Some (n mod r)"
      using "1.prems" by (intro digit_value_digit_char) (simp add: less_le_trans [OF mod_less_divisor])
    ultimately show ?thesis using False "1.prems"
      by (subst nat_to_radix.simps) (simp add: digits_value_append1)
  qed
qed

lemma nat_to_radix_nonempty [simp]: "nat_to_radix r n \<noteq> []"
  by (subst nat_to_radix.simps) simp

section \<open>Hexadecimal digits\<close>

lemma of_char_hex_digit: "d < 16 \<Longrightarrow> (of_char (hex_digit d) :: nat) = (if d < 10 then 48 + d else 87 + d)"
  by (simp add: hex_digit_def Let_def)

lemma hex_digit_facts:
  assumes "d < 16"
  shows "digit_value (hex_digit d) = Some d" "is_xdigit (hex_digit d)" "\<not> is_space (hex_digit d)"
    "hex_digit d \<notin> set ''-+xX:''"
proof -
  show "digit_value (hex_digit d) = Some d" "\<not> is_space (hex_digit d)"
    using assms by (simp_all add: digit_value_def is_space_def of_char_hex_digit)
  have "list_all (\<lambda>d. is_xdigit (hex_digit d)) [0..<16]" by code_simp
  moreover have "list_all (\<lambda>d. hex_digit d \<notin> set ''-+xX:'') [0..<16]" by code_simp
  moreover have "d \<in> set [0..<16]" using assms by (simp only: set_upt atLeastLessThan_iff) simp
  ultimately show "is_xdigit (hex_digit d)" "hex_digit d \<notin> set ''-+xX:''"
    unfolding list_all_iff by (metis, metis)
qed

lemma hex_digit_mod: "hex_digit (d mod 16) = hex_digit d"
  by (simp add: hex_digit_def)

lemma hex_byte_digits: "\<exists>h l. hex_byte b = [hex_digit h, hex_digit l] \<and> h < 16 \<and> l < 16 \<and> 16 * h + l = unat b"
proof (intro exI conjI)
  show "hex_byte b = [hex_digit (unat b div 16), hex_digit (unat b mod 16)]"
    by (simp add: hex_byte_def hex_digit_mod)
  have "int (unat b) < 256" using uint_byte_bounds [of b] by simp
  then have "unat b < 256" by linarith
  then show "unat b div 16 < 16" by simp
qed simp_all

lemma parseInt_hex_byte: "parseInt 16 (hex_byte b) = Some (uint b)"
proof -
  obtain h l where hl: "hex_byte b = [hex_digit h, hex_digit l]" "h < 16" "l < 16" "16 * h + l = unat b"
    using hex_byte_digits by blast
  then have "int (unat b) = 16 * int h + int l" by (metis of_nat_add of_nat_mult of_nat_numeral)
  with hl show ?thesis using hex_digit_facts [of h] hex_digit_facts [of l]
    by (auto simp: parseInt_def parse_sign_def strip_0x_def is_radix_digit_def digits_value_def)
qed

end
