(* ===== verification/BufferPack.thy ===== *)
theory BufferPack
  imports JsString
begin

text \<open>
  \<open>libs/bufferpack.js\<close>: packing values into byte arrays and unpacking them, driven by a
  format string such as \<open><I(_len)H(_type)H(_flags)I(_seq)I(_pid)\<close>. The regular expression
  of the format elements is a scanner (\<open>scan_fmt\<close>); \<open>packTo\<close>, \<open>unpack\<close> and
  \<open>calcLength\<close> are loops over the scanned elements; \<open>metaObject\<close> is a record whose
  fields may be unset. The codecs behind \<open>f\<close> and \<open>d\<close> are in theory \<open>Ieee754\<close>: the values of
  \<open>pack\<close> and \<open>unpack\<close> here have integers only, so a format with \<open>f\<close> or \<open>d\<close> stops the model with
  \<open>NotModelled\<close>, and so do the implicit conversions of a value of the wrong type.
\<close>

section \<open>Formats\<close>

datatype ftype = FA | Fx | Fc | Fb | FB | Fh | FH | Fs | FS | Ff | Fd | Fi | FI | Fl | FL

text \<open>The class \<open>[AxcbBhHsSfdiIlL]\<close> of the pattern.\<close>

definition ftype_of_char :: "char \<Rightarrow> ftype option" where
  "ftype_of_char c = map_of
     [(CHR ''A'', FA), (CHR ''x'', Fx), (CHR ''c'', Fc), (CHR ''b'', Fb), (CHR ''B'', FB),
      (CHR ''h'', Fh), (CHR ''H'', FH), (CHR ''s'', Fs), (CHR ''S'', FS), (CHR ''f'', Ff),
      (CHR ''d'', Fd), (CHR ''i'', Fi), (CHR ''I'', FI), (CHR ''l'', Fl), (CHR ''L'', FL)] c"

record fmt_elem =
  fe_count :: nat
  fe_type :: ftype
  fe_key :: "string option"

text \<open>The optional group \<open>(\(([a-zA-Z0-9_]+)\))?\<close>.\<close>

definition match_key :: "string \<Rightarrow> string option \<times> string" where
  "match_key s =
     (case s of
        [] \<Rightarrow> (None, [])
      | c # r \<Rightarrow>
          (let nm = takeWhile is_wordchar r; q = dropWhile is_wordchar r in
           if c = CHR ''('' \<and> nm \<noteq> [] \<and> q \<noteq> [] \<and> hd q = CHR '')'' then (Some nm, tl q)
           else (None, s)))"

text \<open>
  One match of \<open>(\d+)?([AxcbBhHsSfdiIlL])(\(([a-zA-Z0-9_]+)\))?\<close> at the start of the string: the
  digits are taken greedily, and giving some back cannot help since no digit is a type letter.
\<close>

definition match_elem :: "string \<Rightarrow> (fmt_elem \<times> string) option" where
  "match_elem s =
     (let ds = takeWhile is_digit s in
      case dropWhile is_digit s of
        [] \<Rightarrow> None
      | c # r \<Rightarrow>
          (case ftype_of_char c of
             None \<Rightarrow> None
           | Some t \<Rightarrow>
               (let (k, rest) = match_key r in
                Some (\<lparr>fe_count = (if ds = [] then 1 else digits_value 10 ds),
                       fe_type = t, fe_key = k\<rparr>, rest))))"

lemma match_key_length: "match_key s = (k, rest) \<Longrightarrow> length rest \<le> length s"
proof -
  assume a: "match_key s = (k, rest)"
  show ?thesis
  proof (cases s)
    case (Cons c r)
    have "length (tl (dropWhile is_wordchar r)) \<le> length r"
      using length_dropWhile_le [of is_wordchar r] by simp
    with a Cons show ?thesis by (auto simp: match_key_def Let_def split: if_splits)
  qed (use a in \<open>simp add: match_key_def\<close>)
qed

lemma match_elem_length: "match_elem s = Some (e, rest) \<Longrightarrow> length rest < length s"
proof -
  assume "match_elem s = Some (e, rest)"
  then obtain c r k where d: "dropWhile is_digit s = c # r" and m: "match_key r = (k, rest)"
    by (auto simp: match_elem_def Let_def split: list.splits option.splits prod.splits)
  have "length (c # r) \<le> length s" using length_dropWhile_le [of is_digit s] d by simp
  with match_key_length [OF m] show ?thesis by simp
qed

text \<open>
  The loop \<open>while (m = re.exec(fmt))\<close>: the pattern is global, so each search starts where the last
  match ended and skips the characters that start no match (such as the leading \<open><\<close>).
\<close>

function scan_fmt :: "string \<Rightarrow> fmt_elem list" where
  "scan_fmt s =
     (case s of
        [] \<Rightarrow> []
      | c # cs \<Rightarrow>
          (case match_elem s of
             None \<Rightarrow> scan_fmt cs
           | Some (e, rest) \<Rightarrow> e # scan_fmt rest))"
  by pat_completeness auto
termination
  by (relation "measure length") (auto dest: match_elem_length)

declare scan_fmt.simps [simp del]

lemma scan_fmt_Nil [simp]: "scan_fmt [] = []"
  by (simp add: scan_fmt.simps)

lemma scan_fmt_Cons:
  "scan_fmt (c # cs) =
     (case match_elem (c # cs) of None \<Rightarrow> scan_fmt cs | Some (e, rest) \<Rightarrow> e # scan_fmt rest)"
  by (simp add: scan_fmt.simps [of "c # cs"])

text \<open>\<open>bBE = (fmt.charAt(0) != '<')\<close>.\<close>

definition fmt_be :: "string \<Rightarrow> bool" where
  "fmt_be fmt \<longleftrightarrow> take 1 fmt \<noteq> ''<''"

text \<open>The tables \<open>_lenLut\<close> and, for the integer types, \<open>_elLut\<close>.\<close>

fun lenLut :: "ftype \<Rightarrow> nat" where
  "lenLut FA = 1" | "lenLut Fx = 1" | "lenLut Fc = 1" | "lenLut Fb = 1" | "lenLut FB = 1"
| "lenLut Fh = 2" | "lenLut FH = 2" | "lenLut Fs = 1" | "lenLut FS = 1" | "lenLut Ff = 4"
| "lenLut Fd = 8" | "lenLut Fi = 4" | "lenLut FI = 4" | "lenLut Fl = 4" | "lenLut FL = 4"

record int_el =
  el_len :: nat
  el_signed :: bool
  el_min :: int
  el_max :: int

definition signed_el :: "nat \<Rightarrow> int_el" where
  "signed_el n = \<lparr>el_len = n, el_signed = True, el_min = - (2 ^ (8 * n - 1)), el_max = 2 ^ (8 * n - 1) - 1\<rparr>"

definition unsigned_el :: "nat \<Rightarrow> int_el" where
  "unsigned_el n = \<lparr>el_len = n, el_signed = False, el_min = 0, el_max = 2 ^ (8 * n) - 1\<rparr>"

fun elLut :: "ftype \<Rightarrow> int_el option" where
  "elLut Fb = Some (signed_el 1)" | "elLut FB = Some (unsigned_el 1)"
| "elLut Fh = Some (signed_el 2)" | "elLut FH = Some (unsigned_el 2)"
| "elLut Fi = Some (signed_el 4)" | "elLut FI = Some (unsigned_el 4)"
| "elLut Fl = Some (signed_el 4)" | "elLut FL = Some (unsigned_el 4)"
| "elLut _ = None"

lemma elLut_len: "elLut t = Some el \<Longrightarrow> el_len el = lenLut t"
  by (cases t) (auto simp: signed_el_def unsigned_el_def)

lemma elLut_len_le: "elLut t = Some el \<Longrightarrow> el_len el \<le> 4"
  by (cases t) (auto simp: signed_el_def unsigned_el_def)

lemma elLut_cases:
  "elLut t = Some el \<Longrightarrow> \<exists>n \<in> {1, 2, 4}. el = signed_el n \<or> el = unsigned_el n"
  by (cases t) auto

section \<open>Element codecs\<close>

text \<open>
  What a series needs of its element functions \<open>el.en\<close> and \<open>el.de\<close>: encodings of one width, and
  decoding at any offset gives the encoded value back up to \<open>norm\<close> (the clamping of a too
  large value).
\<close>

locale codec =
  fixes enc :: "'v \<Rightarrow> bytes"
    and dec :: "bytes \<Rightarrow> nat \<Rightarrow> 'v"
    and norm :: "'v \<Rightarrow> 'v"
    and width :: nat
  assumes length_enc: "length (enc v) = width"
    and dec_enc: "dec (pre @ enc v @ post) (length pre) = norm v"
begin

lemma length_series: "length (concat (map enc vs)) = length vs * width"
  by (induction vs) (simp_all add: length_enc)

lemma dec_series:
  "map (\<lambda>i. dec (pre @ concat (map enc vs) @ post) (length pre + i * width)) [0..<length vs] = map norm vs"
proof (induction vs arbitrary: pre)
  case (Cons v vs)
  have "map (\<lambda>i. dec (pre @ concat (map enc (v # vs)) @ post) (length pre + i * width)) [0..<length (v # vs)]
      = dec (pre @ enc v @ concat (map enc vs) @ post) (length pre)
        # map (\<lambda>i. dec ((pre @ enc v) @ concat (map enc vs) @ post) (length (pre @ enc v) + i * width)) [0..<length vs]"
    by (simp add: upt_conv_Cons map_Suc_upt [symmetric] length_enc add.assoc del: upt_Suc)
  also have "\<dots> = norm v # map norm vs"
    by (simp only: dec_enc Cons.IH)
  finally show ?case by simp
qed simp

lemma dec_enc_norm_idem: "norm v = v \<Longrightarrow> dec (enc v) 0 = v"
  using dec_enc [of "[]" v "[]"] by simp

end

text \<open>
  \<open>_EnInt\<close>: clamp to the range of the type, then peel off bytes with \<open>v & 0xff\<close> and
  \<open>v >>= 8\<close>, least significant first; with big-endian order the bytes are stored from the other
  end.
\<close>

definition clamp_el :: "int_el \<Rightarrow> int \<Rightarrow> int" where
  "clamp_el el v = (if v < el_min el then el_min el else if v > el_max el then el_max el else v)"

fun en_int_loop :: "nat \<Rightarrow> int \<Rightarrow> bytes" where
  "en_int_loop 0 v = []"
| "en_int_loop (Suc n) v = word_of_int (js_and v 255) # en_int_loop n (js_sar v 8)"

definition EnInt :: "bool \<Rightarrow> int_el \<Rightarrow> int \<Rightarrow> bytes" where
  "EnInt be el v =
     (let bs = en_int_loop (el_len el) (clamp_el el v) in if be then rev bs else bs)"

text \<open>\<open>_DeInt\<close>: the weighted sum of the bytes, then the sign correction.\<close>

fun de_int_loop :: "bytes \<Rightarrow> int \<Rightarrow> int \<Rightarrow> int" where
  "de_int_loop [] f rv = rv"
| "de_int_loop (b # bs) f rv = de_int_loop bs (f * 256) (rv + uint b * f)"

definition DeInt :: "bool \<Rightarrow> int_el \<Rightarrow> bytes \<Rightarrow> nat \<Rightarrow> int" where
  "DeInt be el a p =
     (let bs = take (el_len el) (drop p a);
          rv = de_int_loop (if be then rev bs else bs) 1 0
      in if el_signed el \<and> js_and rv (2 ^ (el_len el * 8 - 1)) \<noteq> 0 then rv - 2 ^ (el_len el * 8)
         else rv)"

lemma en_int_loop_le_bytes: "n \<le> 4 \<Longrightarrow> en_int_loop n v = le_bytes n v"
proof (induction n arbitrary: v)
  case (Suc n)
  have b: "(word_of_int (js_and v 255) :: byte) = word_of_int v"
    by (rule word_uint_eqI) (simp only: uint_word_of_int js_and_255, simp)
  have "js_sar v 8 = to_int32 v div 256" by (simp add: js_sar_div)
  moreover have "le_bytes n (to_int32 v div 256) = le_bytes n (v div 256)"
  proof -
    have "to_int32 v div 256 mod 256 ^ n = (to_int32 v mod 256 ^ Suc n) div 256"
      by (simp add: mod_mult2_eq' zmod_zmult2_eq)
    also have "to_int32 v mod 256 ^ Suc n = v mod 256 ^ Suc n"
    proof -
      have p: "(256 :: int) ^ Suc n = 2 ^ (8 * Suc n)" by (simp only: power_mult) simp
      show ?thesis unfolding p by (rule to_int32_mod) (use Suc.prems in simp)
    qed
    also have "(v mod 256 ^ Suc n) div 256 = v div 256 mod 256 ^ n"
      by (simp add: mod_mult2_eq' zmod_zmult2_eq)
    finally show ?thesis by (metis le_bytes_mod)
  qed
  ultimately show ?case using Suc by (simp add: b)
qed simp

lemma de_int_loop_le_val: "de_int_loop bs f rv = rv + f * le_val bs"
  by (induction bs arbitrary: f rv) (simp_all add: algebra_simps)

text \<open>
  What an integer field holds after a round trip: the value clamped to the range of its type.
\<close>

lemma clamp_el_id: "el_min el \<le> v \<Longrightarrow> v \<le> el_max el \<Longrightarrow> clamp_el el v = v"
  by (simp add: clamp_el_def)

lemma clamp_el_range: "el_min el \<le> el_max el \<Longrightarrow> el_min el \<le> clamp_el el v \<and> clamp_el el v \<le> el_max el"
  by (simp add: clamp_el_def)

lemma EnInt_eq:
  "elLut t = Some el \<Longrightarrow>
     EnInt be el v = (if be then rev (le_bytes (el_len el) (clamp_el el v)) else le_bytes (el_len el) (clamp_el el v))"
  using elLut_len_le [of t el] by (simp add: EnInt_def en_int_loop_le_bytes)

lemma length_EnInt [simp]: "elLut t = Some el \<Longrightarrow> length (EnInt be el v) = lenLut t"
  using elLut_len [of t el] by (simp add: EnInt_eq)

lemma odd_div_iff:
  fixes v m :: int
  assumes "0 \<le> v" "v < 2 * m" "0 < m"
  shows "odd (v div m) \<longleftrightarrow> m \<le> v"
proof (cases "v < m")
  case True
  with assms show ?thesis by (simp add: div_pos_pos_trivial)
next
  case False
  then have "v div m = (v - m) div m + 1" using assms by (intro div_pos_geq) auto
  also have "(v - m) div m = 0" using assms False by (intro div_pos_pos_trivial) auto
  finally show ?thesis using False by simp
qed

lemma js_and_sign_bit:
  assumes "0 \<le> v" "v < 2 ^ n" "n \<in> {8, 16, 32}"
  shows "js_and v (2 ^ (n - 1)) \<noteq> 0 \<longleftrightarrow> 2 ^ (n - 1) \<le> v"
proof -
  have nz: "a AND b = 0 \<longleftrightarrow> (\<forall>i. \<not> (bit a i \<and> bit b i))" for a b :: int
    by (auto simp: bit_eq_iff bit_simps)
  have "v < 2 * 2 ^ (n - 1)" using assms(2,3) by auto
  with assms(1) have "bit v (n - 1) \<longleftrightarrow> 2 ^ (n - 1) \<le> v"
    unfolding bit_iff_odd by (intro odd_div_iff) auto
  moreover have "js_and v (2 ^ (n - 1)) \<noteq> 0 \<longleftrightarrow> bit v (n - 1)"
    unfolding js_and_def nz to_int32_def using assms(3)
    by (auto simp: bit_signed_take_bit_iff bit_simps min_def intro: exI [of _ 7] exI [of _ 15])
  ultimately show ?thesis by simp
qed

lemma DeInt_EnInt:
  assumes "elLut t = Some el"
  shows "DeInt be el (pre @ EnInt be el v @ post) (length pre) = clamp_el el v"
proof -
  from elLut_cases [OF assms] obtain n where n: "n \<in> {1, 2, 4}" and el: "el = signed_el n \<or> el = unsigned_el n"
    by blast
  define c where "c = clamp_el el v"
  have len: "el_len el = n" using el by (auto simp: signed_el_def unsigned_el_def)
  have p: "(256 :: int) ^ n = 2 ^ (8 * n)" by (simp only: power_mult) simp
  have rv: "de_int_loop (if be then rev (EnInt be el v) else EnInt be el v) 1 0 = c mod 2 ^ (8 * n)"
    using assms by (simp add: EnInt_eq de_int_loop_le_val le_val_le_bytes len c_def p [symmetric])
  have "take (el_len el) (drop (length pre) (pre @ EnInt be el v @ post)) = EnInt be el v"
    using assms elLut_len [OF assms] by simp
  then have D: "DeInt be el (pre @ EnInt be el v @ post) (length pre) =
      (if el_signed el \<and> js_and (c mod 2 ^ (8 * n)) (2 ^ (n * 8 - 1)) \<noteq> 0
       then c mod 2 ^ (8 * n) - 2 ^ (n * 8) else c mod 2 ^ (8 * n))"
    by (simp only: DeInt_def Let_def rv len)
  have sb: "js_and (c mod 2 ^ (8 * n)) (2 ^ (n * 8 - 1)) \<noteq> 0 \<longleftrightarrow> 2 ^ (8 * n - 1) \<le> c mod 2 ^ (8 * n)"
    using js_and_sign_bit [of "c mod 2 ^ (8 * n)" "8 * n"] n by (auto simp: mult.commute)
  show ?thesis
  proof (cases "el = signed_el n")
    case True
    have c: "- (2 ^ (8 * n - 1)) \<le> c" "c < 2 ^ (8 * n - 1)"
      using clamp_el_range [of el v] n True by (auto simp: c_def signed_el_def)
    have "(if 2 ^ (8 * n - 1) \<le> c mod 2 ^ (8 * n) then c mod 2 ^ (8 * n) - 2 ^ (8 * n) else c mod 2 ^ (8 * n)) = c"
    proof (cases "c < 0")
      case True
      have "c mod 2 ^ (8 * n) = (c + 2 ^ (8 * n)) mod 2 ^ (8 * n)" by simp
      also have "\<dots> = c + 2 ^ (8 * n)" using True c n by (intro mod_pos_pos_trivial) auto
      finally show ?thesis using c n True by auto
    next
      case False
      then have "c mod 2 ^ (8 * n) = c" using c n by (intro mod_pos_pos_trivial) auto
      with c show ?thesis by simp
    qed
    moreover have "el_signed el" using True by (simp add: signed_el_def)
    ultimately show ?thesis unfolding D sb c_def [symmetric] by (simp only: mult.commute [of n 8] simp_thms)
  next
    case False
    then have e: "el = unsigned_el n" using el by simp
    have c: "0 \<le> c" "c < 2 ^ (8 * n)"
      using clamp_el_range [of el v] by (auto simp: c_def e unsigned_el_def)
    then have "c mod 2 ^ (8 * n) = c" by (intro mod_pos_pos_trivial) auto
    moreover have "\<not> el_signed el" by (simp add: e unsigned_el_def)
    ultimately show ?thesis unfolding D c_def [symmetric] by simp
  qed
qed

lemma int_codec: "elLut t = Some el \<Longrightarrow> codec (EnInt be el) (DeInt be el) (clamp_el el) (lenLut t)"
  by unfold_locales (simp_all add: DeInt_EnInt)

interpretation int8: codec "EnInt be (signed_el 1)" "DeInt be (signed_el 1)" "clamp_el (signed_el 1)" 1 for be
  using int_codec [of Fb] by simp

interpretation uint8: codec "EnInt be (unsigned_el 1)" "DeInt be (unsigned_el 1)" "clamp_el (unsigned_el 1)" 1 for be
  using int_codec [of FB] by simp

interpretation int16: codec "EnInt be (signed_el 2)" "DeInt be (signed_el 2)" "clamp_el (signed_el 2)" 2 for be
  using int_codec [of Fh] by simp

interpretation uint16: codec "EnInt be (unsigned_el 2)" "DeInt be (unsigned_el 2)" "clamp_el (unsigned_el 2)" 2 for be
  using int_codec [of FH] by simp

interpretation int32: codec "EnInt be (signed_el 4)" "DeInt be (signed_el 4)" "clamp_el (signed_el 4)" 4 for be
  using int_codec [of Fi] by simp

interpretation uint32: codec "EnInt be (unsigned_el 4)" "DeInt be (unsigned_el 4)" "clamp_el (unsigned_el 4)" 4 for be
  using int_codec [of FI] by simp

section \<open>Text codecs\<close>

text \<open>\<open>_EnArray\<close>, \<open>_EnString\<close> and \<open>_EnChar\<close> write a zero where the value has no byte.\<close>

definition EnArray :: "nat \<Rightarrow> bytes \<Rightarrow> bytes" where
  "EnArray l v = map (\<lambda>i. if i < length v then v ! i else 0) [0..<l]"

definition EnString :: "nat \<Rightarrow> string \<Rightarrow> bytes" where
  "EnString l s = map (\<lambda>i. if i < length s then of_char (s ! i) else 0) [0..<l]"

definition EnChar :: "string \<Rightarrow> byte" where
  "EnChar s = (case s of [] \<Rightarrow> 0 | c # _ \<Rightarrow> of_char c)"

definition DeString :: "bytes \<Rightarrow> string" where
  "DeString bs = map (\<lambda>b. char_of (unat b)) bs"

lemma DeString_EnString: "length s = l \<Longrightarrow> DeString (EnString l s) = s"
proof -
  assume "length s = l"
  moreover have "unat (of_char c :: byte) = of_char c" for c
  proof -
    have "(of_char c :: byte) = of_nat (of_char c)" by (rule of_nat_of_char [symmetric])
    then have "unat (of_char c :: byte) = of_char c mod 256" by (simp only: unat_of_nat) simp
    then show ?thesis by simp
  qed
  ultimately show ?thesis by (auto simp: DeString_def EnString_def intro!: nth_equalityI)
qed

section \<open>packTo, unpack, calcLength\<close>

text \<open>\<open>values[i].length\<close>, as \<open>calcLength\<close> and \<open>packTo\<close> need it for a null-terminated string.\<close>

definition value_length :: "jsval list \<Rightarrow> nat \<Rightarrow> nat run" where
  "value_length vals i =
     (if i < length vals then
        (case vals ! i of
           Str s \<Rightarrow> Return (length s)
         | Buf b \<Rightarrow> Return (length b)
         | Arr xs \<Rightarrow> Return (length xs)
         | Undef \<Rightarrow> Throw TypeError
         | Null \<Rightarrow> Throw TypeError
         | _ \<Rightarrow> Throw (NotModelled ''length of a value without one''))
      else Throw TypeError)"

fun calc_loop :: "fmt_elem list \<Rightarrow> jsval list \<Rightarrow> nat \<Rightarrow> nat \<Rightarrow> nat run" where
  "calc_loop [] vals i acc = Return acc"
| "calc_loop (e # es) vals i acc =
     run_bind
       (if fe_type e = FS then run_bind (value_length vals i) (\<lambda>n. Return (n + 1))
        else Return (fe_count e * lenLut (fe_type e)))
       (\<lambda>n. calc_loop es vals (if fe_type e = Fx then i else i + 1) (acc + n))"

definition calcLength :: "string \<Rightarrow> jsval list \<Rightarrow> nat run" where
  "calcLength fmt vals = calc_loop (scan_fmt fmt) vals 0 0"

text \<open>The encoders on dynamically typed values.\<close>

fun en_num :: "bool \<Rightarrow> int_el \<Rightarrow> jsval \<Rightarrow> bytes run" where
  "en_num be el (Num v) = Return (EnInt be el v)"
| "en_num be el Undef = Return (replicate (el_len el) 0)"
| "en_num be el Null = Return (EnInt be el 0)"
| "en_num be el _ = Throw (NotModelled ''conversion to a number'')"

fun en_char :: "jsval \<Rightarrow> bytes run" where
  "en_char (Str s) = Return [EnChar s]"
| "en_char _ = Throw TypeError"

definition en_array :: "nat \<Rightarrow> jsval \<Rightarrow> bytes run" where
  "en_array l v =
     (if l = 0 then Return []
      else case v of
             Buf b \<Rightarrow> Return (EnArray l b)
           | Undef \<Rightarrow> Throw TypeError
           | Null \<Rightarrow> Throw TypeError
           | Num k \<Rightarrow> Return (replicate l 0)
           | JBool b \<Rightarrow> Return (replicate l 0)
           | _ \<Rightarrow> Throw (NotModelled ''array elements of other types''))"

definition en_string :: "nat \<Rightarrow> jsval \<Rightarrow> bytes run" where
  "en_string l v =
     (if l = 0 then Return [] else case v of Str s \<Rightarrow> Return (EnString l s) | _ \<Rightarrow> Throw TypeError)"

definition en_series :: "ftype \<Rightarrow> bool \<Rightarrow> jsval list \<Rightarrow> bytes run" where
  "en_series t be vs =
     run_bind
       (run_map
          (case elLut t of
             Some el \<Rightarrow> en_num be el
           | None \<Rightarrow> if t = Fc then en_char else (\<lambda>_. Throw (NotModelled ''IEEE 754''))) vs)
       (\<lambda>bss. Return (concat bss))"

text \<open>
  The loop of \<open>packTo\<close>: \<open>i\<close> is the index of the next value, \<open>p\<close> the write position.
  \<open>Return None\<close> is \<open>false\<close>: the array is too short or the values run out.
\<close>

fun pack_to_loop :: "bool \<Rightarrow> fmt_elem list \<Rightarrow> bytes \<Rightarrow> nat \<Rightarrow> jsval list \<Rightarrow> nat \<Rightarrow> bytes option run" where
  "pack_to_loop be [] a p vals i = Return (Some a)"
| "pack_to_loop be (e # es) a p vals i =
     run_bind
       (if fe_type e = FS then run_bind (value_length vals i) (\<lambda>n. Return (n + 1)) else Return (fe_count e))
       (\<lambda>n.
          let t = fe_type e; q = p + n * lenLut t in
          if q > length a then Return None
          else if t = FA \<or> t = Fs \<or> t = FS then
            (if i + 1 > length vals then Return None
             else run_bind ((if t = FA then en_array else en_string) n (vals ! i))
                    (\<lambda>bs. pack_to_loop be es (write_at a p bs) q vals (i + 1)))
          else if t = Fx then pack_to_loop be es (write_at a p (replicate n 0)) q vals i
          else if i + n > length vals then Return None
          else run_bind (en_series t be (take n (drop i vals)))
                 (\<lambda>bs. pack_to_loop be es (write_at a p bs) q vals (i + n)))"

definition packTo :: "string \<Rightarrow> bytes \<Rightarrow> nat \<Rightarrow> jsval list \<Rightarrow> bytes option run" where
  "packTo fmt a p vals = pack_to_loop (fmt_be fmt) (scan_fmt fmt) a p vals 0"

text \<open>\<open>pack(fmt, values)\<close>.\<close>

definition pack :: "string \<Rightarrow> jsval list \<Rightarrow> bytes option run" where
  "pack fmt vals = run_bind (calcLength fmt vals) (\<lambda>n. packTo fmt (replicate n 0) 0 vals)"

text \<open>
  \<open>unpack\<close>. The scan for the terminator of an \<open>S\<close> string compares \<open>a[p + n] !== 0\<close>; past the
  end of the array the element is \<open>undefined\<close>, which is not \<open>0\<close>, so without a terminator
  the loop runs forever.
\<close>

fun find_nul :: "bytes \<Rightarrow> nat option" where
  "find_nul [] = None"
| "find_nul (b # bs) = (if b = 0 then Some 0 else map_option Suc (find_nul bs))"

definition elem_count :: "fmt_elem \<Rightarrow> bytes \<Rightarrow> nat \<Rightarrow> nat run" where
  "elem_count e a p =
     (if fe_type e = FS then
        (case find_nul (drop p a) of None \<Rightarrow> Diverge | Some n \<Rightarrow> Return (n + 1))
      else Return (fe_count e))"

definition de_elem :: "bool \<Rightarrow> ftype \<Rightarrow> nat \<Rightarrow> bytes \<Rightarrow> nat \<Rightarrow> jsval list run" where
  "de_elem be t n a p =
     (case elLut t of
        Some el \<Rightarrow> Return (map (\<lambda>i. Num (DeInt be el a (p + i * lenLut t))) [0..<n])
      | None \<Rightarrow>
          (case t of
             FA \<Rightarrow> Return [Buf (take n (drop p a))]
           | Fs \<Rightarrow> Return [Str (DeString (take n (drop p a)))]
           | FS \<Rightarrow> Return [Str (butlast (DeString (take n (drop p a))))]
           | Fc \<Rightarrow> Return (map (\<lambda>i. Str (DeString (take 1 (drop (p + i) a)))) [0..<n])
           | Fx \<Rightarrow> Return []
           | _ \<Rightarrow> Throw (NotModelled ''IEEE 754'')))"

text \<open>The loop of \<open>unpack\<close> collects the values and the keys; \<open>Return None\<close> is \<open>undefined\<close>.\<close>

fun unpack_loop :: "bool \<Rightarrow> fmt_elem list \<Rightarrow> bytes \<Rightarrow> nat \<Rightarrow> (jsval list \<times> string option list) option run" where
  "unpack_loop be [] a p = Return (Some ([], []))"
| "unpack_loop be (e # es) a p =
     run_bind (elem_count e a p) (\<lambda>n.
       let q = p + n * lenLut (fe_type e) in
       if q > length a then Return None
       else run_bind (de_elem be (fe_type e) n a p) (\<lambda>vs.
              run_bind (unpack_loop be es a q) (\<lambda>r.
                Return (map_option (\<lambda>(rv, rk). (vs @ rv, fe_key e # rk)) r))))"

text \<open>\<open>_zip(keys, values)\<close>: a key past the last value gets \<open>undefined\<close>.\<close>

fun zip_obj :: "string list \<Rightarrow> jsval list \<Rightarrow> (string \<times> jsval) list \<Rightarrow> (string \<times> jsval) list" where
  "zip_obj [] vs r = r"
| "zip_obj (k # ks) [] r = zip_obj ks [] (obj_set k Undef r)"
| "zip_obj (k # ks) (v # vs) r = zip_obj ks vs (obj_set k v r)"

definition unpack :: "string \<Rightarrow> bytes \<Rightarrow> nat \<Rightarrow> jsval run" where
  "unpack fmt a p =
     run_bind (unpack_loop (fmt_be fmt) (scan_fmt fmt) a p) (\<lambda>r.
       Return (case r of
           None \<Rightarrow> Undef
         | Some (rv, rk) \<Rightarrow>
             if None \<in> set rk then Arr rv else Obj (zip_obj (map the rk) rv [])))"

section \<open>Integer formats\<close>

text \<open>
  Every format the library itself uses has integer elements only. For these, \<open>enc_elems\<close> is the
  reference layout and \<open>norm_elems\<close> what comes back: the values clamped to their fields.
\<close>

definition int_elems :: "fmt_elem list \<Rightarrow> bool" where
  "int_elems es \<longleftrightarrow> list_all (\<lambda>e. elLut (fe_type e) \<noteq> None) es"

definition count_sum :: "fmt_elem list \<Rightarrow> nat" where
  "count_sum es = sum_list (map fe_count es)"

definition fmt_size :: "fmt_elem list \<Rightarrow> nat" where
  "fmt_size es = sum_list (map (\<lambda>e. fe_count e * lenLut (fe_type e)) es)"

definition int_el_of :: "ftype \<Rightarrow> int_el" where
  "int_el_of t = the (elLut t)"

fun enc_elems :: "bool \<Rightarrow> fmt_elem list \<Rightarrow> int list \<Rightarrow> bytes" where
  "enc_elems be [] vs = []"
| "enc_elems be (e # es) vs =
     concat (map (EnInt be (int_el_of (fe_type e))) (take (fe_count e) vs)) @ enc_elems be es (drop (fe_count e) vs)"

fun norm_elems :: "fmt_elem list \<Rightarrow> int list \<Rightarrow> int list" where
  "norm_elems [] vs = []"
| "norm_elems (e # es) vs =
     map (clamp_el (int_el_of (fe_type e))) (take (fe_count e) vs) @ norm_elems es (drop (fe_count e) vs)"

lemma int_elems_Cons [simp]:
  "int_elems (e # es) \<longleftrightarrow> elLut (fe_type e) = Some (int_el_of (fe_type e)) \<and> int_elems es"
  by (auto simp: int_elems_def int_el_of_def)

lemma fmt_sums_Cons [simp]:
  "count_sum (e # es) = fe_count e + count_sum es"
  "fmt_size (e # es) = fe_count e * lenLut (fe_type e) + fmt_size es"
  "count_sum [] = 0" "fmt_size [] = 0" "int_elems []"
  by (simp_all add: count_sum_def fmt_size_def int_elems_def)

lemma elLut_not_text:
  "elLut t = Some el \<Longrightarrow> t \<noteq> FA \<and> t \<noteq> Fs \<and> t \<noteq> FS \<and> t \<noteq> Fx \<and> t \<noteq> Fc"
  by (cases t) auto

lemma length_int_series:
  "elLut t = Some (int_el_of t) \<Longrightarrow> length (concat (map (EnInt be (int_el_of t)) vs)) = length vs * lenLut t"
  by (rule codec.length_series [OF int_codec])

lemma dec_int_series:
  "elLut t = Some el \<Longrightarrow> length pre = p \<Longrightarrow> length vs = n \<Longrightarrow>
     map (\<lambda>i. Num (DeInt be el (pre @ concat (map (EnInt be el) vs) @ post) (p + i * lenLut t))) [0..<n]
     = map Num (map (clamp_el el) vs)"
proof -
  assume "elLut t = Some el" "length pre = p" "length vs = n"
  then have "map Num (map (\<lambda>i. DeInt be el (pre @ concat (map (EnInt be el) vs) @ post) (p + i * lenLut t)) [0..<n])
      = map Num (map (clamp_el el) vs)"
    using codec.dec_series [OF int_codec, of t el be pre vs post] by simp
  then show ?thesis by (simp only: map_map comp_def)
qed

lemma length_enc_elems: "int_elems es \<Longrightarrow> count_sum es \<le> length vs \<Longrightarrow> length (enc_elems be es vs) = fmt_size es"
proof (induction es arbitrary: vs)
  case (Cons e es)
  then show ?case by (simp add: length_int_series)
qed simp

lemma calc_loop_no_S:
  "FS \<notin> fe_type ` set es \<Longrightarrow> calc_loop es vals i acc = Return (acc + fmt_size es)"
  by (induction es arbitrary: i acc) auto

lemma en_series_ints:
  "elLut t = Some el \<Longrightarrow> en_series t be (map Num vs) = Return (concat (map (EnInt be el) vs))"
proof -
  assume a: "elLut t = Some el"
  have "run_map (en_num be el) (map Num vs) = Return (map (EnInt be el) vs)"
    by (induction vs) simp_all
  with a show ?thesis by (simp add: en_series_def)
qed

lemma pack_to_loop_ints:
  "int_elems es \<Longrightarrow> p + fmt_size es \<le> length a \<Longrightarrow> i + count_sum es \<le> length vs \<Longrightarrow>
     pack_to_loop be es a p (map Num vs) i = Return (Some (write_at a p (enc_elems be es (drop i vs))))"
proof (induction es arbitrary: a p i)
  case Nil
  then show ?case by (simp add: write_at_def)
next
  case (Cons e es)
  define el where "el = int_el_of (fe_type e)"
  have el: "elLut (fe_type e) = Some el" using Cons.prems by (simp add: el_def)
  let ?n = "fe_count e" and ?q = "p + fe_count e * lenLut (fe_type e)"
  let ?bs = "concat (map (EnInt be el) (take ?n (drop i vs)))"
  have "length (take ?n (drop i vs)) = ?n" using Cons.prems by simp
  then have len: "length ?bs = ?n * lenLut (fe_type e)"
    using codec.length_series [OF int_codec [OF el]] by metis
  have ser: "en_series (fe_type e) be (take ?n (drop i (map Num vs))) = Return ?bs"
    using en_series_ints [OF el] by (simp add: take_map drop_map)
  have "pack_to_loop be (e # es) a p (map Num vs) i
      = pack_to_loop be es (write_at a p ?bs) ?q (map Num vs) (i + ?n)"
    using Cons.prems elLut_not_text [OF el] ser by (simp add: Let_def)
  also have "\<dots> = Return (Some (write_at (write_at a p ?bs) ?q (enc_elems be es (drop (i + ?n) vs))))"
    using Cons.prems len by (intro Cons.IH) simp_all
  also have "write_at (write_at a p ?bs) ?q (enc_elems be es (drop (i + ?n) vs))
      = write_at a p (?bs @ enc_elems be es (drop (i + ?n) vs))"
    using Cons.prems len by (simp add: write_at_def ac_simps)
  finally show ?case by (simp add: el_def add.commute)
qed

lemma pack_ints:
  assumes "int_elems (scan_fmt fmt)" "count_sum (scan_fmt fmt) \<le> length vs"
  shows "pack fmt (map Num vs) = Return (Some (enc_elems (fmt_be fmt) (scan_fmt fmt) vs))"
proof -
  let ?es = "scan_fmt fmt"
  have "FS \<notin> fe_type ` set ?es"
    using assms(1) by (force simp: int_elems_def list_all_iff)
  then have "calcLength fmt (map Num vs) = Return (fmt_size ?es)"
    by (simp add: calcLength_def calc_loop_no_S)
  moreover have "length (enc_elems (fmt_be fmt) ?es vs) = fmt_size ?es"
    using assms by (rule length_enc_elems)
  ultimately show ?thesis
    using pack_to_loop_ints [of ?es 0 "replicate (fmt_size ?es) 0" 0 vs "fmt_be fmt"] assms
    by (simp add: pack_def packTo_def write_at_def)
qed

lemma unpack_loop_ints:
  "int_elems es \<Longrightarrow> count_sum es = length vs \<Longrightarrow> length pre = p \<Longrightarrow>
     unpack_loop be es (pre @ enc_elems be es vs @ post) p
     = Return (Some (map Num (norm_elems es vs), map fe_key es))"
proof (induction es arbitrary: vs pre p)
  case (Cons e es)
  define el where "el = int_el_of (fe_type e)"
  have el: "elLut (fe_type e) = Some el" using Cons.prems by (simp add: el_def)
  let ?n = "fe_count e" and ?w = "lenLut (fe_type e)"
  define us where "us = take ?n vs"
  have lus: "length us = ?n" using Cons.prems by (simp add: us_def)
  define bs where "bs = concat (map (EnInt be el) us)"
  define rest where "rest = enc_elems be es (drop ?n vs)"
  have enc: "enc_elems be (e # es) vs = bs @ rest" by (simp add: bs_def rest_def us_def el_def)
  have lbs: "length bs = ?n * ?w" unfolding bs_def using codec.length_series [OF int_codec [OF el]] lus by metis
  have ec: "elem_count e a q = Return ?n" for a q
    using elLut_not_text [OF el] by (simp add: elem_count_def)
  have de: "de_elem be (fe_type e) ?n (pre @ bs @ rest @ post) p = Return (map Num (map (clamp_el el) us))"
    using dec_int_series [OF el Cons.prems(3) lus, of be "rest @ post"]
    by (simp add: de_elem_def el bs_def)
  have "unpack_loop be es ((pre @ bs) @ rest @ post) (p + ?n * ?w)
      = Return (Some (map Num (norm_elems es (drop ?n vs)), map fe_key es))"
    unfolding rest_def using Cons.prems lbs by (intro Cons.IH) simp_all
  then have "unpack_loop be (e # es) (pre @ (bs @ rest) @ post) p
      = Return (Some (map Num (map (clamp_el el) us) @ map Num (norm_elems es (drop ?n vs)), map fe_key (e # es)))"
    using Cons.prems lbs by (simp add: ec de Let_def del: map_map)
  then show ?case unfolding enc by (simp add: us_def el_def)
qed simp

definition unpack_result :: "string option list \<Rightarrow> jsval list \<Rightarrow> jsval" where
  "unpack_result rk rv = (if None \<in> set rk then Arr rv else Obj (zip_obj (map the rk) rv []))"

lemma unpack_ints:
  "int_elems (scan_fmt fmt) \<Longrightarrow> count_sum (scan_fmt fmt) = length vs \<Longrightarrow>
     unpack fmt (pre @ enc_elems (fmt_be fmt) (scan_fmt fmt) vs @ post) (length pre)
     = Return (unpack_result (map fe_key (scan_fmt fmt)) (map Num (norm_elems (scan_fmt fmt) vs)))"
  by (simp add: unpack_def unpack_result_def unpack_loop_ints)

text \<open>
  C24. Round trip of an integer format: \<open>pack\<close> of as many numbers as the format has elements
  succeeds with exactly the number of bytes the format describes, and \<open>unpack\<close> at the offset where
  those bytes stand in any larger buffer gives the numbers back, each clamped to the range of its
  field (so unchanged when it was in range), under the keys of the format.
\<close>

theorem pack_unpack_roundtrip:
  assumes "int_elems (scan_fmt fmt)" and "count_sum (scan_fmt fmt) = length vs"
  shows "\<exists>bs. pack fmt (map Num vs) = Return (Some bs) \<and> length bs = fmt_size (scan_fmt fmt) \<and>
           (\<forall>pre post. unpack fmt (pre @ bs @ post) (length pre)
              = Return (unpack_result (map fe_key (scan_fmt fmt)) (map Num (norm_elems (scan_fmt fmt) vs))))"
  using pack_ints [of fmt vs] unpack_ints [of fmt vs] length_enc_elems [of "scan_fmt fmt" vs] assms by auto

lemma pack_unpack_roundtrip_witness:
  "\<exists>bs. pack ''<I(_len)H(_type)'' (map Num [70000, 70000]) = Return (Some bs) \<and>
     length bs = fmt_size (scan_fmt ''<I(_len)H(_type)'') \<and>
     (\<forall>pre post. unpack ''<I(_len)H(_type)'' (pre @ bs @ post) (length pre)
        = Return (unpack_result (map fe_key (scan_fmt ''<I(_len)H(_type)''))
            (map Num (norm_elems (scan_fmt ''<I(_len)H(_type)'') [70000, 70000]))))"
  by (rule pack_unpack_roundtrip) code_simp+

text \<open>In range, nothing is clamped.\<close>

fun in_range :: "fmt_elem list \<Rightarrow> int list \<Rightarrow> bool" where
  "in_range [] vs = True"
| "in_range (e # es) vs \<longleftrightarrow>
     (\<forall>v \<in> set (take (fe_count e) vs).
        el_min (int_el_of (fe_type e)) \<le> v \<and> v \<le> el_max (int_el_of (fe_type e)))
     \<and> in_range es (drop (fe_count e) vs)"

lemma norm_elems_in_range: "in_range es vs \<Longrightarrow> norm_elems es vs = take (count_sum es) vs"
proof (induction es arbitrary: vs)
  case (Cons e es)
  then have "map (clamp_el (int_el_of (fe_type e))) (take (fe_count e) vs) = take (fe_count e) vs"
    by (intro map_idI clamp_el_id) auto
  with Cons show ?case by (simp add: take_add)
qed simp

section \<open>Meta objects\<close>

text \<open>
  The object \<open>metaObject\<close> returns: the format, the keys in order, the fields (own properties
  of the object) and the packed length computed when it is built. Fields that are still
  \<open>null\<close> or \<open>undefined\<close> are left out of \<open>toValArray\<close>.
\<close>

record meta =
  m_format :: string
  m_keylist :: "string list"
  m_fields :: "(string \<times> jsval) list"
  m_length :: nat

definition toValArray :: "string list \<Rightarrow> (string \<times> jsval) list \<Rightarrow> jsval list" where
  "toValArray ks fs = filter (\<lambda>v. v \<noteq> Undef \<and> v \<noteq> Null) (map (obj_get fs) ks)"

definition metaObject :: "string \<Rightarrow> bool \<Rightarrow> meta run" where
  "metaObject fmt initzero =
     (let ks = List.map_filter fe_key (scan_fmt fmt);
          fs = fold (\<lambda>k. obj_set k (if initzero then Num 0 else Null)) ks []
      in run_bind (calcLength fmt (toValArray ks fs)) (\<lambda>n.
           Return \<lparr>m_format = fmt, m_keylist = ks, m_fields = fs, m_length = n\<rparr>))"

definition meta_set :: "string \<Rightarrow> jsval \<Rightarrow> meta \<Rightarrow> meta" where
  "meta_set k v m = m\<lparr>m_fields := obj_set k v (m_fields m)\<rparr>"

definition meta_get :: "meta \<Rightarrow> string \<Rightarrow> jsval" where
  "meta_get m k = obj_get (m_fields m) k"

definition meta_pack :: "meta \<Rightarrow> bytes option run" where
  "meta_pack m = pack (m_format m) (toValArray (m_keylist m) (m_fields m))"

lemma meta_get_set [simp]: "meta_get (meta_set k v m) k' = (if k' = k then v else meta_get m k')"
  by (simp add: meta_get_def meta_set_def)

lemma meta_set_sel [simp]:
  "m_format (meta_set k v m) = m_format m"
  "m_keylist (meta_set k v m) = m_keylist m"
  "m_length (meta_set k v m) = m_length m"
  by (simp_all add: meta_set_def)

text \<open>A meta object whose fields are all numbers packs to the reference layout.\<close>

definition num_of :: "jsval \<Rightarrow> int" where
  "num_of v = (case v of Num n \<Rightarrow> n | _ \<Rightarrow> 0)"

definition all_nums :: "meta \<Rightarrow> bool" where
  "all_nums m \<longleftrightarrow> list_all (\<lambda>k. meta_get m k = Num (num_of (meta_get m k))) (m_keylist m)"

definition meta_nums :: "meta \<Rightarrow> int list" where
  "meta_nums m = map (\<lambda>k. num_of (meta_get m k)) (m_keylist m)"

lemma all_nums_set: "all_nums m \<Longrightarrow> all_nums (meta_set k (Num v) m)"
  by (auto simp: all_nums_def list_all_iff num_of_def)

lemma toValArray_nums:
  assumes "all_nums m"
  shows "toValArray (m_keylist m) (m_fields m) = map Num (meta_nums m)"
proof -
  have "toValArray ks (m_fields m) = map Num (map (\<lambda>k. num_of (meta_get m k)) ks)"
    if "list_all (\<lambda>k. meta_get m k = Num (num_of (meta_get m k))) ks" for ks
    using that by (induction ks) (auto simp: toValArray_def meta_get_def)
  then show ?thesis using assms by (simp add: all_nums_def meta_nums_def)
qed

lemma meta_pack_nums:
  assumes "all_nums m" "int_elems (scan_fmt (m_format m))"
    "count_sum (scan_fmt (m_format m)) \<le> length (m_keylist m)"
  shows "meta_pack m = Return (Some (enc_elems (fmt_be (m_format m)) (scan_fmt (m_format m)) (meta_nums m)))"
proof -
  have "length (meta_nums m) = length (m_keylist m)" by (simp add: meta_nums_def)
  with assms show ?thesis by (simp only: meta_pack_def toValArray_nums pack_ints)
qed

end
