(* ===== verification/Netlink.thy ===== *)
theory Netlink
  imports BufferPack
begin

text \<open>
  \<open>nl/netlink.js\<close>: the netlink constants, the message header and the framing of a message, which
  every command of the library ends with: the lengths of the payload buffers are added up, the
  header is packed in front and the pieces are concatenated. Sending itself belongs to the native
  socket.
\<close>

section \<open>Constants\<close>

abbreviation (input) "NLM_F_REQUEST \<equiv> (0x0001 :: int)"
abbreviation (input) "NLM_F_MULTI \<equiv> (0x0002 :: int)"
abbreviation (input) "NLM_F_ACK \<equiv> (0x0004 :: int)"
abbreviation (input) "NLM_F_ECHO \<equiv> (0x0008 :: int)"
abbreviation (input) "NLM_F_ROOT \<equiv> (0x0100 :: int)"
abbreviation (input) "NLM_F_MATCH \<equiv> (0x0200 :: int)"
abbreviation (input) "NLM_F_REPLACE \<equiv> (0x100 :: int)"
abbreviation (input) "NLM_F_EXCL \<equiv> (0x200 :: int)"
abbreviation (input) "NLM_F_CREATE \<equiv> (0x400 :: int)"
abbreviation (input) "NLM_F_APPEND \<equiv> (0x800 :: int)"
abbreviation (input) "NLMSG_MIN_TYPE \<equiv> (0x10 :: int)"
abbreviation (input) "NLMSG_ERROR \<equiv> (0x2 :: int)"
abbreviation (input) "NLMSG_DONE \<equiv> (0x3 :: int)"
abbreviation (input) "NLMSG_MAX_TYPE \<equiv> (0x11 :: int)"

text \<open>
  The object literal \<open>nl\<close>, in source order. In \<open>NLM_F_DUMP: (this.NLM_F_ROOT|this.NLM_F_MATCH)\<close>
  the word \<open>this\<close> is not the object under construction but the module's empty \<open>exports\<close>, so
  both operands are \<open>undefined\<close> and \<open>undefined|undefined\<close> is 0.
\<close>

definition js_or_val :: "jsval \<Rightarrow> jsval \<Rightarrow> int" where
  "js_or_val a b =
     js_or (num_or_0 a) (num_or_0 b)"

definition module_this :: "(string \<times> jsval) list" where
  "module_this = []"

definition nl_consts :: "(string \<times> jsval) list" where
  "nl_consts =
    [(''AF_UNSPEC'', Num 0),
     (''NLM_F_REQUEST'', Num NLM_F_REQUEST),
     (''NLM_F_MULTI'', Num NLM_F_MULTI),
     (''NLM_F_ACK'', Num NLM_F_ACK),
     (''NLM_F_ECHO'', Num NLM_F_ECHO),
     (''NLM_F_DUMP_INTR'', Num 0x0010),
     (''NLM_F_ROOT'', Num NLM_F_ROOT),
     (''NLM_F_MATCH'', Num NLM_F_MATCH),
     (''NLM_F_ATOMIC'', Num 0x0400),
     (''NLM_F_DUMP'', Num (js_or_val (obj_get module_this ''NLM_F_ROOT'') (obj_get module_this ''NLM_F_MATCH''))),
     (''NLM_F_REPLACE'', Num NLM_F_REPLACE),
     (''NLM_F_EXCL'', Num NLM_F_EXCL),
     (''NLM_F_CREATE'', Num NLM_F_CREATE),
     (''NLM_F_APPEND'', Num NLM_F_APPEND),
     (''NLMSG_MIN_TYPE'', Num NLMSG_MIN_TYPE),
     (''NLMSG_NOOP'', Num 0x1),
     (''NLMSG_ERROR'', Num NLMSG_ERROR),
     (''NLMSG_DONE'', Num NLMSG_DONE),
     (''NLMSG_OVERRUN'', Num 0x4),
     (''NLMSG_MAX_TYPE'', Num NLMSG_MAX_TYPE),
     (''NETLINK_ROUTE'', Num 0),
     (''NETLINK_UNUSED'', Num 1),
     (''NETLINK_USERSOCK'', Num 2),
     (''NETLINK_FIREWALL'', Num 3),
     (''NETLINK_SOCK_DIAG'', Num 4),
     (''NETLINK_NFLOG'', Num 5),
     (''NETLINK_XFRM'', Num 6),
     (''NETLINK_SELINUX'', Num 7),
     (''NETLINK_ISCSI'', Num 8),
     (''NETLINK_AUDIT'', Num 9),
     (''NETLINK_FIB_LOOKUP'', Num 10),
     (''NETLINK_CONNECTOR'', Num 11),
     (''NETLINK_NETFILTER'', Num 12),
     (''NETLINK_IP6_FW'', Num 13),
     (''NETLINK_DNRTMSG'', Num 14),
     (''NETLINK_KOBJECT_UEVENT'', Num 15),
     (''NETLINK_GENERIC'', Num 16),
     (''NETLINK_SCSITRANSPORT'', Num 18),
     (''NETLINK_ECRYPTFS'', Num 19),
     (''NETLINK_RDMA'', Num 20),
     (''NETLINK_CRYPTO'', Num 21),
     (''NETLINK_ADD_MEMBERSHIP'', Num 1),
     (''NETLINK_DROP_MEMBERSHIP'', Num 2),
     (''NETLINK_PKTINFO'', Num 3),
     (''NETLINK_BROADCAST_ERROR'', Num 4),
     (''NETLINK_NO_ENOBUFS'', Num 5),
     (''NETLINK_RX_RING'', Num 6),
     (''NETLINK_TX_RING'', Num 7),
     (''NL_MMAP_STATUS_UNUSED'', Num 0),
     (''NL_MMAP_STATUS_RESERVED'', Num 1),
     (''NL_MMAP_STATUS_VALID'', Num 2),
     (''NL_MMAP_STATUS_COPY'', Num 3),
     (''NL_MMAP_STATUS_SKIP'', Num 4),
     (''NETLINK_UNCONNECTED'', Num 0),
     (''NETLINK_CONNECTED'', Num 1)]"

section \<open>The header\<close>

definition nlmsghdr_fmt :: string where
  "nlmsghdr_fmt = ''<I(_len)H(_type)H(_flags)I(_seq)I(_pid)''"

definition error_nlmsghdr_fmt :: string where
  "error_nlmsghdr_fmt = ''<i(_error)I(_len)H(_type)H(_flags)I(_seq)I(_pid)''"

definition buildHdr :: "meta run" where
  "buildHdr =
     run_bind (metaObject nlmsghdr_fmt False) (\<lambda>o1. Return
       (meta_set ''_pid'' (Num 0) (meta_set ''_seq'' (Num 0)
         (meta_set ''_flags'' (Num NLM_F_REQUEST) (meta_set ''_type'' (Num 0)
           (meta_set ''_len'' (Num 0) o1))))))"

definition parseErrorHdr :: "bytes \<Rightarrow> jsval run" where
  "parseErrorHdr b = unpack error_nlmsghdr_fmt b 0"

text \<open>The builder of connector messages of this module names a format that is declared nowhere.\<close>

definition nl_buildCnMsg :: "meta run" where
  "nl_buildCnMsg = Throw (ReferenceError ''cn_msg_fmt'')"

text \<open>The layout of the formats, evaluated once.\<close>

definition int_field :: "ftype \<Rightarrow> string \<Rightarrow> fmt_elem" where
  "int_field t k = \<lparr>fe_count = 1, fe_type = t, fe_key = Some k\<rparr>"

lemma scan_nlmsghdr:
  "scan_fmt nlmsghdr_fmt =
     [int_field FI ''_len'', int_field FH ''_type'', int_field FH ''_flags'',
      int_field FI ''_seq'', int_field FI ''_pid'']"
  by code_simp

lemma scan_error_nlmsghdr:
  "scan_fmt error_nlmsghdr_fmt =
     [int_field Fi ''_error'', int_field FI ''_len'', int_field FH ''_type'', int_field FH ''_flags'',
      int_field FI ''_seq'', int_field FI ''_pid'']"
  by code_simp

lemma int_field_sel [simp]:
  "fe_count (int_field t k) = 1" "fe_type (int_field t k) = t" "fe_key (int_field t k) = Some k"
  by (simp_all add: int_field_def)

lemma fmt_be_nl [simp]: "fmt_be nlmsghdr_fmt = False" "fmt_be error_nlmsghdr_fmt = False"
  by (simp_all add: fmt_be_def nlmsghdr_fmt_def error_nlmsghdr_fmt_def)

text \<open>A netlink header object: five numeric fields.\<close>

definition is_hdr :: "meta \<Rightarrow> bool" where
  "is_hdr m \<longleftrightarrow> m_format m = nlmsghdr_fmt \<and> m_length m = 16
     \<and> m_keylist m = [''_len'', ''_type'', ''_flags'', ''_seq'', ''_pid''] \<and> all_nums m"

lemma buildHdr_value:
  "\<exists>h. buildHdr = Return h \<and> is_hdr h \<and> meta_get h ''_type'' = Num 0
     \<and> meta_get h ''_flags'' = Num NLM_F_REQUEST \<and> meta_get h ''_seq'' = Num 0 \<and> meta_get h ''_pid'' = Num 0"
  by (simp add: buildHdr_def metaObject_def scan_nlmsghdr calcLength_def toValArray_def map_filter_def
      is_hdr_def all_nums_def num_of_def)

section \<open>Framing\<close>

text \<open>
  The two \<open>debug\<close> lines call \<open>toString(16)\<close> on the type and the flags, which throws on
  \<open>undefined\<close> or \<open>null\<close>.
\<close>

definition debug_hdr :: "meta \<Rightarrow> unit run" where
  "debug_hdr h =
     (if meta_get h ''_type'' \<in> {Undef, Null} \<or> meta_get h ''_flags'' \<in> {Undef, Null} then Throw TypeError
      else Return ())"

text \<open>
  The common body of \<open>sendNetlinkCommand\<close> and \<open>addNetlinkMessageToReq\<close>: sum the lengths, set
  \<open>_len\<close>, pack the header in front and concatenate. An element that is not a buffer (the
  \<open>false\<close> of a failed \<open>pack()\<close>) has no length and is rejected by \<open>Buffer.concat\<close>.
\<close>

definition frame_message :: "meta \<Rightarrow> bytes option list \<Rightarrow> bytes run" where
  "frame_message h bufs =
     run_bind (debug_hdr h) (\<lambda>_.
     run_bind (all_buffers bufs) (\<lambda>bs.
       let len = sum_list (map length bs);
           total_len = m_length h + len
       in run_bind (meta_pack (meta_set ''_len'' (Num (int total_len)) h)) (\<lambda>p.
            buffer_concat (p # bufs) total_len)))"

text \<open>A message request is the list of messages added to it.\<close>

type_synonym msgreq = "bytes list"

definition addNetlinkMessageToReq :: "msgreq \<Rightarrow> meta \<Rightarrow> bytes option list \<Rightarrow> msgreq run" where
  "addNetlinkMessageToReq msgreq h bufs =
     run_bind (frame_message h bufs) (\<lambda>m. Return (msgreq @ [m]))"

text \<open>\<open>sendNetlinkCommand\<close> makes a request of the one message and hands it to the socket.\<close>

definition sendNetlinkCommand :: "meta \<Rightarrow> bytes option list \<Rightarrow> msgreq run" where
  "sendNetlinkCommand h bufs = run_bind (frame_message h bufs) (\<lambda>m. Return [m])"

definition hdr_bytes :: "int \<Rightarrow> int \<Rightarrow> int \<Rightarrow> int \<Rightarrow> int \<Rightarrow> bytes" where
  "hdr_bytes len t f s p =
     le_bytes 4 (clamp_el (unsigned_el 4) len) @ le_bytes 2 (clamp_el (unsigned_el 2) t)
     @ le_bytes 2 (clamp_el (unsigned_el 2) f) @ le_bytes 4 (clamp_el (unsigned_el 4) s)
     @ le_bytes 4 (clamp_el (unsigned_el 4) p)"

lemma length_hdr_bytes [simp]: "length (hdr_bytes len t f s p) = 16"
  by (simp add: hdr_bytes_def)

lemma EnInt_le [simp]:
  "EnInt False (unsigned_el 4) v = le_bytes 4 (clamp_el (unsigned_el 4) v)"
  "EnInt False (unsigned_el 2) v = le_bytes 2 (clamp_el (unsigned_el 2) v)"
  "EnInt False (unsigned_el (Suc 0)) v = le_bytes 1 (clamp_el (unsigned_el 1) v)"
  "EnInt False (signed_el 4) v = le_bytes 4 (clamp_el (signed_el 4) v)"
  using EnInt_eq [of FI "unsigned_el 4" False v] EnInt_eq [of FH "unsigned_el 2" False v]
    EnInt_eq [of FB "unsigned_el 1" False v] EnInt_eq [of Fi "signed_el 4" False v]
  by (simp_all add: unsigned_el_def signed_el_def)

lemma int_el_of_simps [simp]:
  "int_el_of FI = unsigned_el 4" "int_el_of FL = unsigned_el 4" "int_el_of FH = unsigned_el 2"
  "int_el_of FB = unsigned_el 1" "int_el_of Fi = signed_el 4"
  by (simp_all add: int_el_of_def)

lemma meta_pack_hdr:
  assumes "is_hdr h" "meta_get h ''_len'' = Num len" "meta_get h ''_type'' = Num t"
    "meta_get h ''_flags'' = Num f" "meta_get h ''_seq'' = Num s" "meta_get h ''_pid'' = Num p"
  shows "meta_pack h = Return (Some (hdr_bytes len t f s p))"
proof -
  have "meta_nums h = [len, t, f, s, p]" using assms by (simp add: is_hdr_def meta_nums_def num_of_def)
  moreover have "meta_pack h = Return (Some (enc_elems (fmt_be (m_format h)) (scan_fmt (m_format h)) (meta_nums h)))"
    using assms(1) by (intro meta_pack_nums) (simp_all add: is_hdr_def scan_nlmsghdr)
  moreover have "m_format h = nlmsghdr_fmt" using assms(1) by (simp add: is_hdr_def)
  ultimately show ?thesis by (simp add: scan_nlmsghdr hdr_bytes_def)
qed

lemma is_hdr_set: "is_hdr h \<Longrightarrow> is_hdr (meta_set k (Num v) h)"
  by (simp add: is_hdr_def all_nums_set)

lemma frame_message_eq:
  assumes "is_hdr h" "meta_get h ''_type'' = Num t"
    "meta_get h ''_flags'' = Num f" "meta_get h ''_seq'' = Num s" "meta_get h ''_pid'' = Num p"
  shows "frame_message h (map Some bs)
    = Return (hdr_bytes (16 + int (length (concat bs))) t f s p @ concat bs)"
proof -
  have l: "m_length h = 16" using assms(1) by (simp add: is_hdr_def)
  have "meta_pack (meta_set ''_len'' (Num (16 + int (length (concat bs)))) h)
      = Return (Some (hdr_bytes (16 + int (length (concat bs))) t f s p))"
    by (rule meta_pack_hdr) (simp_all add: assms is_hdr_set)
  moreover have "all_buffers (Some x # map Some bs) = Return (x # bs)" for x by simp
  moreover have "fit (16 + length (concat bs)) (hdr_bytes a t f s p @ concat bs) = hdr_bytes a t f s p @ concat bs" for a
    by (simp add: fit_def)
  ultimately show ?thesis using assms
    by (simp add: frame_message_def debug_hdr_def buffer_concat_def Let_def l length_concat)
qed

text \<open>
  Framing: for a header with numeric fields and payload buffers of less than \<open>2 ^ 32 - 16\<close>
  bytes altogether, the message is the sixteen header bytes followed by the payload unchanged, and
  the length word at its start is the length of the whole message.
\<close>

theorem frame_message_length_field:
  assumes "is_hdr h" "meta_get h ''_type'' = Num t" "meta_get h ''_flags'' = Num f"
    "meta_get h ''_seq'' = Num s" "meta_get h ''_pid'' = Num p"
    and "16 + length (concat bs) < 2 ^ 32"
  shows "\<exists>m. frame_message h (map Some bs) = Return m \<and> readUInt32LE m 0 = Return (int (length m))
    \<and> drop 16 m = concat bs"
proof -
  let ?n = "16 + int (length (concat bs))"
  have "int (16 + length (concat bs)) < int (2 ^ 32)" using assms(6) by (simp only: of_nat_less_iff)
  then have n: "0 \<le> ?n" "?n < 2 ^ 32" by simp_all
  then have "clamp_el (unsigned_el 4) ?n = ?n" by (simp add: clamp_el_def unsigned_el_def)
  then have "readUInt32LE (hdr_bytes ?n t f s p @ concat bs) 0 = Return ?n"
    using readUInt32LE_at [of "[]" 0 ?n] n by (simp add: hdr_bytes_def)
  then show ?thesis using frame_message_eq [OF assms(1-5), of bs] by simp
qed

lemma frame_message_length_field_witness:
  "\<exists>h m. buildHdr = Return h \<and> frame_message h (map Some [[1, 2], [3]]) = Return m
    \<and> readUInt32LE m 0 = Return (int (length m)) \<and> drop 16 m = concat [[1, 2], [3]]"
proof -
  obtain h where h: "buildHdr = Return h" "is_hdr h" "meta_get h ''_type'' = Num 0"
      "meta_get h ''_flags'' = Num NLM_F_REQUEST" "meta_get h ''_seq'' = Num 0" "meta_get h ''_pid'' = Num 0"
    using buildHdr_value by blast
  show ?thesis using frame_message_length_field [OF h(2-6), of "[[1, 2], [3]]"] h(1) by auto
qed

lemma frame_message_not_buffer:
  assumes "None \<in> set bufs" "meta_get h ''_type'' = Num t" "meta_get h ''_flags'' = Num f"
  shows "frame_message h bufs = Throw TypeError"
proof -
  have "all_buffers bufs = Throw TypeError" using assms(1)
  proof (induction bufs)
    case (Cons b bs)
    then show ?case by (cases b) auto
  qed simp
  with assms show ?thesis by (simp add: frame_message_def debug_hdr_def)
qed

end
