(* ===== verification/AttrLoop.thy ===== *)
theory AttrLoop
  imports NodeBuffer
begin

text \<open>
  The loop \<open>while(index < total_len) { ... }\<close> with which both \<open>nl/rtnetlink.js\<close> and
  \<open>nl/nfnetlink.js\<close> walk over the attributes of a message. The body gets the index and the object
  built so far and gives the next index and object, or throws. The loop runs on fuel; running out is
  \<open>Diverge\<close>, and the two locales say what the bodies must satisfy for that reading to be
  right and for the walk to decode a sequence of encoded attributes.
\<close>

fun attr_loop :: "(nat \<Rightarrow> 's \<Rightarrow> (nat \<times> 's) run) \<Rightarrow> nat \<Rightarrow> int \<Rightarrow> nat \<Rightarrow> 's \<Rightarrow> 's run" where
  "attr_loop body 0 totlen index ret = Diverge"
| "attr_loop body (Suc fuel) totlen index ret =
     (if int index < totlen then
        run_bind (body index ret) (\<lambda>(index', ret'). attr_loop body fuel totlen index' ret')
      else Return ret)"

lemma attr_loop_mono:
  "attr_loop body fuel totlen i s \<noteq> Diverge \<Longrightarrow> fuel \<le> fuel' \<Longrightarrow>
     attr_loop body fuel' totlen i s = attr_loop body fuel totlen i s"
proof (induction fuel arbitrary: i s fuel')
  case (Suc fuel)
  then obtain f where f: "fuel' = Suc f" by (cases fuel') auto
  then have le: "fuel \<le> f" using Suc.prems(2) by simp
  show ?case
  proof (cases "body i s")
    case (Return x)
    then show ?thesis using Suc.IH [of "fst x" "snd x" f] Suc.prems(1) le
      by (simp add: f split: prod.splits if_splits)
  qed (simp_all add: f)
qed simp

section \<open>Fuel\<close>

text \<open>The indices a body visits from an index on.\<close>

inductive walk :: "(nat \<Rightarrow> 's \<Rightarrow> (nat \<times> 's) run) \<Rightarrow> nat \<Rightarrow> nat \<Rightarrow> bool" for body where
  walk_refl: "walk body k k"
| walk_step: "body i s = Return (j, s') \<Longrightarrow> walk body j k \<Longrightarrow> walk body i k"

text \<open>
  A body reads an attribute header inside a buffer of \<open>bufsize\<close> bytes and never moves backwards;
  where it moves does not depend on the object built so far. Then running out of
  \<open>bufsize + 1\<close> steps means that the loop has reached an index it never leaves.
\<close>

locale attr_body =
  fixes body :: "nat \<Rightarrow> 's \<Rightarrow> (nat \<times> 's) run"
    and bufsize :: nat
  assumes body_bound: "body i s = Return (j, s') \<Longrightarrow> i < bufsize \<and> i \<le> j"
    and body_index: "body i s = Return (j, s') \<Longrightarrow> \<exists>s''. body i t = Return (j, s'')"
    and body_no_diverge: "body i s \<noteq> Diverge"
begin

lemma stuck_diverges:
  assumes "body i s = Return (i, s')" and "int i < totlen"
  shows "attr_loop body fuel totlen i t = Diverge"
proof (induction fuel arbitrary: t)
  case (Suc fuel)
  obtain t' where "body i t = Return (i, t')" using body_index [OF assms(1)] by blast
  with Suc assms(2) show ?case by simp
qed simp

lemma enough_fuel:
  assumes "bufsize < fuel + i" and "0 < fuel" and "attr_loop body fuel totlen i s = Diverge"
  shows "attr_loop body fuel' totlen i s = Diverge"
  using assms
proof (induction fuel arbitrary: i s fuel')
  case (Suc fuel)
  from Suc.prems(3) have lt: "int i < totlen" by (simp split: if_splits)
  from Suc.prems(3) lt body_no_diverge obtain j s' where b: "body i s = Return (j, s')"
    by (cases "body i s") auto
  from body_bound [OF b] have ij: "i < bufsize" "i \<le> j" by auto
  show ?case
  proof (cases "j = i")
    case True
    with b lt show ?thesis by (intro stuck_diverges) auto
  next
    case False
    with ij Suc.prems have "bufsize < fuel + j" "0 < fuel" by auto
    moreover have "attr_loop body fuel totlen j s' = Diverge" using Suc.prems(3) b lt by simp
    ultimately have "attr_loop body n totlen j s' = Diverge" for n by (rule Suc.IH)
    with b lt show ?thesis by (cases fuel') simp_all
  qed
qed simp

text \<open>So the outcome with \<open>bufsize + 1\<close> steps is the outcome of the loop.\<close>

lemma fuel_adequate:
  assumes "bufsize < fuel"
  shows "attr_loop body fuel totlen i s = attr_loop body (Suc bufsize) totlen i s"
proof (cases "attr_loop body (Suc bufsize) totlen i s = Diverge")
  case True
  then show ?thesis using enough_fuel [of "Suc bufsize" i totlen s fuel] by simp
next
  case False
  with assms show ?thesis by (intro attr_loop_mono) auto
qed

text \<open>Conversely, a loop that does not end has reached an index at which the body stays.\<close>

lemma diverge_stuck:
  assumes "attr_loop body fuel totlen i s = Diverge" "bufsize < fuel + i" "0 < fuel"
  shows "\<exists>k t t'. walk body i k \<and> int k < totlen \<and> body k t = Return (k, t')"
  using assms
proof (induction fuel arbitrary: i s)
  case (Suc fuel)
  from Suc.prems(1) have lt: "int i < totlen" by (simp split: if_splits)
  from Suc.prems(1) lt body_no_diverge obtain j s' where b: "body i s = Return (j, s')"
    by (cases "body i s") auto
  from body_bound [OF b] have ij: "i < bufsize" "i \<le> j" by auto
  show ?case
  proof (cases "j = i")
    case True
    with b lt show ?thesis using walk_refl [of body i] by blast
  next
    case False
    with ij Suc.prems have "bufsize < fuel + j" "0 < fuel" by auto
    moreover have "attr_loop body fuel totlen j s' = Diverge" using Suc.prems(1) b lt by simp
    ultimately obtain k t t' where "walk body j k" "int k < totlen" "body k t = Return (k, t')"
      using Suc.IH by blast
    with walk_step [of body i s j s', OF b] show ?thesis by blast
  qed
qed simp

lemma walk_le: "walk body i k \<Longrightarrow> i \<le> k"
proof (induction rule: walk.induct)
  case (walk_step i s j s' k)
  then have "i \<le> j" using body_bound by blast
  with walk_step.IH show ?case by simp
qed simp

lemma stuck_walk_diverges:
  assumes "walk body i k" "int k < totlen" "body k t = Return (k, t')"
  shows "attr_loop body fuel totlen i s = Diverge"
  using assms
proof (induction arbitrary: fuel s rule: walk.induct)
  case (walk_refl k)
  then show ?case by (intro stuck_diverges) auto
next
  case (walk_step i u j u' k)
  obtain s' where b: "body i s = Return (j, s')" using body_index [OF walk_step.hyps(1)] by blast
  with body_bound have "i \<le> j" by blast
  also have "j \<le> k" using walk_le [OF walk_step.hyps(2)] .
  finally have "int i < totlen" using walk_step.prems(1) by simp
  with b walk_step.IH [OF walk_step.prems] show ?case by (cases fuel) simp_all
qed

lemma diverge_iff:
  assumes "bufsize < fuel + i" "0 < fuel"
  shows "attr_loop body fuel totlen i s = Diverge
    \<longleftrightarrow> (\<exists>k t t'. walk body i k \<and> int k < totlen \<and> body k t = Return (k, t'))"
  using diverge_stuck [OF _ assms] stuck_walk_diverges by blast

end

section \<open>Decoding a sequence of attributes\<close>

text \<open>
  The law of one step: at the start of the encoding of \<open>a\<close> the body consumes exactly that encoding
  and updates the object; what it stores may depend on whether the attribute is the last one of the
  buffer. Then the loop over a concatenation of encodings folds the update over the attributes.
\<close>

fun fold_last :: "(bool \<Rightarrow> 'a \<Rightarrow> 's \<Rightarrow> 's) \<Rightarrow> 'a list \<Rightarrow> 's \<Rightarrow> 's" where
  "fold_last upd [] s = s"
| "fold_last upd (a # as) s = fold_last upd as (upd (as = []) a s)"

lemma fold_last_const: "fold_last (\<lambda>_. upd) as s = fold upd as s"
  by (induction as arbitrary: s) simp_all

locale attr_stream =
  fixes body :: "bytes \<Rightarrow> nat \<Rightarrow> 's \<Rightarrow> (nat \<times> 's) run"
    and enc :: "'a \<Rightarrow> bytes"
    and upd :: "bool \<Rightarrow> 'a \<Rightarrow> 's \<Rightarrow> 's"
    and valid :: "'a \<Rightarrow> bool"
  assumes enc_nonempty: "valid a \<Longrightarrow> enc a \<noteq> []"
    and step: "valid a \<Longrightarrow>
      body (pre @ enc a @ post) (length pre) s = Return (length pre + length (enc a), upd (post = []) a s)"
begin

lemma concat_enc_Nil_iff: "list_all valid as \<Longrightarrow> concat (map enc as) = [] \<longleftrightarrow> as = []"
  using enc_nonempty by (cases as) auto

lemma decode:
  assumes "list_all valid as" and "length as < fuel"
  shows "attr_loop (body (pre @ concat (map enc as))) fuel (int (length (pre @ concat (map enc as)))) (length pre) s
    = Return (fold_last upd as s)"
  using assms
proof (induction as arbitrary: pre fuel s)
  case Nil
  then show ?case by (cases fuel) simp_all
next
  case (Cons a as)
  then obtain f where f: "fuel = Suc f" and len: "length as < f" by (cases fuel) auto
  have v: "valid a" "list_all valid as" using Cons.prems by auto
  have "body (pre @ concat (map enc (a # as))) (length pre) s
      = Return (length (pre @ enc a), upd (as = []) a s)"
    using step [OF v(1), of pre "concat (map enc as)" s] concat_enc_Nil_iff [OF v(2)] by simp
  moreover have "attr_loop (body ((pre @ enc a) @ concat (map enc as))) f
        (int (length ((pre @ enc a) @ concat (map enc as)))) (length (pre @ enc a)) (upd (as = []) a s)
      = Return (fold_last upd as (upd (as = []) a s))"
    using Cons.IH [OF v(2) len, of "pre @ enc a"] by blast
  moreover have "0 < int (length (enc a)) + int (length (concat (map enc as)))"
    using enc_nonempty [OF v(1)] by (simp add: add_pos_nonneg)
  ultimately show ?case by (simp add: f)
qed

end

end
