(* ===== verification/RtNetlink.thy ===== *)
theory RtNetlink
  imports Netlink AttrLoop
begin

text \<open>
  \<open>nl/rtnetlink.js\<close>: the rtnetlink tables and constants, the payload objects of the four
  message families (links, addresses, routes, neighbours), the encoder \<open>buildRtattrBuf\<close> of one
  attribute and the decoder \<open>parseRtattributes\<close> of a whole message, with the theorem that the
  decoder reads back what the encoder wrote.
\<close>

section \<open>Tables\<close>

text \<open>
  Attribute numbers and the names under which the decoder stores them, the payload sizes it skips
  and the names of the message types, in source order. The object \<open>rt\<close> itself is the
  concatenation of its groups of numeric constants.
\<close>

definition link_info_attr_name_map :: "string list" where
  "link_info_attr_name_map =
    [''unspec'', ''address'', ''broadcast'', ''ifname'', ''mtu'', ''link'', ''qdisc'', ''stats'',
     ''cost'', ''priority'', ''master'', ''wireless'', ''protinfo'', ''txqlen'', ''map'',
     ''weight'', ''operstate'', ''linkmode'', ''linkinfo'', ''net_ns_pid'', ''ifalias'',
     ''num_vf'', ''vfinfo_list'', ''stats64'', ''vf_ports'', ''port_self'', ''af_spec'', ''group'',
     ''net_ns_fd'', ''ext_mask'', ''promiscuity'', ''num_tx_queues'', ''num_rx_queues'',
     ''carrier'', ''phys_port_id'', ''carrier_changes'']"

definition link_attributes :: "(string \<times> int) list" where
  "link_attributes =
    [(''IFLA_UNSPEC'', 0), (''IFLA_ADDRESS'', 1), (''IFLA_BROADCAST'', 2), (''IFLA_IFNAME'', 3),
     (''IFLA_MTU'', 4), (''IFLA_LINK'', 5), (''IFLA_QDISC'', 6), (''IFLA_STATS'', 7),
     (''IFLA_COST'', 8), (''IFLA_PRIORITY'', 9), (''IFLA_MASTER'', 10), (''IFLA_WIRELESS'', 11),
     (''IFLA_PROTINFO'', 12), (''IFLA_TXQLEN'', 13), (''IFLA_MAP'', 14), (''IFLA_WEIGHT'', 15),
     (''IFLA_OPERSTATE'', 16), (''IFLA_LINKMODE'', 17), (''IFLA_LINKINFO'', 18),
     (''IFLA_NET_NS_PID'', 19), (''IFLA_IFALIAS'', 20), (''IFLA_NUM_VF'', 21),
     (''IFLA_VFINFO_LIST'', 22), (''IFLA_STATS64'', 23), (''IFLA_VF_PORTS'', 24),
     (''IFLA_PORT_SELF'', 25), (''IFLA_AF_SPEC'', 26), (''IFLA_GROUP'', 27),
     (''IFLA_NET_NS_FD'', 28), (''IFLA_EXT_MASK'', 29), (''IFLA_PROMISCUITY'', 30),
     (''IFLA_NUM_TX_QUEUES'', 31), (''IFLA_NUM_RX_QUEUES'', 32), (''IFLA_CARRIER'', 33),
     (''IFLA_PHYS_PORT_ID'', 34), (''IFLA_CARRIER_CHANGES'', 35)]"

definition addr_info_attr_name_map :: "string list" where
  "addr_info_attr_name_map =
    [''unspec'', ''address'', ''local'', ''label'', ''broadcast'', ''anycast'', ''cacheinfo'',
     ''multicast'', ''flags'']"

definition addr_attributes :: "(string \<times> int) list" where
  "addr_attributes =
    [(''IFA_UNSPEC'', 0), (''IFA_ADDRESS'', 1), (''IFA_LOCAL'', 2), (''IFA_LABEL'', 3),
     (''IFA_BROADCAST'', 4), (''IFA_ANYCAST'', 5), (''IFA_CACHEINFO'', 6), (''IFA_MULTICAST'', 7),
     (''IFA_FLAGS'', 8)]"

definition route_info_attr_name_map :: "string list" where
  "route_info_attr_name_map =
    [''unspec'', ''dst'', ''src'', ''iif'', ''oif'', ''gateway'', ''priority'', ''prefsrc'',
     ''metrics'', ''multipath'', ''protoinfo'', ''flow'', ''cacheinfo'', ''session'', ''mp_algo'',
     ''table'', ''mark'', ''mfc_stats'']"

definition route_attributes :: "(string \<times> int) list" where
  "route_attributes =
    [(''RTA_UNSPEC'', 0), (''RTA_DST'', 1), (''RTA_SRC'', 2), (''RTA_IIF'', 3), (''RTA_OIF'', 4),
     (''RTA_GATEWAY'', 5), (''RTA_PRIORITY'', 6), (''RTA_PREFSRC'', 7), (''RTA_METRICS'', 8),
     (''RTA_MULTIPATH'', 9), (''RTA_PROTOINFO'', 10), (''RTA_FLOW'', 11), (''RTA_CACHEINFO'', 12),
     (''RTA_SESSION'', 13), (''RTA_MP_ALGO'', 14), (''RTA_TABLE'', 15), (''RTA_MARK'', 16),
     (''RTA_MFC_STATS'', 17)]"

definition neigh_info_attr_name_map :: "string list" where
  "neigh_info_attr_name_map =
    [''unspec'', ''dst'', ''lladdr'', ''cacheinfo'', ''probes'', ''vlan'', ''port'', ''vni'',
     ''ifindex'', ''master'']"

definition neigh_attributes :: "(string \<times> int) list" where
  "neigh_attributes =
    [(''NDA_UNSPEC'', 0), (''NDA_DST'', 1), (''NDA_LLADDR'', 2), (''NDA_CACHEINFO'', 3),
     (''NDA_PROBES'', 4), (''NDA_VLAN'', 5), (''NDA_PORT'', 6), (''NDA_VNI'', 7),
     (''NDA_IFINDEX'', 8), (''NDA_MASTER'', 9)]"

definition payload_sizes :: "nat list" where
  "payload_sizes =
    [16, 16, 16, 16, 8, 8, 8, 12, 12, 12, 12, 12, 12, 8, 8, 8, 8, 8, 8, 8, 8, 8, 8, 8, 8, 8, 8, 8,
     8, 8, 8, 8, 8, 8, 8, 8, 8, 8, 8, 8, 8, 8, 8, 8, 8]"

definition rtm_types_name_map :: "string list" where
  "rtm_types_name_map =
    [''newLink'', ''delLink'', ''getLink'', ''setLink'', ''newAddress'', ''delAddress'',
     ''getAddress'', ''undefined'', ''newRoute'', ''delRoute'', ''getRoute'', ''undefined'',
     ''newNeighbor'', ''delNeighbor'', ''getNeighbor'', ''undefined'', ''newRule'', ''delRule'',
     ''getRule'', ''undefined'', ''RTM_NEWQDISC'', ''RTM_DELQDISC'', ''RTM_GETQDISC'',
     ''undefined'', ''RTM_NEWTCLASS'', ''RTM_DELTCLASS'', ''RTM_GETTCLASS'', ''undefined'',
     ''RTM_NEWTFILTER'', ''RTM_DELTFILTER'', ''RTM_GETTFILTER'', ''undefined'', ''RTM_NEWACTION'',
     ''RTM_DELACTION'', ''RTM_GETACTION'', ''undefined'', ''RTM_NEWPREFIX'', ''undefined'',
     ''undefined'', ''undefined'', ''undefined'', ''undefined'', ''RTM_GETMULTICAST'',
     ''undefined'', ''undefined'', ''undefined'', ''RTM_GETANYCAST'', ''undefined'',
     ''RTM_NEWNEIGHTBL'', ''undefined'', ''RTM_GETNEIGHTBL'', ''RTM_SETNEIGHTBL'',
     ''RTM_NEWNDUSEROPT'', ''undefined'', ''undefined'', ''undefined'', ''RTM_NEWADDRLABEL'',
     ''RTM_DELADDRLABEL'', ''RTM_GETADDRLABEL'', ''undefined'', ''undefined'', ''undefined'',
     ''RTM_GETDCB'', ''RTM_SETDCB'', ''RTM_NEWNETCONF'', ''undefined'', ''RTM_GETNETCONF'',
     ''undefined'', ''RTM_NEWMDB'', ''RTM_DELMDB'', ''RTM_GETMDB'']"

definition rt_device_consts :: "(string \<times> jsval) list" where
  "rt_device_consts =
    [(''AF_INET6'', Num 10), (''AF_INET'', Num 2), (''NTF_USE'', Num 1), (''NTF_PROXY'', Num 8),
     (''NTF_ROUTER'', Num 128), (''NTF_SELF'', Num 2), (''NTF_MASTER'', Num 4),
     (''NUD_INCOMPLETE'', Num 1), (''NUD_REACHABLE'', Num 2), (''NUD_STALE'', Num 4),
     (''NUD_DELAY'', Num 8), (''NUD_PROBE'', Num 16), (''NUD_FAILED'', Num 32),
     (''NUD_NOARP'', Num 64), (''NUD_PERMANENT'', Num 128), (''NUD_NONE'', Num 0),
     (''ARPHRD_ETHER'', Num 2), (''IFF_RUNNING'', Num 64), (''IFF_CHANGE'', Num 4294967295),
     (''IFLA_ADDRESS'', Num 1), (''IFLA_EXT_MASK'', Num 29), (''RTEXT_FILTER_VF'', Num 1)]"

definition rt_route_consts :: "(string \<times> jsval) list" where
  "rt_route_consts =
    [(''RTN_UNSPEC'', Num 0), (''RTN_UNICAST'', Num 1), (''RTN_LOCAL'', Num 2),
     (''RTN_BROADCAST'', Num 3), (''RTN_ANYCAST'', Num 4), (''RTN_MULTICAST'', Num 5),
     (''RTN_BLACKHOLE'', Num 6), (''RTN_UNREACHABLE'', Num 7), (''RTN_PROHIBIT'', Num 8),
     (''RTN_THROW'', Num 9), (''RTN_NAT'', Num 10), (''RTN_XRESOLVE'', Num 11),
     (''RT_SCOPE_UNIVERSE'', Num 0), (''RT_SCOPE_SITE'', Num 200), (''RT_SCOPE_LINK'', Num 253),
     (''RT_SCOPE_HOST'', Num 254), (''RT_SCOPE_NOWHERE'', Num 255)]"

definition rt_group_consts :: "(string \<times> jsval) list" where
  "rt_group_consts =
    [(''RTN_GRP_NONE'', Num 0), (''RTN_GRP_LINK'', Num 1), (''RTN_GRP_NOTIFY'', Num 2),
     (''RTN_GRP_NEIGH'', Num 3), (''RTN_GRP_TC'', Num 4), (''RTN_GRP_IPV4_IFADDR'', Num 5),
     (''RTN_GRP_IPV4_MROUTE'', Num 6), (''RTN_GRP_IPV4_ROUTE'', Num 7),
     (''RTN_GRP_IPV4_RULE'', Num 8), (''RTN_GRP_IPV6_IFADDR'', Num 9),
     (''RTN_GRP_IPV6_MROUTE'', Num 10), (''RTN_GRP_IPV6_ROUTE'', Num 11),
     (''RTN_GRP_IPV6_IFINFO'', Num 12), (''RTN_GRP_DECnet_IFADDR'', Num 13),
     (''RTN_GRP_NOP2'', Num 14), (''RTN_GRP_DECnet_ROUTE'', Num 15),
     (''RTN_GRP_DECnet_RULE'', Num 16), (''RTN_GRP_NOP4'', Num 17),
     (''RTN_GRP_IPV6_PREFIX'', Num 18), (''RTN_GRP_IPV6_RULE'', Num 19),
     (''RTN_GRP_ND_USEROPT'', Num 20), (''RTN_GRP_PHONET_IFADDR'', Num 21),
     (''RTN_GRP_PHONET_ROUTE'', Num 22), (''RTN_GRP_DCB'', Num 23),
     (''RTN_GRP_IPV4_NETCONF'', Num 24), (''RTN_GRP_IPV6_NETCONF'', Num 25),
     (''RTN_GRP_MDB'', Num 26)]"

definition rt_message_consts :: "(string \<times> jsval) list" where
  "rt_message_consts =
    [(''NLMSG_MULTI'', Num 2), (''NLMSG_DONE'', Num 3), (''RTM_BASE'', Num 16),
     (''RTM_NEWLINK'', Num 16), (''RTM_DELLINK'', Num 17), (''RTM_GETLINK'', Num 18),
     (''RTM_SETLINK'', Num 19), (''RTM_NEWADDR'', Num 20), (''RTM_DELADDR'', Num 21),
     (''RTM_GETADDR'', Num 22), (''RTM_NEWROUTE'', Num 24), (''RTM_DELROUTE'', Num 25),
     (''RTM_GETROUTE'', Num 26), (''RTM_NEWNEIGH'', Num 28), (''RTM_DELNEIGH'', Num 29),
     (''RTM_GETNEIGH'', Num 30), (''RTM_NEWRULE'', Num 32), (''RTM_DELRULE'', Num 33),
     (''RTM_GETRULE'', Num 34), (''RTM_NEWQDISC'', Num 36), (''RTM_DELQDISC'', Num 37),
     (''RTM_GETQDISC'', Num 38), (''RTM_NEWTCLASS'', Num 40), (''RTM_DELTCLASS'', Num 41),
     (''RTM_GETTCLASS'', Num 42), (''RTM_NEWTFILTER'', Num 44), (''RTM_DELTFILTER'', Num 45),
     (''RTM_GETTFILTER'', Num 46), (''RTM_NEWACTION'', Num 48), (''RTM_DELACTION'', Num 49),
     (''RTM_GETACTION'', Num 50), (''RTM_NEWPREFIX'', Num 52), (''RTM_GETMULTICAST'', Num 58),
     (''RTM_GETANYCAST'', Num 62), (''RTM_NEWNEIGHTBL'', Num 64), (''RTM_GETNEIGHTBL'', Num 66),
     (''RTM_SETNEIGHTBL'', Num 67), (''RTM_NEWNDUSEROPT'', Num 68), (''RTM_NEWADDRLABEL'', Num 72),
     (''RTM_DELADDRLABEL'', Num 73), (''RTM_GETADDRLABEL'', Num 74), (''RTM_GETDCB'', Num 78),
     (''RTM_SETDCB'', Num 79), (''RTM_NEWNETCONF'', Num 80), (''RTM_GETNETCONF'', Num 82),
     (''RTM_NEWMDB'', Num 84), (''RTM_DELMDB'', Num 85), (''RTM_GETMDB'', Num 86)]"

definition rt_consts :: "(string \<times> jsval) list" where
  "rt_consts = rt_device_consts @ rt_route_consts @ rt_group_consts @ rt_message_consts"

abbreviation (input) "AF_INET6 \<equiv> (10 :: int)"
abbreviation (input) "AF_INET \<equiv> (2 :: int)"
abbreviation (input) "RTM_BASE \<equiv> (16 :: nat)"
abbreviation (input) "RTM_NEWLINK \<equiv> (16 :: int)"
abbreviation (input) "RTM_DELLINK \<equiv> (17 :: int)"
abbreviation (input) "RTM_GETLINK \<equiv> (18 :: int)"
abbreviation (input) "RTM_NEWADDR \<equiv> (20 :: int)"
abbreviation (input) "RTM_DELADDR \<equiv> (21 :: int)"
abbreviation (input) "RTM_GETADDR \<equiv> (22 :: int)"
abbreviation (input) "RTM_NEWROUTE \<equiv> (24 :: int)"
abbreviation (input) "RTM_DELROUTE \<equiv> (25 :: int)"
abbreviation (input) "RTM_GETROUTE \<equiv> (26 :: int)"
abbreviation (input) "RTM_NEWNEIGH \<equiv> (28 :: int)"
abbreviation (input) "RTM_DELNEIGH \<equiv> (29 :: int)"
abbreviation (input) "RTM_GETNEIGH \<equiv> (30 :: int)"

text \<open>
  \<open>make_group\<close> is \<open>1 << (group - 1)\<close>; for \<open>undefined\<close> the count is \<open>NaN\<close>, which a shift
  reads as 0.
\<close>

definition make_group :: "jsval \<Rightarrow> int" where
  "make_group g =
     (case g of Num n \<Rightarrow> js_shl 1 (nat ((n - 1) mod 32)) | _ \<Rightarrow> js_shl 1 0)"

text \<open>\<open>rt.rtm_types_name_map[type - this.RTM_BASE]\<close>, \<open>undefined\<close> outside the table.\<close>

definition getRtmTypeName :: "int \<Rightarrow> jsval" where
  "getRtmTypeName type =
     (let i = type - int RTM_BASE in
      if 0 \<le> i \<and> nat i < length rtm_types_name_map then Str (rtm_types_name_map ! nat i) else Undef)"

section \<open>Payload objects\<close>

definition ndmsg_fmt :: string where
  "ndmsg_fmt = ''<B(_family)B(_pad1)H(_pad2)L(_ifindex)H(_state)B(_flags)B(_type)''"

definition rtmsg_fmt :: string where
  "rtmsg_fmt = ''<B(_family)B(_dst_len)B(_src_len)B(_tos)B(_table)B(_protocol)B(_scope)B(_type)I(_flags)''"

definition ifaddrmsg_fmt :: string where
  "ifaddrmsg_fmt = ''<B(_family)B(_prefix_len)B(_flags)B(_scope)I(_index)''"

definition ifinfomsg_fmt :: string where
  "ifinfomsg_fmt = ''<B(_family)B(_if_pad)H(_if_type)i(_if_index)I(_if_flags)I(_if_change)''"

definition rtattr_fmt :: string where
  "rtattr_fmt = ''<H(_len)H(_type)''"

definition zero_fields :: "string list \<Rightarrow> meta \<Rightarrow> meta" where
  "zero_fields ks m = fold (\<lambda>k. meta_set k (Num 0)) ks m"

definition buildNdmsg :: "meta run" where
  "buildNdmsg =
     run_bind (metaObject ndmsg_fmt False) (\<lambda>o1. Return
       (zero_fields [''_family'', ''_pad1'', ''_pad2'', ''_ifindex'', ''_state'', ''_flags'', ''_type''] o1))"

definition buildInfomsg :: "meta run" where
  "buildInfomsg =
     run_bind (metaObject ifinfomsg_fmt False) (\<lambda>o1. Return
       (zero_fields [''_family'', ''_if_pad'', ''_if_type'', ''_if_index'', ''_if_flags'', ''_if_change''] o1))"

definition buildRtmsg :: "meta run" where
  "buildRtmsg =
     run_bind (metaObject rtmsg_fmt True) (\<lambda>o1. Return
       (zero_fields [''_family'', ''_dst_len'', ''_src_len'', ''_tos'', ''_table'', ''_protocol'',
                     ''_scope'', ''_type'', ''_flags''] o1))"

text \<open>The last assignment goes to \<open>_if_index\<close>, which is not a field of the format.\<close>

definition buildIfaddressmsg :: "meta run" where
  "buildIfaddressmsg =
     run_bind (metaObject ifaddrmsg_fmt True) (\<lambda>o1. Return
       (zero_fields [''_family'', ''_prefix_len'', ''_flags'', ''_scope'', ''_if_index''] o1))"

text \<open>
  \<open>rt[name]()\<close>: the functions of \<open>rt\<close>, of which four build a message. A name that is none of them is
  \<open>undefined\<close> or a constant, and calling it throws.
\<close>

definition rt_functions :: "string list" where
  "rt_functions =
     [''make_group'', ''getRtmTypeName'', ''buildNdmsg'', ''buildInfomsg'', ''buildRtmsg'', ''buildIfaddressmsg'',
      ''buildRtattrBuf'', ''parseRtattributes'', ''parseAttrs'', ''bufToArray'']"

definition rt_builders :: "(string \<times> meta run) list" where
  "rt_builders =
     [(''buildNdmsg'', buildNdmsg), (''buildInfomsg'', buildInfomsg), (''buildRtmsg'', buildRtmsg),
      (''buildIfaddressmsg'', buildIfaddressmsg)]"

definition rt_build :: "string \<Rightarrow> meta run" where
  "rt_build name =
     (case map_of rt_builders name of
        Some build \<Rightarrow> build
      | None \<Rightarrow> Throw (if name \<in> set rt_functions then NotModelled name else TypeError))"

lemma scan_ndmsg:
  "scan_fmt ndmsg_fmt =
     [int_field FB ''_family'', int_field FB ''_pad1'', int_field FH ''_pad2'', int_field FL ''_ifindex'',
      int_field FH ''_state'', int_field FB ''_flags'', int_field FB ''_type'']"
  by code_simp

lemma scan_rtmsg:
  "scan_fmt rtmsg_fmt =
     [int_field FB ''_family'', int_field FB ''_dst_len'', int_field FB ''_src_len'', int_field FB ''_tos'',
      int_field FB ''_table'', int_field FB ''_protocol'', int_field FB ''_scope'', int_field FB ''_type'',
      int_field FI ''_flags'']"
  by code_simp

lemma scan_ifaddrmsg:
  "scan_fmt ifaddrmsg_fmt =
     [int_field FB ''_family'', int_field FB ''_prefix_len'', int_field FB ''_flags'', int_field FB ''_scope'',
      int_field FI ''_index'']"
  by code_simp

lemma scan_ifinfomsg:
  "scan_fmt ifinfomsg_fmt =
     [int_field FB ''_family'', int_field FB ''_if_pad'', int_field FH ''_if_type'', int_field Fi ''_if_index'',
      int_field FI ''_if_flags'', int_field FI ''_if_change'']"
  by code_simp

lemma scan_rtattr: "scan_fmt rtattr_fmt = [int_field FH ''_len'', int_field FH ''_type'']"
  by code_simp

lemmas scan_payloads = scan_ndmsg scan_rtmsg scan_ifaddrmsg scan_ifinfomsg scan_rtattr

lemma fmt_be_rt [simp]:
  "fmt_be ndmsg_fmt = False" "fmt_be rtmsg_fmt = False" "fmt_be ifaddrmsg_fmt = False"
  "fmt_be ifinfomsg_fmt = False" "fmt_be rtattr_fmt = False"
  by (simp_all add: fmt_be_def ndmsg_fmt_def rtmsg_fmt_def ifaddrmsg_fmt_def ifinfomsg_fmt_def rtattr_fmt_def)

section \<open>Building an attribute\<close>

text \<open>
  \<open>buildRtattrBuf(typ, data)\<close>; \<open>Return None\<close> is the \<open>undefined\<close> it returns after printing the
  error about bad parameters. The header length counts the data without the padding.
\<close>

definition is_num :: "jsval \<Rightarrow> bool" where
  "is_num v = (case v of Num n \<Rightarrow> True | _ \<Rightarrow> False)"

definition is_buf :: "jsval \<Rightarrow> bool" where
  "is_buf v = (case v of Buf b \<Rightarrow> True | _ \<Rightarrow> False)"

definition buf_of :: "jsval \<Rightarrow> bytes" where
  "buf_of v = (case v of Buf b \<Rightarrow> b | _ \<Rightarrow> [])"

definition buildRtattrBuf :: "jsval \<Rightarrow> jsval \<Rightarrow> bytes option run" where
  "buildRtattrBuf typ data =
     (if \<not> is_num typ \<or> (truthy data \<and> \<not> is_buf data) then Return None
      else
        let len = 4 + int (length (buf_of data));
            bufs = (if is_buf data then [Some (buf_of data)] else []);
            pad = js_align4 len - len
        in run_bind (pack rtattr_fmt [Num len, typ]) (\<lambda>rtabuf.
             run_bind (all_buffers (rtabuf # bufs @ (if pad \<noteq> 0 then [Some (replicate (nat pad) 0)] else [])))
               (\<lambda>bs. Return (Some (concat bs)))))"

text \<open>The layout of one attribute: length, type, data, zeros up to a multiple of four.\<close>

definition pad4 :: "nat \<Rightarrow> nat" where
  "pad4 n = (4 - n mod 4) mod 4"

definition rtattr_enc :: "nat \<times> bytes \<Rightarrow> bytes" where
  "rtattr_enc a =
     le_bytes 2 (4 + int (length (snd a))) @ le_bytes 2 (int (fst a)) @ snd a @ replicate (pad4 (length (snd a))) 0"

definition rtattr_ok :: "nat \<times> bytes \<Rightarrow> bool" where
  "rtattr_ok a \<longleftrightarrow> fst a < 65536 \<and> 4 + length (snd a) < 65536"

lemma round_up_4: "4 * ((int len + 3) div 4) - int len = int (pad4 len)"
proof -
  have "len mod 4 \<in> {0, 1, 2, 3}" by auto
  then obtain q r where "len = 4 * q + r" "r \<in> {0, 1, 2, 3}" by (metis mult_div_mod_eq)
  then show ?thesis by (auto simp: pad4_def)
qed

lemma align_pad: "len + 3 < 2 ^ 31 \<Longrightarrow> js_align4 (int len) - int len = int (pad4 len)"
proof -
  assume "len + 3 < 2 ^ 31"
  then have "int (len + 3) < int (2 ^ 31)" by (simp only: of_nat_less_iff)
  then have "js_align4 (int len) = 4 * ((int len + 3) div 4)" by (intro js_align4_eq) simp_all
  then show ?thesis by (simp only: round_up_4)
qed

lemma pad4_mod: "(n + pad4 n) mod 4 = 0"
proof -
  have "n mod 4 \<in> {0, 1, 2, 3}" by auto
  then obtain q r where "n = 4 * q + r" "r \<in> {0, 1, 2, 3}" by (metis mult_div_mod_eq)
  then show ?thesis by (auto simp: pad4_def)
qed

lemma pad4_add4 [simp]: "pad4 (4 + n) = pad4 n" "pad4 (n + 4) = pad4 n"
  by (simp_all add: pad4_def)

lemma rtattr_pack:
  "pack rtattr_fmt [Num l, Num t]
    = Return (Some (le_bytes 2 (clamp_el (unsigned_el 2) l) @ le_bytes 2 (clamp_el (unsigned_el 2) t)))"
  using pack_ints [of rtattr_fmt "[l, t]"] by (simp add: scan_rtattr)

lemma clamp_u16: "0 \<le> v \<Longrightarrow> v < 65536 \<Longrightarrow> clamp_el (unsigned_el 2) v = v"
  by (intro clamp_el_id) (simp_all add: unsigned_el_def)

lemma buildRtattrBuf_enc:
  assumes "rtattr_ok (t, d)"
  shows "buildRtattrBuf (Num (int t)) (Buf d) = Return (Some (rtattr_enc (t, d)))"
proof -
  from assms have t: "t < 65536" "4 + length d < 65536" by (simp_all add: rtattr_ok_def)
  have "js_align4 (4 + int (length d)) - (4 + int (length d)) = int (pad4 (length d))"
    using align_pad [of "4 + length d"] t by simp
  moreover have "int t < 65536" "4 + int (length d) < 65536" using t by simp_all
  ultimately show ?thesis
    by (simp add: buildRtattrBuf_def is_num_def is_buf_def buf_of_def Let_def rtattr_pack clamp_u16 rtattr_enc_def)
qed

section \<open>Parsing attributes\<close>

type_synonym props = "(string \<times> jsval) list"

text \<open>The regular expression \<open>name|label\<close>.\<close>

definition is_text_key :: "string \<Rightarrow> bool" where
  "is_text_key key \<longleftrightarrow> has_substring ''name'' key \<or> has_substring ''label'' key"

text \<open>
  The body of the loop of \<open>parseAttrs\<close>. The length read from the header may be below four, which
  makes \<open>len\<close> negative: the slices are then empty or count from the end, and the index advances
  by \<open>4 + len\<close> rounded up, which is nothing at all when the header says zero.
\<close>

definition rt_attr_body :: "string list \<Rightarrow> bytes \<Rightarrow> nat \<Rightarrow> props \<Rightarrow> (nat \<times> props) run" where
  "rt_attr_body attr_map data index0 ret =
     run_bind (readUInt16LE data index0) (\<lambda>l.
     run_bind (readUInt16LE data (index0 + 2)) (\<lambda>attr_type.
       let len = l - 4;
           index = int index0 + 4;
           ret' = (if nat attr_type < length attr_map then
                     (let key = attr_map ! nat attr_type in
                      obj_set key
                        (if is_text_key key then Str (ascii_slice data index (index + len - 1))
                         else Buf (js_slice data index (index + len))) ret)
                   else ret);
           pad = js_align4 len - len
       in Return (nat (index + (len + pad)), ret')))"

definition rt_parseAttrs :: "bytes \<Rightarrow> nat \<Rightarrow> int \<Rightarrow> string list \<Rightarrow> props run" where
  "rt_parseAttrs data attr_start total_len attr_map =
     attr_loop (rt_attr_body attr_map data) (Suc (length data)) total_len attr_start []"

text \<open>
  \<open>parseRtattributes(data, opts)\<close>. The table of payload sizes is indexed with \<open>type - 16\<close>
  although it has no rows for the numbers the message types leave out.
\<close>

definition rt_family :: "int \<Rightarrow> (string list \<times> string) option" where
  "rt_family type =
     (if RTM_NEWLINK \<le> type \<and> type \<le> RTM_GETLINK then Some (link_info_attr_name_map, ifinfomsg_fmt)
      else if RTM_NEWADDR \<le> type \<and> type \<le> RTM_GETADDR then Some (addr_info_attr_name_map, ifaddrmsg_fmt)
      else if RTM_NEWROUTE \<le> type \<and> type \<le> RTM_GETROUTE then Some (route_info_attr_name_map, rtmsg_fmt)
      else if RTM_NEWNEIGH \<le> type \<and> type \<le> RTM_GETNEIGH then Some (neigh_info_attr_name_map, ndmsg_fmt)
      else None)"

definition parseRtattributes :: "jsval \<Rightarrow> props run" where
  "parseRtattributes data =
     (if \<not> is_buf data \<or> length (buf_of data) < 16 then Return []
      else let d = buf_of data in
        run_bind (readUInt32LE d 0) (\<lambda>total_len.
        if total_len \<noteq> int (length d) then Return []
        else run_bind (readUInt16LE d 4) (\<lambda>type.
          if type = NLMSG_DONE then Return []
          else case rt_family type of
              None \<Rightarrow> Return []
            | Some (keys, fmt) \<Rightarrow>
                run_bind (unpack fmt d 16) (\<lambda>payload.
                run_bind (rt_parseAttrs d (16 + payload_sizes ! nat (type - 16)) total_len keys) (\<lambda>ret.
                  Return (obj_set ''operation'' (getRtmTypeName type) (obj_set ''payload'' payload ret)))))))"

fun bufToArray_loop :: "bytes \<Rightarrow> nat \<Rightarrow> nat \<Rightarrow> int list run" where
  "bufToArray_loop data idx 0 = Return []"
| "bufToArray_loop data idx (Suc n) =
     run_bind (readUInt8 data idx) (\<lambda>b. run_bind (bufToArray_loop data (Suc idx) n) (\<lambda>bs. Return (b # bs)))"

definition bufToArray :: "bytes \<Rightarrow> nat \<Rightarrow> nat \<Rightarrow> int list run" where
  "bufToArray data index len = bufToArray_loop data index len"

section \<open>The attribute walk\<close>

lemma readUInt16LE_cases:
  "(\<exists>v. readUInt16LE d i = Return v \<and> 0 \<le> v \<and> v < 65536 \<and> i + 2 \<le> length d) \<or> readUInt16LE d i = Throw RangeError"
proof (cases "i + 2 \<le> length d")
  case True
  then obtain v where "readUInt16LE d i = Return v" using readUInt16LE_returns_iff by blast
  with readUInt16LE_range True show ?thesis by blast
qed (simp add: readUInt16LE_def read_bytes_def)

lemma next_index:
  assumes "0 \<le> l" "l < 65536"
  shows "nat (int i + 4 + (l - 4 + (js_align4 (l - 4) - (l - 4)))) = i + 4 * nat ((l + 3) div 4)"
proof -
  have "js_align4 (l - 4) = 4 * ((l - 4 + 3) div 4)" using assms by (intro js_align4_eq) simp_all
  also have "\<dots> = 4 * ((l + 3) div 4) - 4" by presburger
  finally show ?thesis using assms by simp
qed

lemma rt_attr_body_Return:
  assumes "rt_attr_body m d i s = Return (j, s')"
  shows "\<exists>l. readUInt16LE d i = Return l \<and> j = i + 4 * nat ((l + 3) div 4) \<and> i + 4 \<le> length d"
proof -
  from assms obtain l t where l: "readUInt16LE d i = Return l" and t: "readUInt16LE d (i + 2) = Return t"
    and j: "j = nat (int i + 4 + (l - 4 + (js_align4 (l - 4) - (l - 4))))"
    by (auto simp: rt_attr_body_def Let_def simp del: add_diff_cancel_left')
  moreover have "i + 2 + 2 \<le> length d" using t readUInt16LE_returns_iff by blast
  moreover have "0 \<le> l" "l < 65536" using readUInt16LE_range [OF l] by simp_all
  ultimately show ?thesis by (simp only: next_index) auto
qed

lemma rt_attr_body_not_Diverge: "rt_attr_body m d i s \<noteq> Diverge"
  using readUInt16LE_cases [of d i] readUInt16LE_cases [of d "i + 2"]
  by (auto simp: rt_attr_body_def Let_def)

lemma rt_attr_body_index:
  assumes "rt_attr_body m d i s = Return (j, s')"
  shows "\<exists>s''. rt_attr_body m d i t = Return (j, s'')"
proof -
  from assms obtain l ty where "readUInt16LE d i = Return l" "readUInt16LE d (i + 2) = Return ty"
    and "j = nat (int i + 4 + (l - 4 + (js_align4 (l - 4) - (l - 4))))"
    by (auto simp: rt_attr_body_def Let_def)
  then show ?thesis by (simp add: rt_attr_body_def Let_def)
qed

interpretation rt_body: attr_body "rt_attr_body attr_map data" "length data" for attr_map data
proof unfold_locales
  fix i j :: nat and s s' :: props
  assume "rt_attr_body attr_map data i s = Return (j, s')"
  then show "i < length data \<and> i \<le> j" using rt_attr_body_Return by fastforce
next
  fix i j :: nat and s s' t :: props
  assume "rt_attr_body attr_map data i s = Return (j, s')"
  then show "\<exists>s''. rt_attr_body attr_map data i t = Return (j, s'')" by (rule rt_attr_body_index)
qed (rule rt_attr_body_not_Diverge)

text \<open>One encoded attribute: a name the table does not have is skipped.\<close>

definition rt_upd :: "string list \<Rightarrow> nat \<times> bytes \<Rightarrow> props \<Rightarrow> props" where
  "rt_upd attr_map a ret =
     (if fst a < length attr_map then
        obj_set (attr_map ! fst a)
          (if is_text_key (attr_map ! fst a) then Str (map ascii_char (butlast (snd a))) else Buf (snd a)) ret
      else ret)"

lemma ascii_slice_middle:
  "ascii_slice (pre @ mid @ post) (int (length pre)) (int (length pre) + int (length mid) - 1)
    = map ascii_char (butlast mid)"
  by (cases "mid = []") (auto simp: ascii_slice_def Let_def butlast_conv_take min_def nat_diff_distrib)

lemma rt_step:
  assumes "rtattr_ok a"
  shows "rt_attr_body m (pre @ rtattr_enc a @ post) (length pre) s
    = Return (length pre + length (rtattr_enc a), rt_upd m a s)"
proof -
  obtain t d where a: "a = (t, d)" by (cases a)
  have ok: "int t < 65536" "4 + int (length d) < 65536" using assms by (auto simp: rtattr_ok_def a)
  define tl where "tl = replicate (pad4 (length d)) (0::byte) @ post"
  have data: "pre @ rtattr_enc a @ post = pre @ le_bytes 2 (4 + int (length d)) @ (le_bytes 2 (int t) @ d @ tl)"
    and data2: "pre @ rtattr_enc a @ post = (pre @ le_bytes 2 (4 + int (length d))) @ le_bytes 2 (int t) @ (d @ tl)"
    and data3: "pre @ rtattr_enc a @ post = (pre @ le_bytes 2 (4 + int (length d)) @ le_bytes 2 (int t)) @ d @ tl"
    by (simp_all add: rtattr_enc_def a tl_def)
  have 1: "readUInt16LE (pre @ rtattr_enc a @ post) (length pre) = Return (4 + int (length d))"
    unfolding data using ok by (intro readUInt16LE_at) auto
  have 2: "readUInt16LE (pre @ rtattr_enc a @ post) (length pre + 2) = Return (int t)"
    unfolding data2 using ok by (intro readUInt16LE_at) auto
  have 3: "ascii_slice (pre @ rtattr_enc a @ post) (int (length pre) + 4) (int (length pre) + 4 + (4 + int (length d) - 4) - 1)
      = map ascii_char (butlast d)"
    unfolding data3 using ascii_slice_middle [of "pre @ le_bytes 2 (4 + int (length d)) @ le_bytes 2 (int t)" d tl]
    by (simp add: add.assoc)
  have 4: "js_slice (pre @ rtattr_enc a @ post) (int (length pre) + 4) (int (length pre) + 4 + (4 + int (length d) - 4)) = d"
    unfolding data3 using js_slice_middle [of "pre @ le_bytes 2 (4 + int (length d)) @ le_bytes 2 (int t)" "length pre + 4"
      d "length pre + 4 + length d" tl] by (simp add: add.assoc)
  have 5: "nat (int (length pre) + 4 + (4 + int (length d) - 4 + (js_align4 (4 + int (length d) - 4) - (4 + int (length d) - 4))))
      = length pre + length (rtattr_enc a)"
    using align_pad [of "length d"] ok by (simp add: rtattr_enc_def a)
  show ?thesis
    unfolding rt_attr_body_def 1 2 run_bind.simps Let_def 3 4 5 by (simp add: rt_upd_def a)
qed

interpretation rt_stream: attr_stream "rt_attr_body attr_map" rtattr_enc "\<lambda>_. rt_upd attr_map" rtattr_ok for attr_map
proof unfold_locales
  fix a :: "nat \<times> bytes"
  show "rtattr_enc a \<noteq> []" by (cases a) (simp add: rtattr_enc_def numeral_2_eq_2)
next
  fix a :: "nat \<times> bytes" and pre post :: bytes and s :: props
  assume "rtattr_ok a"
  then show "rt_attr_body attr_map (pre @ rtattr_enc a @ post) (length pre) s
      = Return (length pre + length (rtattr_enc a), rt_upd attr_map a s)" by (rule rt_step)
qed

lemma length_rtattr_enc: "4 \<le> length (rtattr_enc a)"
  by (simp add: rtattr_enc_def)

lemma length_attrs: "length as \<le> length (concat (map rtattr_enc as))"
proof (induction as)
  case (Cons a as)
  then show ?case using length_rtattr_enc [of a] by simp
qed simp

lemma rt_parseAttrs_decode:
  assumes "list_all rtattr_ok as"
  shows "rt_parseAttrs (pre @ concat (map rtattr_enc as)) (length pre)
      (int (length (pre @ concat (map rtattr_enc as)))) attr_map = Return (fold (rt_upd attr_map) as [])"
proof -
  have "length as < Suc (length (pre @ concat (map rtattr_enc as)))"
    using length_attrs [of as] by simp
  then show ?thesis unfolding rt_parseAttrs_def using rt_stream.decode [OF assms] by (simp only: fold_last_const)
qed

text \<open>
  C28. Round trip of attributes: the walk over any sequence of attributes that \<open>buildRtattrBuf\<close>
  encodes, standing at the end of a buffer, ends and stores each attribute under the name of its
  type, in order, the later one winning; attributes of unknown type are skipped.
\<close>

theorem parseAttrs_buildRtattrBuf:
  assumes "list_all rtattr_ok as"
  shows "\<exists>bufs. run_map (\<lambda>(t, d). buildRtattrBuf (Num (int t)) (Buf d)) as = Return (map Some bufs) \<and>
    (\<forall>pre. rt_parseAttrs (pre @ concat bufs) (length pre) (int (length (pre @ concat bufs))) attr_map
       = Return (fold (rt_upd attr_map) as []))"
proof (intro exI conjI allI)
  show "run_map (\<lambda>(t, d). buildRtattrBuf (Num (int t)) (Buf d)) as = Return (map Some (map rtattr_enc as))"
    unfolding map_map using assms by (intro run_map_Return) (auto simp: list_all_iff buildRtattrBuf_enc)
  fix pre :: bytes
  show "rt_parseAttrs (pre @ concat (map rtattr_enc as)) (length pre)
      (int (length (pre @ concat (map rtattr_enc as)))) attr_map = Return (fold (rt_upd attr_map) as [])"
    by (rule rt_parseAttrs_decode [OF assms])
qed

lemma parseAttrs_buildRtattrBuf_witness:
  "\<exists>bufs. run_map (\<lambda>(t, d). buildRtattrBuf (Num (int t)) (Buf d)) [(1, [170, 187]), (3, [108, 111, 0])]
      = Return (map Some bufs) \<and>
    (\<forall>pre. rt_parseAttrs (pre @ concat bufs) (length pre) (int (length (pre @ concat bufs)))
         link_info_attr_name_map
       = Return (fold (rt_upd link_info_attr_name_map) [(1, [170, 187]), (3, [108, 111, 0])] []))"
  by (rule parseAttrs_buildRtattrBuf) (simp add: rtattr_ok_def)

section \<open>Whole messages\<close>

lemma parse_framed:
  assumes "t \<in> {16, 17, 18, 20, 21, 22, 24, 25, 26, 28}" "rt_family t = Some (keys, fmt)"
    "is_hdr h" "meta_get h ''_type'' = Num t" "meta_get h ''_flags'' = Num f"
    "meta_get h ''_seq'' = Num s" "meta_get h ''_pid'' = Num p"
    "count_sum (scan_fmt fmt) = length vs" "list_all rtattr_ok as"
    "32 + length (concat (map rtattr_enc as)) < 2 ^ 32"
  shows "\<exists>payload m. pack fmt (map Num vs) = Return (Some payload) \<and>
    frame_message h (Some payload # map (\<lambda>a. Some (rtattr_enc a)) as) = Return m \<and>
    parseRtattributes (Buf m) = Return
      (obj_set ''operation'' (getRtmTypeName t)
        (obj_set ''payload'' (unpack_result (map fe_key (scan_fmt fmt)) (map Num (norm_elems (scan_fmt fmt) vs)))
          (fold (rt_upd keys) as [])))"
proof -
  have fmt: "int_elems (scan_fmt fmt)" "fmt_be fmt = False" "fmt_size (scan_fmt fmt) = payload_sizes ! nat (t - 16)"
    "payload_sizes ! nat (t - 16) \<le> 16"
    using assms(1,2) by (auto simp: rt_family_def scan_payloads payload_sizes_def)
  define pl where "pl = enc_elems False (scan_fmt fmt) vs"
  have pack: "pack fmt (map Num vs) = Return (Some pl)"
    using pack_ints [OF fmt(1)] assms(8) fmt(2) by (simp add: pl_def)
  have lpl: "length pl = payload_sizes ! nat (t - 16)"
    using length_enc_elems [OF fmt(1)] assms(8) fmt(3) by (simp add: pl_def)
  define bs where "bs = pl # map rtattr_enc as"
  define n where "n = 16 + int (length (concat bs))"
  define hdr where "hdr = hdr_bytes n t f s p"
  define m where "m = hdr @ concat bs"
  have frame: "frame_message h (Some pl # map (\<lambda>a. Some (rtattr_enc a)) as) = Return m"
    using frame_message_eq [OF assms(3-7), of bs] by (simp add: bs_def m_def hdr_def n_def comp_def)
  have lm: "int (length m) = n" by (simp add: m_def hdr_def n_def)
  have "16 + length (concat bs) < 2 ^ 32" using assms(10) lpl fmt(4) by (simp add: bs_def)
  then have "int (16 + length (concat bs)) < int (2 ^ 32)" by (simp only: of_nat_less_iff)
  then have n: "0 \<le> n" "n < 2 ^ 32" by (simp_all add: n_def)
  have cn: "clamp_el (unsigned_el 4) n = n" using n by (simp add: clamp_el_def unsigned_el_def)
  have r1: "readUInt32LE m 0 = Return n"
    using readUInt32LE_at [of "[]" 0 n] n by (simp add: m_def hdr_def hdr_bytes_def cn)
  have ct: "clamp_el (unsigned_el 2) t = t" using assms(1) by (intro clamp_u16) auto
  have r2: "readUInt16LE m 4 = Return t"
    using readUInt16LE_at [of "le_bytes 4 n" 4 t] assms(1) by (auto simp: m_def hdr_def hdr_bytes_def cn ct)
  have u: "unpack fmt m 16 = Return (unpack_result (map fe_key (scan_fmt fmt)) (map Num (norm_elems (scan_fmt fmt) vs)))"
    using unpack_ints [OF fmt(1) assms(8), of hdr "concat (map rtattr_enc as)"] fmt(2)
    by (simp add: m_def hdr_def bs_def pl_def)
  have "rt_parseAttrs ((hdr @ pl) @ concat (map rtattr_enc as)) (length (hdr @ pl))
      (int (length ((hdr @ pl) @ concat (map rtattr_enc as)))) keys = Return (fold (rt_upd keys) as [])"
    by (rule rt_parseAttrs_decode [OF assms(9)])
  then have w: "rt_parseAttrs m (16 + payload_sizes ! nat (t - 16)) n keys = Return (fold (rt_upd keys) as [])"
    using lpl by (simp add: m_def hdr_def bs_def n_def)
  have "length m \<ge> 16" "t \<noteq> NLMSG_DONE" using assms(1) by (auto simp: m_def hdr_def)
  then have "parseRtattributes (Buf m) = Return
      (obj_set ''operation'' (getRtmTypeName t)
        (obj_set ''payload'' (unpack_result (map fe_key (scan_fmt fmt)) (map Num (norm_elems (scan_fmt fmt) vs)))
          (fold (rt_upd keys) as [])))"
    by (simp add: parseRtattributes_def is_buf_def buf_of_def r1 r2 lm assms(2) u w)
  with pack frame show ?thesis by blast
qed

text \<open>
  C12. End to end, for the ten types of messages on links, addresses, routes and new neighbours, whose payload
  size the table has right: a message framed from a header, a packed payload and encoded attributes parses to
  the attributes the table has a name for, the payload with every number clamped to its field, and the name of
  the operation. Of an attribute that is a text the last byte is dropped, which is the NUL the kernel writes.
\<close>

theorem parse_framed_message:
  assumes "t \<in> {16, 17, 18, 20, 21, 22, 24, 25, 26, 28}" "rt_family t = Some (keys, fmt)"
    "is_hdr h" "meta_get h ''_type'' = Num t" "meta_get h ''_flags'' = Num f"
    "meta_get h ''_seq'' = Num s" "meta_get h ''_pid'' = Num p"
    "count_sum (scan_fmt fmt) = length vs" "list_all rtattr_ok as"
    "32 + length (concat (map rtattr_enc as)) < 2 ^ 32"
  shows "\<exists>payload m. pack fmt (map Num vs) = Return (Some payload) \<and>
    frame_message h (Some payload # map (\<lambda>a. Some (rtattr_enc a)) as) = Return m \<and>
    parseRtattributes (Buf m) = Return
      (obj_set ''operation'' (getRtmTypeName t)
        (obj_set ''payload'' (unpack_result (map fe_key (scan_fmt fmt)) (map Num (norm_elems (scan_fmt fmt) vs)))
          (fold (rt_upd keys) as [])))"
  by (rule parse_framed [OF assms])

lemma parse_framed_message_witness:
  "\<exists>h. buildHdr = Return h \<and>
    (\<exists>payload m. pack ifinfomsg_fmt (map Num [0, 0, 0, 2, 1, 0xFFFFFFFF]) = Return (Some payload) \<and>
      frame_message (meta_set ''_type'' (Num 16) h) (Some payload # map (\<lambda>a. Some (rtattr_enc a)) [(3, [108, 111, 0])]) = Return m \<and>
      parseRtattributes (Buf m) = Return
        (obj_set ''operation'' (getRtmTypeName 16)
          (obj_set ''payload'' (unpack_result (map fe_key (scan_fmt ifinfomsg_fmt))
              (map Num (norm_elems (scan_fmt ifinfomsg_fmt) [0, 0, 0, 2, 1, 0xFFFFFFFF])))
            (fold (rt_upd link_info_attr_name_map) [(3, [108, 111, 0])] []))))"
proof -
  obtain h where h: "buildHdr = Return h" "is_hdr h" "meta_get h ''_flags'' = Num NLM_F_REQUEST"
      "meta_get h ''_seq'' = Num 0" "meta_get h ''_pid'' = Num 0" using buildHdr_value by blast
  show ?thesis
    by (intro exI [of _ h] conjI h(1) parse_framed_message [where f = NLM_F_REQUEST and s = 0 and p = 0])
      (simp_all add: h is_hdr_set rt_family_def scan_ifinfomsg rtattr_ok_def rtattr_enc_def pad4_def)
qed

lemma rt_stuck_iff:
  "(\<exists>t t'. rt_attr_body m d k t = Return (k, t')) \<longleftrightarrow> readUInt16LE d k = Return 0 \<and> k + 4 \<le> length d"
proof
  assume "\<exists>t t'. rt_attr_body m d k t = Return (k, t')"
  then obtain l where l: "readUInt16LE d k = Return l" "k = k + 4 * nat ((l + 3) div 4)" "k + 4 \<le> length d"
    using rt_attr_body_Return by blast
  moreover have "0 \<le> l" using readUInt16LE_range [OF l(1)] by simp
  ultimately show "readUInt16LE d k = Return 0 \<and> k + 4 \<le> length d" by simp
next
  assume a: "readUInt16LE d k = Return 0 \<and> k + 4 \<le> length d"
  then have "k + 2 + 2 \<le> length d" by simp
  then obtain ty where "readUInt16LE d (k + 2) = Return ty" using readUInt16LE_returns_iff by blast
  with a have "\<exists>s'. rt_attr_body m d k [] = Return (k, s')"
    by (simp add: rt_attr_body_def Let_def js_align4_def js_and_def to_int32_def)
  then show "\<exists>t t'. rt_attr_body m d k t = Return (k, t')" by blast
qed

lemma rt_parseAttrs_Diverge:
  "rt_parseAttrs data index total_len attr_map = Diverge \<longleftrightarrow>
     (\<exists>k. walk (rt_attr_body attr_map data) index k \<and> int k < total_len \<and> k + 4 \<le> length data
        \<and> readUInt16LE data k = Return 0)"
  unfolding rt_parseAttrs_def using rt_body.diverge_iff [of data "Suc (length data)" index attr_map total_len "[]"]
    rt_stuck_iff [of attr_map data] by fastforce

text \<open>
  C27. Termination of the attribute walk, exactly: \<open>parseAttrs\<close> does not end if and only if its walk
  reaches, before the end of the message, an attribute header that claims length zero. Every other
  malformed message makes it return or throw.
\<close>

theorem rt_parseAttrs_diverges_iff:
  "rt_parseAttrs data index total_len attr_map = Diverge \<longleftrightarrow>
     (\<exists>k. walk (rt_attr_body attr_map data) index k \<and> int k < total_len \<and> k + 4 \<le> length data
        \<and> readUInt16LE data k = Return 0)"
  by (rule rt_parseAttrs_Diverge)

lemma unpack_ints_returns: "int_elems (scan_fmt fmt) \<Longrightarrow> returns (unpack fmt a p)"
proof -
  assume "int_elems (scan_fmt fmt)"
  moreover have "int_elems es \<Longrightarrow> returns (unpack_loop be es a p)" for be es p
  proof (induction es arbitrary: p)
    case (Cons e es)
    then show ?case using elLut_not_text [of "fe_type e"]
      by (auto simp: elem_count_def de_elem_def Let_def returns_iff)
  qed simp
  ultimately have "returns (unpack_loop (fmt_be fmt) (scan_fmt fmt) a p)" by blast
  then show ?thesis by (simp add: unpack_def returns_iff)
qed

text \<open>
  The table of payload sizes does not fit the message types: for \<open>delNeighbor\<close> and
  \<open>getNeighbor\<close> messages the decoder skips eight bytes of a payload of twelve and takes the state
  word of the payload for the first attribute header; when the state is zero it never returns.
\<close>

theorem parseRtattributes_del_neighbor:
  assumes "t \<in> {RTM_DELNEIGH, RTM_GETNEIGH}" "28 \<le> length d"
    "readUInt32LE d 0 = Return (int (length d))" "readUInt16LE d 4 = Return t"
    "readUInt16LE d (16 + 8) = Return 0"
  shows "parseRtattributes (Buf d) = Diverge"
proof -
  have fam: "rt_family t = Some (neigh_info_attr_name_map, ndmsg_fmt)" "payload_sizes ! nat (t - 16) = 8"
    using assms(1) by (auto simp: rt_family_def payload_sizes_def)
  obtain v where "unpack ndmsg_fmt d 16 = Return v"
    using unpack_ints_returns [of ndmsg_fmt d 16] by (auto simp: scan_ndmsg returns_iff)
  moreover have "rt_parseAttrs d 24 (int (length d)) neigh_info_attr_name_map = Diverge"
    unfolding rt_parseAttrs_Diverge using assms by (intro exI [of _ 24]) (simp add: walk_refl)
  ultimately show ?thesis using assms fam by (auto simp: parseRtattributes_def is_buf_def buf_of_def)
qed

lemma parseRtattributes_del_neighbor_witness:
  "parseRtattributes (Buf ([28, 0, 0, 0, 29, 0, 1, 0] @ replicate 8 0 @ [2, 0, 0, 0, 3, 0, 0, 0] @ replicate 4 0)) = Diverge"
  by (rule parseRtattributes_del_neighbor [where t = 29]) code_simp+

end
