(* ===== verification/Common.thy ===== *)
theory Common
  imports JsString
begin

text \<open>
  \<open>libs/common.js\<close> and \<open>nl/netutils.js\<close>: recognising addresses with regular expressions,
  network masks from prefix lengths and MAC addresses from text.
\<close>

section \<open>Regular expressions\<close>

text \<open>
  The patterns are built from character classes, sequence, alternation and bounded repetition, with
  one unbounded repetition of a class. \<open>re_rests r s\<close> lists what may be left of \<open>s\<close> after a match of
  \<open>r\<close> at its start, all backtracking alternatives included; \<open>match\<close> without anchors succeeds when some
  suffix has such a rest.
\<close>

datatype re =
    Cls "char \<Rightarrow> bool"
  | Cat re re
  | Alt re re
  | Rep nat nat re
  | Plus "char \<Rightarrow> bool"

fun rep_rests :: "(string \<Rightarrow> string list) \<Rightarrow> nat \<Rightarrow> nat \<Rightarrow> string \<Rightarrow> string list" where
  "rep_rests f m 0 s = (if m = 0 then [s] else [])"
| "rep_rests f m (Suc n) s =
     remdups (concat (map (rep_rests f (m - 1) n) (f s)) @ (if m = 0 then [s] else []))"

fun plus_rests :: "(char \<Rightarrow> bool) \<Rightarrow> string \<Rightarrow> string list" where
  "plus_rests P [] = []"
| "plus_rests P (c # cs) = (if P c then plus_rests P cs @ [cs] else [])"

fun re_rests :: "re \<Rightarrow> string \<Rightarrow> string list" where
  "re_rests (Cls P) s = (case s of [] \<Rightarrow> [] | c # cs \<Rightarrow> if P c then [cs] else [])"
| "re_rests (Cat r q) s = remdups (concat (map (re_rests q) (re_rests r s)))"
| "re_rests (Alt r q) s = re_rests r s @ re_rests q s"
| "re_rests (Rep m n r) s = rep_rests (re_rests r) m n s"
| "re_rests (Plus P) s = plus_rests P s"

fun suffixes_of :: "'a list \<Rightarrow> 'a list list" where
  "suffixes_of [] = [[]]"
| "suffixes_of (x # xs) = (x # xs) # suffixes_of xs"

definition re_search :: "re \<Rightarrow> string \<Rightarrow> bool" where
  "re_search r s = list_ex (\<lambda>t. re_rests r t \<noteq> []) (suffixes_of s)"

definition chr :: "char \<Rightarrow> re" where
  "chr c = Cls (\<lambda>d. d = c)"

fun word_re :: "string \<Rightarrow> re" where
  "word_re [] = Rep 0 0 (Cls (\<lambda>_. True))"
| "word_re [c] = chr c"
| "word_re (c # cs) = Cat (chr c) (word_re cs)"

definition range_re :: "char \<Rightarrow> char \<Rightarrow> re" where
  "range_re a b = Cls (\<lambda>c. (of_char a :: nat) \<le> of_char c \<and> of_char c \<le> (of_char b :: nat))"

fun alts :: "re list \<Rightarrow> re" where
  "alts [] = Cls (\<lambda>_. False)"
| "alts [r] = r"
| "alts (r # rs) = Alt r (alts rs)"

fun cats :: "re list \<Rightarrow> re" where
  "cats [] = Rep 0 0 (Cls (\<lambda>_. True))"
| "cats [r] = r"
| "cats (r # rs) = Cat r (cats rs)"

section \<open>isaddress\<close>

text \<open>
  The patterns are ordinary string literals, in which \<open>\.\<close> is just \<open>.\<close>: the dots of the address
  patterns match any character that is not a line terminator.
\<close>

definition any_char :: re where
  "any_char = Cls (\<lambda>c. c \<noteq> CHR 10 \<and> c \<noteq> CHR 13)"

definition octet_re :: re where
  "octet_re =
     Alt (Cat (word_re ''25'') (range_re (CHR ''0'') (CHR ''5'')))
         (Cat (Rep 0 1 (Alt (Cat (chr (CHR ''2'')) (range_re (CHR ''0'') (CHR ''4'')))
                            (Cat (Rep 0 1 (chr (CHR ''1''))) (Cls is_digit))))
              (Cls is_digit))"

definition ipv4_re :: re where
  "ipv4_re = Cat (Rep 3 3 (Cat octet_re any_char)) octet_re"

definition h16 :: re where
  "h16 = Rep 1 4 (Cls is_xdigit)"

definition ipv6_re :: re where
  "ipv6_re =
     (let col = chr (CHR '':''); hc = Cat h16 col; ch = Cat col h16
      in alts
        [Cat (Rep 7 7 hc) h16,
         Cat (Rep 1 7 hc) col,
         Cat (Rep 1 6 hc) ch,
         Cat (Rep 1 5 hc) (Rep 1 2 ch),
         Cat (Rep 1 4 hc) (Rep 1 3 ch),
         Cat (Rep 1 3 hc) (Rep 1 4 ch),
         Cat (Rep 1 2 hc) (Rep 1 5 ch),
         Cat hc (Rep 1 6 ch),
         Cat col (Alt (Rep 1 7 ch) col),
         cats [word_re ''fe80:'', Rep 0 4 (Cat col (Rep 0 4 (Cls is_xdigit))), chr (CHR ''%''),
               Plus (\<lambda>c. is_alpha c \<or> is_digit c)],
         cats [word_re ''::'', Rep 0 1 (cats [word_re ''ffff'', Rep 0 1 (Cat col (Rep 1 4 (chr (CHR ''0'')))), col]),
               Rep 3 3 (Cat octet_re any_char), octet_re],
         cats [Rep 1 4 hc, col, Rep 3 3 (Cat octet_re any_char), octet_re]])"

definition isaddress :: "string \<Rightarrow> jsval" where
  "isaddress str =
     (if re_search ipv4_re str then Str ''inet''
      else if re_search ipv6_re str then Str ''inet6''
      else ErrorObj (''* Error: isaddress fail : '' @ str))"

subsection \<open>Dotted quads\<close>

lemma rests_Cat: "u \<in> set (re_rests r s) \<Longrightarrow> v \<in> set (re_rests q u) \<Longrightarrow> v \<in> set (re_rests (Cat r q) s)"
  by auto

lemma octet_rests1: "is_digit c \<Longrightarrow> rest \<in> set (re_rests octet_re (c # rest))"
  by (simp add: octet_re_def)

lemma octet_rests2: "is_digit c \<Longrightarrow> is_digit d \<Longrightarrow> rest \<in> set (re_rests octet_re (c # d # rest))"
  by (simp add: octet_re_def)

lemma octet_rests3:
  "is_digit d \<Longrightarrow> is_digit e \<Longrightarrow> rest \<in> set (re_rests octet_re (CHR ''1'' # d # e # rest))"
  "d \<in> set ''01234'' \<Longrightarrow> is_digit e \<Longrightarrow> rest \<in> set (re_rests octet_re (CHR ''2'' # d # e # rest))"
  "e \<in> set ''012345'' \<Longrightarrow> rest \<in> set (re_rests octet_re (CHR ''2'' # CHR ''5'' # e # rest))"
  by (auto simp: octet_re_def chr_def range_re_def)

lemma digit_char_10:
  "d < 10 \<Longrightarrow> is_digit (digit_char d)"
  "d < 5 \<Longrightarrow> digit_char d \<in> set ''01234''"
  "d < 6 \<Longrightarrow> digit_char d \<in> set ''012345''"
  "digit_char 1 = CHR ''1''" "digit_char 2 = CHR ''2''" "digit_char 5 = CHR ''5''"
proof -
  have "list_all (\<lambda>d. is_digit (digit_char d)) [0..<10]" by code_simp
  then show "d < 10 \<Longrightarrow> is_digit (digit_char d)" by (simp add: list_all_iff del: upt_Suc)
  have "list_all (\<lambda>d. digit_char d \<in> set ''01234'') [0..<5]" by code_simp
  then show "d < 5 \<Longrightarrow> digit_char d \<in> set ''01234''" unfolding list_all_iff by simp
  have "list_all (\<lambda>d. digit_char d \<in> set ''012345'') [0..<6]" by code_simp
  then show "d < 6 \<Longrightarrow> digit_char d \<in> set ''012345''" unfolding list_all_iff by simp
qed code_simp+

lemma show_int_small:
  "n < 10 \<Longrightarrow> show_int (int n) = [digit_char n]"
  "10 \<le> n \<Longrightarrow> n < 100 \<Longrightarrow> show_int (int n) = [digit_char (n div 10), digit_char (n mod 10)]"
  "100 \<le> n \<Longrightarrow> n < 1000 \<Longrightarrow>
     show_int (int n) = [digit_char (n div 100), digit_char (n div 10 mod 10), digit_char (n mod 10)]"
proof -
  assume "100 \<le> n" "n < 1000"
  then have "n div 100 < 10" "10 \<le> n div 10" "\<not> n div 10 div 10 < 10 \<longrightarrow> False" by auto
  then show "show_int (int n) = [digit_char (n div 100), digit_char (n div 10 mod 10), digit_char (n mod 10)]"
    using \<open>100 \<le> n\<close> by (simp add: show_int_def nat_to_radix.simps div_mult2_eq [symmetric])
qed (simp_all add: show_int_def nat_to_radix.simps)

lemma octet_rests:
  assumes "n < 256"
  shows "rest \<in> set (re_rests octet_re (show_int (int n) @ rest))"
proof -
  consider "n < 10" | "10 \<le> n" "n < 100" | "100 \<le> n" "n < 200" | "200 \<le> n" "n < 250" | "250 \<le> n"
    by linarith
  then show ?thesis
  proof cases
    case 3
    then have "n div 100 = 1" by simp
    then show ?thesis using 3 digit_char_10(4) octet_rests3(1) digit_char_10(1)
      by (simp add: show_int_small)
  next
    case 4
    then have "n div 100 = 2" "n div 10 \<in> {20, 21, 22, 23, 24}" by auto
    then have "n div 100 = 2" "n div 10 mod 10 < 5" by auto
    then show ?thesis using 4 digit_char_10(5) octet_rests3(2) [OF digit_char_10(2)] digit_char_10(1)
      by (simp add: show_int_small del: re_rests.simps)
  next
    case 5
    with assms have "n \<in> {250, 251, 252, 253, 254, 255}" by auto
    then have "n div 100 = 2" "n div 10 mod 10 = 5" "n mod 10 < 6" by auto
    then show ?thesis using 5 assms digit_char_10(5,6) octet_rests3(3) [OF digit_char_10(3)]
      by (simp add: show_int_small del: re_rests.simps)
  qed (simp_all add: show_int_small octet_rests1 octet_rests2 digit_char_10(1))
qed

text \<open>
  A dotted quad of four numbers below 256 is an IPv4 address, whatever single characters stand
  between the numbers, since the dots of the pattern are not escaped.
\<close>

theorem isaddress_dotted_quad:
  assumes "a < 256" "b < 256" "c < 256" "d < 256" "{x, y, z} \<inter> {CHR 10, CHR 13} = {}"
  shows "isaddress (show_int (int a) @ x # show_int (int b) @ y # show_int (int c) @ z # show_int (int d)) = Str ''inet''"
proof -
  have oc: "rest \<in> set (re_rests (Cat octet_re any_char) (show_int (int n) @ q # rest))"
    if "n < 256" "q \<noteq> CHR 10" "q \<noteq> CHR 13" for n q rest
    by (rule rests_Cat [OF octet_rests [OF that(1)]]) (simp add: any_char_def that)
  define f where "f = re_rests (Cat octet_re any_char)"
  define s3 where "s3 = show_int (int d)"
  define s2 where "s2 = show_int (int c) @ z # s3"
  define s1 where "s1 = show_int (int b) @ y # s2"
  define s0 where "s0 = show_int (int a) @ x # s1"
  have "s1 \<in> set (f s0)" "s2 \<in> set (f s1)" "s3 \<in> set (f s2)"
    unfolding f_def s0_def s1_def s2_def using assms by (auto intro!: oc simp del: re_rests.simps)
  then have "s3 \<in> set (rep_rests f 3 3 s0)" by (force simp: numeral_eq_Suc)
  then have "s3 \<in> set (re_rests (Rep 3 3 (Cat octet_re any_char)) s0)" by (simp add: f_def)
  moreover have "[] \<in> set (re_rests octet_re s3)" using octet_rests [OF assms(4), of "[]"] by (simp add: s3_def)
  ultimately have "[] \<in> set (re_rests ipv4_re s0)" unfolding ipv4_re_def by (rule rests_Cat)
  then have "re_search ipv4_re s0" by (cases s0) (auto simp: re_search_def)
  then show ?thesis by (simp add: isaddress_def s0_def s1_def s2_def s3_def)
qed

lemma isaddress_dotted_quad_witness: "isaddress ''192.168.1.255'' = Str ''inet''"
proof -
  have "show_int 192 = ''192''" "show_int 168 = ''168''" "show_int 1 = ''1''" "show_int 255 = ''255''"
    by code_simp+
  then show ?thesis
    using isaddress_dotted_quad [of 192 168 1 255 "CHR ''.''" "CHR ''.''" "CHR ''.''"] by simp
qed

text \<open>
  The unescaped dots also accept the hexadecimal groups and colons of an IPv6 address:
  \<open>2001:1234::1\<close> is taken for an IPv4 address.
\<close>

theorem isaddress_ipv6_as_ipv4: "isaddress ''2001:1234::1'' = Str ''inet'' \<and> isaddress ''fe80::1'' = Str ''inet6''"
  by (intro conjI) code_simp+

section \<open>Network masks\<close>

text \<open>
  \<open>maskFromCidr(mask, ip)\<close> for the prefix lengths the rule grammar produces: each byte is written
  in binary, as \<open>mask\<close> ones and the rest zeros, and parsed back.
\<close>

fun mask_bytes :: "nat \<Rightarrow> nat \<Rightarrow> bytes" where
  "mask_bytes msk 0 = []"
| "mask_bytes msk (Suc n) =
     (let SIZE_BYTE = 8;
          (bits, msk') = (if msk \<ge> SIZE_BYTE then (replicate SIZE_BYTE (CHR ''1''), msk - SIZE_BYTE)
                           else (replicate msk (CHR ''1'') @ replicate (SIZE_BYTE - msk) (CHR ''0''), msk - msk))
      in word_of_int (case parseInt 2 bits of Some v \<Rightarrow> v | None \<Rightarrow> 0) # mask_bytes msk' n)"

definition maskFromCidr :: "nat \<Rightarrow> string \<Rightarrow> string" where
  "maskFromCidr msk ip = to_hex (mask_bytes msk (if ip = ''inet'' then 4 else 16))"

section \<open>MAC addresses\<close>

text \<open>
  The pattern of six or eight groups of two hexadecimal digits: \<open>mac_groups k s\<close> takes \<open>k\<close> groups
  separated by colons from the start of \<open>s\<close>.
\<close>

definition hex_pair :: "string \<Rightarrow> (string \<times> string) option" where
  "hex_pair s =
     (if 2 \<le> length s \<and> is_xdigit (s ! 0) \<and> is_xdigit (s ! 1) then Some (take 2 s, drop 2 s) else None)"

fun mac_groups :: "nat \<Rightarrow> string \<Rightarrow> (string list \<times> string) option" where
  "mac_groups 0 s = Some ([], s)"
| "mac_groups (Suc n) s =
     (case hex_pair s of
        None \<Rightarrow> None
      | Some (g, r) \<Rightarrow>
          if n = 0 then Some ([g], r)
          else case r of
              [] \<Rightarrow> None
            | c # r' \<Rightarrow> if c = CHR '':'' then map_option (\<lambda>(gs, q). (g # gs, q)) (mac_groups n r') else None)"

definition mac_tail :: "string \<Rightarrow> string list option" where
  "mac_tail s =
     (case s of
        [] \<Rightarrow> None
      | c # r \<Rightarrow> if c = CHR '':'' then map_option fst (mac_groups 2 r) else None)"

definition mac_at :: "string \<Rightarrow> string list option" where
  "mac_at s =
     (case mac_groups 6 s of
        None \<Rightarrow> None
      | Some (gs, r) \<Rightarrow> Some (gs @ (case mac_tail r of None \<Rightarrow> [] | Some hs \<Rightarrow> hs)))"

fun re_EUI :: "string \<Rightarrow> string list option" where
  "re_EUI [] = None"
| "re_EUI (c # cs) = (case mac_at (c # cs) of Some gs \<Rightarrow> Some gs | None \<Rightarrow> re_EUI cs)"

definition mac_bytes :: "string list \<Rightarrow> nat \<Rightarrow> bytes" where
  "mac_bytes gs n =
     map (\<lambda>i. if i < length gs then word_of_int (case parseInt 16 (gs ! i) of Some v \<Rightarrow> v | None \<Rightarrow> 0) else 0)
       [0..<n]"

text \<open>
  \<open>bufferifyMacString(str, size)\<close>; \<open>size\<close> is \<open>None\<close> when the argument is left out. When the
  pattern does not match, reading \<open>m[8]\<close> throws; a group that is missing is zero.
\<close>

definition bufferifyMacString :: "string \<Rightarrow> nat option \<Rightarrow> jsval run" where
  "bufferifyMacString str sz =
     (let m = re_EUI str;
          given = (case sz of None \<Rightarrow> 0 | Some n \<Rightarrow> n)
      in if given = 0 \<and> m = None then Throw TypeError
         else case m of
             None \<Rightarrow> Return Null
           | Some gs \<Rightarrow>
               (let n = (if given \<noteq> 0 then given else if length gs > 7 then 8 else 6) in
                Return (Buf (mac_bytes gs n))))"


subsection \<open>Correctness\<close>

lemma parseInt_mask_byte:
  "k \<le> 8 \<Longrightarrow> (\<lambda>v. word_of_int v :: byte) (case parseInt 2 (replicate k (CHR ''1'') @ replicate (8 - k) (CHR ''0'')) of Some v \<Rightarrow> v | None \<Rightarrow> 0)
    = word_of_int (2 ^ 8 - 2 ^ (8 - k))"
proof -
  have "list_all (\<lambda>k. parseInt 2 (replicate k (CHR ''1'') @ replicate (8 - k) (CHR ''0'')) = Some (2 ^ 8 - 2 ^ (8 - k))) [0..<9]"
    by code_simp
  moreover assume "k \<le> 8"
  ultimately show ?thesis by (simp add: list_all_iff)
qed

lemma length_mask_bytes [simp]: "length (mask_bytes m n) = n"
  by (induction n arbitrary: m) (simp_all add: Let_def)

lemma mask_bytes_nth: "i < n \<Longrightarrow> mask_bytes m n ! i = word_of_int (2 ^ 8 - 2 ^ (8 - min 8 (m - 8 * i)))"
proof (induction n arbitrary: m i)
  case (Suc n)
  have hd: "mask_bytes m (Suc n) = word_of_int (2 ^ 8 - 2 ^ (8 - min 8 m)) # mask_bytes (m - 8) n"
    using parseInt_mask_byte [of "min 8 m"] by (auto simp: Let_def min_def)
  show ?case
  proof (cases i)
    case (Suc j)
    then have "mask_bytes (m - 8) n ! j = word_of_int (2 ^ 8 - 2 ^ (8 - min 8 (m - 8 - 8 * j)))"
      using Suc.IH Suc.prems by simp
    with Suc show ?thesis unfolding hd by simp
  qed (simp add: hd del: mask_bytes.simps)
qed simp

lemma mask_byte_bit:
  "k \<le> 8 \<Longrightarrow> j < 8 \<Longrightarrow> bit (word_of_int (2 ^ 8 - 2 ^ (8 - k)) :: byte) (7 - j) \<longleftrightarrow> j < k"
proof -
  assume "k \<le> 8" "j < 8"
  then have "k \<in> {0, 1, 2, 3, 4, 5, 6, 7, 8}" "j \<in> {0, 1, 2, 3, 4, 5, 6, 7}" by auto
  then show ?thesis by (auto simp: bit_simps)
qed

text \<open>
  The mask of a prefix length is the network mask: in the bytes whose hexadecimal text
  \<open>maskFromCidr\<close> returns, counted from the most significant bit of the first byte, exactly the first
  \<open>msk\<close> bits are set; there are 32 of them for \<open>inet\<close> and 128 otherwise.
\<close>

theorem maskFromCidr_bits:
  "\<exists>bs. maskFromCidr msk ip = to_hex bs \<and> length bs = (if ip = ''inet'' then 4 else 16) \<and>
     list_all (\<lambda>j. bit (bs ! (j div 8)) (7 - j mod 8) = (j < msk)) [0..<8 * length bs]"
proof (intro exI conjI)
  let ?bs = "mask_bytes msk (if ip = ''inet'' then 4 else 16)"
  show "maskFromCidr msk ip = to_hex ?bs" by (simp add: maskFromCidr_def)
  have "bit (?bs ! (j div 8)) (7 - j mod 8) = (j < msk)" if "j < 8 * length ?bs" for j
  proof -
    have "j div 8 < length ?bs" using that by linarith
    then have "?bs ! (j div 8) = word_of_int (2 ^ 8 - 2 ^ (8 - min 8 (msk - 8 * (j div 8))))"
      by (intro mask_bytes_nth) simp
    then have "bit (?bs ! (j div 8)) (7 - j mod 8) \<longleftrightarrow> j mod 8 < min 8 (msk - 8 * (j div 8))"
      using mask_byte_bit by simp
    also have "\<dots> \<longleftrightarrow> j < msk" by (simp add: less_diff_conv)
    finally show ?thesis .
  qed
  then show "list_all (\<lambda>j. bit (?bs ! (j div 8)) (7 - j mod 8) = (j < msk)) [0..<8 * length ?bs]"
    by (simp only: list_all_iff set_upt) simp
qed simp

text \<open>The text of a MAC address parses back to its bytes.\<close>

definition mac_text :: "bytes \<Rightarrow> string" where
  "mac_text bs = join_with '':'' (map hex_byte bs)"

lemma hex_pair_byte [simp]: "hex_pair (hex_byte b @ rest) = Some (hex_byte b, rest)"
proof -
  obtain h l where "hex_byte b = [hex_digit h, hex_digit l]" "h < 16" "l < 16"
    using hex_byte_digits by blast
  then show ?thesis by (simp add: hex_pair_def hex_digit_facts numeral_2_eq_2)
qed

lemma mac_groups_text:
  "bs \<noteq> [] \<Longrightarrow> mac_groups (length bs) (mac_text bs @ rest) = Some (map hex_byte bs, rest)"
proof (induction bs)
  case (Cons b bs)
  show ?case
  proof (cases "bs = []")
    case False
    then have "mac_text (b # bs) = hex_byte b @ '':'' @ mac_text bs"
      by (cases bs) (simp_all add: mac_text_def)
    with Cons.IH [OF False] False show ?thesis by (simp del: mac_groups.simps(2) add: mac_groups.simps(2) [of "length bs"])
  qed (simp add: mac_text_def)
qed simp

lemma mac_text_append:
  "bs \<noteq> [] \<Longrightarrow> cs \<noteq> [] \<Longrightarrow> mac_text (bs @ cs) = mac_text bs @ CHR '':'' # mac_text cs"
proof (induction bs)
  case (Cons b bs)
  then show ?case by (cases bs; cases cs) (simp_all add: mac_text_def)
qed simp

lemma re_EUI_mac_at: "mac_at s = Some gs \<Longrightarrow> re_EUI s = Some gs"
  by (cases s) (simp_all add: mac_at_def hex_pair_def numeral_eq_Suc)

lemma re_EUI_mac_text:
  "length bs \<in> {6, 8} \<Longrightarrow> re_EUI (mac_text bs) = Some (map hex_byte bs)"
proof (rule re_EUI_mac_at)
  assume len: "length bs \<in> {6, 8}"
  show "mac_at (mac_text bs) = Some (map hex_byte bs)"
  proof (cases "length bs = 6")
    case True
    then have "mac_groups 6 (mac_text bs) = Some (map hex_byte bs, [])"
      using mac_groups_text [of bs "[]"] by force
    then show ?thesis by (simp add: mac_at_def mac_tail_def)
  next
    case False
    define u v where "u = take 6 bs" and "v = drop 6 bs"
    have uv: "bs = u @ v" "length u = 6" "length v = 2" using len False by (auto simp: u_def v_def)
    then have "u \<noteq> []" "v \<noteq> []" by auto
    then have "mac_groups 6 (mac_text bs) = Some (map hex_byte u, CHR '':'' # mac_text v)"
      "mac_groups 2 (mac_text v) = Some (map hex_byte v, [])"
      using mac_groups_text [of u "CHR '':'' # mac_text v"] mac_groups_text [of v "[]"] uv
      by (simp_all add: mac_text_append)
    then show ?thesis by (simp add: mac_at_def mac_tail_def uv)
  qed
qed

lemma mac_bytes_hex: "mac_bytes (map hex_byte bs) (length bs) = bs"
  by (rule nth_equalityI) (simp_all add: mac_bytes_def parseInt_hex_byte)

lemma bufferify_mac_text:
  assumes "length bs \<in> {6, 8}" "sz \<in> {None, Some (length bs)}"
  shows "bufferifyMacString (mac_text bs) sz = Return (Buf bs)"
  using re_EUI_mac_text [OF assms(1)] assms mac_bytes_hex [of bs]
  by (auto simp: bufferifyMacString_def Let_def)

end
