(* ===== verification/IpParse.thy ===== *)
theory IpParse
  imports RtNetlink Common
begin

text \<open>
  \<open>ip/ipparse.js\<close>: turning the parsed attributes of an rtnetlink message into the object handed to
  the user of the library, and deciding whether the user's filters let it pass. The native functions
  \<open>fromAddress\<close>, \<open>toAddress\<close> and \<open>ifNameToIndex\<close> of the addon are a parameter.
\<close>

text \<open>
  The addon's functions return a value or an \<open>Error\<close> object; they do not throw.
\<close>

record native =
  fromAddress :: "jsval \<Rightarrow> jsval \<Rightarrow> jsval"
  toAddress :: "jsval \<Rightarrow> jsval \<Rightarrow> jsval"
  ifNameToIndex :: "jsval \<Rightarrow> jsval"

section \<open>Tables\<close>

definition link_oper_states :: "string list" where
  "link_oper_states =
     [''UNKNOWN'', ''NOTPRESENT'', ''DOWN'', ''LOWERLAYERDOWN'', ''TESTING'', ''DORMANT'', ''UP'']"

definition net_device_flags :: "(int \<times> string) list" where
  "net_device_flags =
     [(0x00001, ''IFF_UP''), (0x00002, ''IFF_BROADCAST''), (0x00004, ''IFF_DEBUG''),
      (0x00008, ''IFF_LOOPBACK''), (0x00010, ''IFF_POINTOPOINT''), (0x00020, ''IFF_NOTRAILERS''),
      (0x00040, ''IFF_RUNNING''), (0x00080, ''IFF_NOARP''), (0x00100, ''IFF_PROMISC''),
      (0x00200, ''IFF_ALLMULTI''), (0x00400, ''IFF_MASTER''), (0x00800, ''IFF_SLAVE''),
      (0x01000, ''IFF_MULTICAST''), (0x02000, ''IFF_PORTSEL''), (0x04000, ''IFF_AUTOMEDIA''),
      (0x08000, ''IFF_DYNAMIC''), (0x10000, ''IFF_LOWER_UP''), (0x20000, ''IFF_DORMANT''),
      (0x40000, ''IFF_ECHO'')]"

text \<open>
  Objects with integer keys are enumerated in ascending order of the keys, whatever the order in the
  source.
\<close>

definition protocol_map :: "(int \<times> string) list" where
  "protocol_map =
     [(0, ''unspec''), (1, ''redirect''), (2, ''kernel''), (3, ''boot''), (4, ''static''), (8, ''gated''),
      (9, ''ra''), (10, ''mrt''), (11, ''zebra''), (12, ''bird''), (13, ''dnrouted''), (14, ''xorp''),
      (15, ''ntk''), (16, ''dhcp''), (17, ''mrouted''), (42, ''babel'')]"

definition table_map :: "(int \<times> string) list" where
  "table_map = [(0, ''unspec''), (252, ''compat''), (253, ''default''), (254, ''main''), (255, ''local'')]"

definition route_flags :: "(int \<times> string) list" where
  "route_flags =
     [(1, ''dead''), (2, ''pervasive''), (4, ''onlink''), (0x100, ''notify''), (0x200, ''cloned''),
      (0x400, ''equalize''), (0x800, ''prefix'')]"

definition neigh_flags :: "(int \<times> string) list" where
  "neigh_flags =
     [(0x01, ''use''), (0x02, ''self''), (0x04, ''master''), (0x08, ''proxy''), (0x80, ''router'')]"

definition neigh_states :: "(int \<times> string) list" where
  "neigh_states =
     [(0x01, ''incomplete''), (0x02, ''reachable''), (0x04, ''stale''), (0x08, ''delay''), (0x10, ''probe''),
      (0x20, ''failed''), (0x40, ''noarp''), (0x80, ''permanent'')]"

section \<open>Decoding of single fields\<close>

text \<open>\<open>==\<close> between a value and a number: a string is converted, here when it is all digits.\<close>

definition loose_eq_num :: "jsval \<Rightarrow> int \<Rightarrow> bool" where
  "loose_eq_num v k =
     (case v of
        Num n \<Rightarrow> n = k
      | JBool b \<Rightarrow> (if b then 1 else 0) = k
      | Str s \<Rightarrow> s \<noteq> [] \<and> list_all is_digit s \<and> int (digits_value 10 s) = k
      | _ \<Rightarrow> False)"

text \<open>
  The loops of \<open>getFlags\<close> and \<open>getLinkDeviceFlags\<close>: the names of the entries whose bit is set,
  separated by commas.
\<close>

fun flags_loop :: "(int \<times> string) list \<Rightarrow> int \<Rightarrow> string \<Rightarrow> string" where
  "flags_loop [] f flags_str = flags_str"
| "flags_loop ((k, nm) # tab) f flags_str =
     (if js_and f k \<noteq> 0 then flags_loop tab f ((if flags_str \<noteq> [] then flags_str @ '','' else flags_str) @ nm)
      else flags_loop tab f flags_str)"

definition getFlags :: "(int \<times> string) list \<Rightarrow> jsval \<Rightarrow> string" where
  "getFlags flags f = flags_loop flags (num_or_0 f) []"

definition getLinkDeviceFlags :: "jsval \<Rightarrow> string" where
  "getLinkDeviceFlags flags = flags_loop net_device_flags (num_or_0 flags) []"

definition getFamily :: "jsval \<Rightarrow> jsval" where
  "getFamily fam = (if loose_eq_num fam AF_INET then Str ''inet'' else Str ''inet6'')"

text \<open>Tables and switches give the value itself when they have no entry for it.\<close>

definition lookup_num :: "(int \<times> string) list \<Rightarrow> jsval \<Rightarrow> jsval" where
  "lookup_num tab v =
     (case v of Num n \<Rightarrow> (case map_of tab n of Some s \<Rightarrow> Str s | None \<Rightarrow> v) | _ \<Rightarrow> v)"

definition getScope :: "jsval \<Rightarrow> jsval" where
  "getScope sco =
     lookup_num [(0, ''global''), (200, ''local''), (253, ''link''), (254, ''host''), (255, ''nowhere'')] sco"

definition getRouteProtocol :: "jsval \<Rightarrow> jsval" where
  "getRouteProtocol proto = lookup_num protocol_map proto"

definition getRouteTable :: "jsval \<Rightarrow> jsval" where
  "getRouteTable table = lookup_num table_map table"

definition routeType :: "jsval \<Rightarrow> jsval" where
  "routeType tid =
     lookup_num
       [(0, ''none''), (1, ''unicast''), (2, ''local''), (3, ''broadcast''), (4, ''anycast''),
        (5, ''multicast''), (6, ''blackhole''), (7, ''unreachable''), (8, ''prohibit''), (9, ''throw''),
        (10, ''nat''), (11, ''xresolve'')] tid"

definition calcHostLen :: "jsval \<Rightarrow> int" where
  "calcHostLen family =
     (if loose_eq_num family AF_INET6 then 128 else if loose_eq_num family AF_INET then 32 else 0)"

fun hex_addr_loop :: "bytes \<Rightarrow> string \<Rightarrow> string" where
  "hex_addr_loop [] addr = addr"
| "hex_addr_loop (b # bs) addr = hex_addr_loop bs ((if addr \<noteq> [] then addr @ '':'' else addr) @ hex_byte b)"

definition getBufferAsHexAddr :: "jsval \<Rightarrow> string run" where
  "getBufferAsHexAddr v =
     (case v of
        Buf b \<Rightarrow> Return (hex_addr_loop b [])
      | Undef \<Rightarrow> Throw TypeError
      | Null \<Rightarrow> Throw TypeError
      | _ \<Rightarrow> Throw (NotModelled ''hex address of a value that is not a buffer''))"

text \<open>
  \<open>getLinkFromIndex(links, index)\<close>: the first link whose payload has the (non-zero) index; \<open>links\<close> is
  an array, or \<open>undefined\<close>, over which \<open>for ... in\<close> does nothing.
\<close>

fun find_link :: "jsval list \<Rightarrow> jsval \<Rightarrow> jsval run" where
  "find_link [] index = Return Undef"
| "find_link (l # ls) index =
     run_bind (get_prop l ''payload'') (\<lambda>payload.
       if truthy payload then
         run_bind (get_prop payload ''_if_index'') (\<lambda>lindex.
           if truthy lindex \<and> strict_eq lindex index then Return l else find_link ls index)
       else find_link ls index)"

definition getLinkFromIndex :: "jsval \<Rightarrow> jsval \<Rightarrow> jsval run" where
  "getLinkFromIndex links index =
     (case links of
        Arr ls \<Rightarrow> find_link ls index
      | Obj ps \<Rightarrow> find_link (map snd ps) index
      | Undef \<Rightarrow> Return Undef
      | Null \<Rightarrow> Return Undef
      | _ \<Rightarrow> Throw (NotModelled ''links''))"

section \<open>The events\<close>

text \<open>
  \<open>rt.bufToArray(v, 0, v.length)\<close> of an attribute, and the address text the addon makes of it. An
  attribute that is absent has no \<open>length\<close>; a text attribute has no \<open>readUInt8\<close>.
\<close>

definition attr_array :: "jsval \<Rightarrow> jsval run" where
  "attr_array v =
     (case v of
        Buf b \<Rightarrow> run_bind (bufToArray b 0 (length b)) (\<lambda>bs. Return (Arr (map Num bs)))
      | Str s \<Rightarrow> if s = [] then Return (Arr []) else Throw TypeError
      | Undef \<Rightarrow> Throw TypeError
      | Null \<Rightarrow> Throw TypeError
      | _ \<Rightarrow> Throw (NotModelled ''attribute that is neither buffer nor text''))"

definition address_of :: "native \<Rightarrow> jsval \<Rightarrow> jsval \<Rightarrow> jsval run" where
  "address_of nb v family =
     run_bind (attr_array v) (\<lambda>a. get_prop (fromAddress nb a family) ''address'')"

text \<open>Both branches of \<open>getRouteAddress\<close> produce the address with its prefix length.\<close>

definition getRouteAddress :: "native \<Rightarrow> jsval \<Rightarrow> jsval \<Rightarrow> jsval \<Rightarrow> jsval run" where
  "getRouteAddress nb address len family =
     (if address \<noteq> Undef then
        run_bind (attr_array address) (\<lambda>addr_a.
          let addr = fromAddress nb addr_a family in
          if \<not> loose_eq_num len (calcHostLen family) then
            run_bind (get_prop addr ''address'') (\<lambda>a. Return (Str (to_string a @ ''/'' @ to_string len)))
          else
            (let name = '''' in
             if length name = 0 then
               run_bind (get_prop addr ''address'') (\<lambda>a. Return (Str (to_string a @ ''/'' @ to_string len)))
             else Return (Str name)))
      else if (case len of Num n \<Rightarrow> n > 0 | _ \<Rightarrow> False) then Return (Str (''0/'' @ to_string len))
      else Return (Str ''default''))"

definition readUInt32LE_of :: "jsval \<Rightarrow> jsval run" where
  "readUInt32LE_of v =
     (case v of Buf b \<Rightarrow> run_bind (readUInt32LE b 0) (\<lambda>n. Return (Num n)) | _ \<Rightarrow> Throw TypeError)"

definition readUInt8_of :: "jsval \<Rightarrow> int run" where
  "readUInt8_of v = (case v of Buf b \<Rightarrow> readUInt8 b 0 | _ \<Rightarrow> Throw TypeError)"

text \<open>
  The comparison \<open>mark >= 16\<close> converts the buffer to text and the text to a number; it is false when
  the text holds no digit, and the mark stays a buffer.
\<close>

definition route_mark :: "jsval \<Rightarrow> jsval run" where
  "route_mark v =
     (case v of
        Buf b \<Rightarrow> if length b < 8 \<and> list_all (\<lambda>x. \<not> is_digit (ascii_char x)) b then Return v
                 else Throw (NotModelled ''number conversion of a buffer'')
      | _ \<Rightarrow> Throw (NotModelled ''mark that is not a buffer''))"

definition payload_prop :: "props \<Rightarrow> string \<Rightarrow> jsval run" where
  "payload_prop ch k = get_prop (obj_get ch ''payload'') k"

definition getRouteEventObj :: "native \<Rightarrow> props \<Rightarrow> jsval run" where
  "getRouteEventObj nb ch =
     run_bind (payload_prop ch ''_type'') (\<lambda>ty.
     run_bind (payload_prop ch ''_family'') (\<lambda>fam.
     run_bind (payload_prop ch ''_dst_len'') (\<lambda>dest_len.
     run_bind (getRouteAddress nb (obj_get ch ''dst'') dest_len fam) (\<lambda>address.
     run_bind (payload_prop ch ''_src_len'') (\<lambda>src_len.
     run_bind (getRouteAddress nb (obj_get ch ''src'') src_len (getFamily fam)) (\<lambda>src.
     run_bind (payload_prop ch ''_table'') (\<lambda>table.
     run_bind (payload_prop ch ''_protocol'') (\<lambda>protocol.
     run_bind (payload_prop ch ''_scope'') (\<lambda>sco.
     run_bind (if obj_get ch ''prefsrc'' = Undef then Return []
               else run_bind (address_of nb (obj_get ch ''prefsrc'') fam) (\<lambda>a. Return [(''prefsrc'', a)])) (\<lambda>prefsrc.
     run_bind (if obj_get ch ''gateway'' = Undef then Return []
               else run_bind (address_of nb (obj_get ch ''gateway'') fam) (\<lambda>a. Return [(''gateway'', a)])) (\<lambda>gateway.
     run_bind (if obj_get ch ''mark'' = Undef then Return []
               else run_bind (route_mark (obj_get ch ''mark'')) (\<lambda>m. Return [(''mark'', m)])) (\<lambda>mark.
     run_bind (if obj_get ch ''priority'' = Undef then Return []
               else run_bind (readUInt32LE_of (obj_get ch ''priority'')) (\<lambda>m. Return [(''priority'', m)])) (\<lambda>priority.
     run_bind (payload_prop ch ''_flags'') (\<lambda>flags.
       Return (Obj
         ([(''name'', obj_get ch ''operation''), (''type'', routeType ty), (''family'', getFamily fam),
           (''address'', address), (''src'', src), (''table'', getRouteTable table),
           (''protocol'', getRouteProtocol protocol), (''scope'', getScope sco)]
          @ prefsrc @ gateway @ mark @ priority
          @ (if num_or_0 flags > 0 then [(''flags'', Str (getFlags route_flags flags))] else [])))))))))))))))))"

text \<open>
  \<open>packageInfoLink\<close> fills the event inside a \<open>try\<close> and returns what it has when a step throws.
\<close>

definition link_event_steps :: "props \<Rightarrow> (props \<Rightarrow> props run) list" where
  "link_event_steps ch =
     [\<lambda>ev. Return (obj_set ''name'' (obj_get ch ''operation'') ev),
      \<lambda>ev. if obj_get ch ''operstate'' = Undef then Return ev
           else run_bind (readUInt8_of (obj_get ch ''operstate'')) (\<lambda>i.
                  Return (obj_set ''state''
                    (if nat i < length link_oper_states then Str (link_oper_states ! nat i) else Undef) ev)),
      \<lambda>ev. if obj_get ch ''address'' = Undef then Return ev
           else run_bind (getBufferAsHexAddr (obj_get ch ''address'')) (\<lambda>a.
                  Return (obj_set ''address'' (Str a) ev)),
      \<lambda>ev. if obj_get ch ''broadcast'' = Undef then Return ev
           else run_bind (getBufferAsHexAddr (obj_get ch ''broadcast'')) (\<lambda>a.
                  Return (obj_set ''broadcast'' (Str a) ev)),
      \<lambda>ev. run_bind (payload_prop ch ''_if_flags'') (\<lambda>f.
                  Return (obj_set ''flags'' (Str (getLinkDeviceFlags f)) ev))]"

definition packageInfoLink :: "native \<Rightarrow> props \<Rightarrow> jsval \<Rightarrow> jsval run" where
  "packageInfoLink nb ch links =
     run_bind (try_steps (link_event_steps ch) []) (\<lambda>ev.
       Return (Obj [(''ifname'', obj_get ch ''ifname''), (''ifnum'', ifNameToIndex nb (obj_get ch ''ifname'')),
                    (''event'', Obj ev)]))"

definition packageInfoAddress :: "native \<Rightarrow> props \<Rightarrow> jsval \<Rightarrow> jsval run" where
  "packageInfoAddress nb ch links =
     run_bind (attr_array (obj_get ch ''address'')) (\<lambda>addr_ar.
     run_bind (payload_prop ch ''_family'') (\<lambda>fam.
     let addr = fromAddress nb addr_ar fam; lbl = obj_get ch ''label'' in
     run_bind (payload_prop ch ''_index'') (\<lambda>linkno.
     run_bind (getLinkFromIndex links linkno) (\<lambda>link.
     run_bind (get_prop link ''ifname'') (\<lambda>ifname.
     run_bind (get_prop addr ''address'') (\<lambda>address.
     run_bind (payload_prop ch ''_prefix_len'') (\<lambda>plen.
     run_bind (get_prop addr ''family'') (\<lambda>family.
     run_bind (payload_prop ch ''_scope'') (\<lambda>sco.
       Return (Obj
         [(''ifname'', ifname), (''ifnum'', linkno),
          (''event'', Obj
             ([(''name'', obj_get ch ''operation''), (''address'', Str (to_string address @ ''/'' @ to_string plen)),
               (''family'', getFamily family), (''scope'', getScope sco)]
              @ (if truthy lbl then [(''label'', lbl)] else [])))]))))))))))"

definition packageInfoRoute :: "native \<Rightarrow> props \<Rightarrow> jsval \<Rightarrow> jsval run" where
  "packageInfoRoute nb ch links =
     run_bind (readUInt32LE_of (obj_get ch ''oif'')) (\<lambda>oif.
     run_bind (getRouteEventObj nb ch) (\<lambda>ev.
     run_bind (getLinkFromIndex links oif) (\<lambda>link.
     run_bind (get_prop link ''ifname'') (\<lambda>ifname.
       Return (Obj [(''ifname'', ifname), (''ifnum'', oif), (''event'', ev)])))))"

text \<open>A neighbour in state \<open>noarp\<close> is dropped: the function returns \<open>undefined\<close>.\<close>

definition packageInfoNeighbor :: "native \<Rightarrow> props \<Rightarrow> jsval \<Rightarrow> jsval run" where
  "packageInfoNeighbor nb ch links =
     run_bind (payload_prop ch ''_state'') (\<lambda>st.
     let state = getFlags neigh_states st in
     if state = ''noarp'' then Return Undef
     else
     run_bind (payload_prop ch ''_ifindex'') (\<lambda>oif.
     run_bind (getLinkFromIndex links oif) (\<lambda>link.
     run_bind (get_prop link ''ifname'') (\<lambda>ifname.
     run_bind (payload_prop ch ''_family'') (\<lambda>fam.
     run_bind (if truthy (obj_get ch ''dst'') then
                 run_bind (address_of nb (obj_get ch ''dst'') fam) (\<lambda>a. Return [(''destination'', a)])
               else Return []) (\<lambda>destination.
     run_bind (if truthy (obj_get ch ''lladdr'') then
                 run_bind (getBufferAsHexAddr (obj_get ch ''lladdr'')) (\<lambda>a. Return [(''lladdr'', Str a)])
               else Return []) (\<lambda>lladdr.
     run_bind (payload_prop ch ''_flags'') (\<lambda>flags.
       Return (Obj
         [(''ifname'', ifname), (''ifnum'', oif),
          (''event'', Obj
             (destination @ lladdr @ [(''state'', Str state)]
              @ (if truthy flags then [(''flags'', Str (getFlags neigh_flags flags))] else [])))])))))))))"

section \<open>Filters\<close>

text \<open>
  One filter: each of its properties is compared with the property of the data, or, when the data has
  none, with that of the event, or, when the event has none either, ignored.
\<close>

fun filter_match :: "props \<Rightarrow> props \<Rightarrow> props \<Rightarrow> bool" where
  "filter_match data ev [] = True"
| "filter_match data ev ((fkey, v) # fs) =
     (if obj_get data fkey \<noteq> Undef then
        (if \<not> strict_eq (obj_get data fkey) v then False else filter_match data ev fs)
      else if map_of ev fkey \<noteq> None \<and> \<not> strict_eq (obj_get ev fkey) v then False
      else filter_match data ev fs)"

text \<open>The properties \<open>for ... in\<close> visits; other values have none the data could have.\<close>

definition filter_props :: "jsval \<Rightarrow> props" where
  "filter_props f = (case f of Obj ps \<Rightarrow> ps | _ \<Rightarrow> [])"

definition obj_props :: "jsval \<Rightarrow> props" where
  "obj_props v = (case v of Obj ps \<Rightarrow> ps | _ \<Rightarrow> [])"

text \<open>
  The data is an object with an event, as lemma \<open>handler_event\<close> below shows; without one the code would throw.
\<close>

definition apply_filters :: "jsval \<Rightarrow> jsval \<Rightarrow> jsval" where
  "apply_filters filters data =
     (if data = Undef then Undef
      else if filters = Undef then data
      else
        let filters_array = (case filters of Arr fs \<Rightarrow> fs | _ \<Rightarrow> [filters]);
            ps = obj_props data;
            ev = obj_props (obj_get ps ''event'');
            applies = (if filters_array = [] then True
                       else list_ex (\<lambda>f. filter_match ps ev (filter_props f)) filters_array)
        in if applies then data else Undef)"

definition handler :: "string \<Rightarrow> (native \<Rightarrow> props \<Rightarrow> jsval \<Rightarrow> jsval run) option" where
  "handler name =
     map_of [(''packageInfoLink'', packageInfoLink), (''packageInfoAddress'', packageInfoAddress),
             (''packageInfoRoute'', packageInfoRoute), (''packageInfoNeighbor'', packageInfoNeighbor)] name"

text \<open>
  \<open>parseAttributes(filters, links, buf)\<close>. A handler that throws (or that does not exist) is reported
  and gives \<open>undefined\<close>.
\<close>

definition parseAttributes :: "native \<Rightarrow> jsval \<Rightarrow> jsval \<Rightarrow> jsval \<Rightarrow> jsval run" where
  "parseAttributes nb filters links buf =
     run_bind (parseRtattributes buf) (\<lambda>at.
       case obj_get at ''operation'' of
         Undef \<Rightarrow> Return Undef
       | op1 \<Rightarrow>
           run_bind
             (run_try
                (case handler (''packageInfo'' @ drop 3 (to_string op1)) of
                   None \<Rightarrow> Throw TypeError
                 | Some h \<Rightarrow> h nb at links)
                (Return Undef))
             (\<lambda>data. Return (apply_filters filters data)))"

section \<open>Flag names\<close>

lemma flags_loop_join:
  assumes "[] \<notin> snd ` set tab"
  shows "flags_loop tab f acc =
    (let ns = map snd (filter (\<lambda>(k, nm). js_and f k \<noteq> 0) tab)
     in if acc = [] then join_with '','' ns else join_with '','' (acc # ns))"
  using assms
proof (induction tab arbitrary: acc)
  case (Cons e tab)
  obtain k nm where e: "e = (k, nm)" by (cases e)
  have ne: "nm \<noteq> []" and IH: "\<And>acc. flags_loop tab f acc =
    (let ns = map snd (filter (\<lambda>(k, nm). js_and f k \<noteq> 0) tab)
     in if acc = [] then join_with '','' ns else join_with '','' (acc # ns))"
    using Cons.prems by (auto simp: e intro!: Cons.IH)
  have jw: "join_with '','' ((a @ '','' @ b) # ns) = join_with '','' (a # b # ns)" for a b ns
    by (cases ns) simp_all
  show ?case using ne IH jw [of acc nm] by (simp add: e Let_def)
qed simp

lemma js_and_pow2: "i < 31 \<Longrightarrow> js_and f (2 ^ i) \<noteq> 0 \<longleftrightarrow> bit f i"
proof -
  assume i: "i < 31"
  have nz: "a AND b = 0 \<longleftrightarrow> (\<forall>j. \<not> (bit a j \<and> bit b j))" for a b :: int
    by (auto simp: bit_eq_iff bit_simps)
  have "bit (to_int32 f) j \<and> bit (to_int32 (2 ^ i)) j \<longleftrightarrow> j = i \<and> bit f i" for j
    using i by (auto simp: to_int32_def bit_simps min_def)
  then show ?thesis by (simp add: js_and_def nz)
qed

lemma pow2_table:
  assumes "\<And>i. i < length tab \<Longrightarrow> fst (tab ! i) = 2 ^ i" "length tab \<le> 31"
  shows "map snd (filter (\<lambda>(k, nm). js_and f k \<noteq> 0) tab) = map (\<lambda>i. snd (tab ! i)) (filter (bit f) [0..<length tab])"
proof -
  have "map snd (filter (\<lambda>(k, nm). js_and f k \<noteq> 0) tab)
      = map snd (filter (\<lambda>(k, nm). js_and f k \<noteq> 0) (map (nth tab) [0..<length tab]))"
    by (simp only: map_nth)
  also have "\<dots> = map (\<lambda>i. snd (tab ! i)) (filter ((\<lambda>(k, nm). js_and f k \<noteq> 0) \<circ> nth tab) [0..<length tab])"
    by (simp add: filter_map)
  also have "filter ((\<lambda>(k, nm). js_and f k \<noteq> 0) \<circ> nth tab) [0..<length tab] = filter (bit f) [0..<length tab]"
    using assms js_and_pow2 by (intro filter_cong) (auto simp: split_beta)
  finally show ?thesis .
qed

text \<open>
  The flags of a link are printed as the names of exactly the set bits among the first nineteen,
  from the lowest to the highest, separated by commas; bits beyond the table print nothing.
\<close>

theorem getLinkDeviceFlags_bits:
  "getLinkDeviceFlags (Num f) = join_with '','' (map (\<lambda>i. snd (net_device_flags ! i)) (filter (bit f) [0..<19]))"
proof -
  have "[] \<notin> snd ` set net_device_flags" by (simp add: net_device_flags_def)
  moreover have "length net_device_flags = 19" by (simp add: net_device_flags_def)
  moreover have "list_all (\<lambda>i. fst (net_device_flags ! i) = 2 ^ i) [0..<19]" by code_simp
  ultimately show ?thesis unfolding list_all_iff
    using pow2_table [of net_device_flags f] by (simp add: getLinkDeviceFlags_def num_or_0_def flags_loop_join del: upt_rec_numeral)
qed

text \<open>
  The same for neighbours: the states are the bits 0 to 7 of the state word. The object with the
  neighbour flags lists \<open>proxy\<close> (8) second in the source, and is enumerated by number.
\<close>

lemma getFlags_neigh_states:
  "getFlags neigh_states (Num f) = join_with '','' (map (\<lambda>i. snd (neigh_states ! i)) (filter (bit f) [0..<8]))"
proof -
  have "[] \<notin> snd ` set neigh_states" by (simp add: neigh_states_def)
  moreover have "length neigh_states = 8" by (simp add: neigh_states_def)
  moreover have "list_all (\<lambda>i. fst (neigh_states ! i) = 2 ^ i) [0..<8]" by code_simp
  ultimately show ?thesis unfolding list_all_iff
    using pow2_table [of neigh_states f] by (simp add: getFlags_def num_or_0_def flags_loop_join del: upt_rec_numeral)
qed

section \<open>Hardware addresses\<close>

lemma hex_addr_loop_text:
  "hex_addr_loop bs acc = (if acc = [] then mac_text bs else join_with '':'' (acc # map hex_byte bs))"
proof (induction bs arbitrary: acc)
  case (Cons b bs)
  have "hex_byte b \<noteq> []" by (simp add: hex_byte_def)
  moreover have "join_with '':'' ((acc @ '':'' @ hex_byte b) # map hex_byte bs) = join_with '':'' (acc # hex_byte b # map hex_byte bs)"
    by (cases bs) simp_all
  ultimately show ?case by (simp add: Cons mac_text_def)
qed (simp add: mac_text_def)

lemma getBufferAsHexAddr_text: "getBufferAsHexAddr (Buf bs) = Return (mac_text bs)"
  by (simp add: getBufferAsHexAddr_def hex_addr_loop_text)

text \<open>
  C29. Printing a hardware address of six or eight bytes and reading it back with
  \<open>bufferifyMacString\<close>, with or without the size, gives the bytes.
\<close>

theorem hex_addr_roundtrip:
  assumes "length bs \<in> {6, 8}" "sz \<in> {None, Some (length bs)}"
  shows "run_bind (getBufferAsHexAddr (Buf bs)) (\<lambda>s. bufferifyMacString s sz) = Return (Buf bs)"
  by (simp add: getBufferAsHexAddr_text bufferify_mac_text [OF assms])

lemma hex_addr_roundtrip_witness:
  "run_bind (getBufferAsHexAddr (Buf [0, 26, 43, 255, 16, 9])) (\<lambda>s. bufferifyMacString s None)
    = Return (Buf [0, 26, 43, 255, 16, 9])"
  by (rule hex_addr_roundtrip) simp_all

section \<open>What the filters accept\<close>

text \<open>A property is compared with the data first, then with the event, and is ignored elsewhere.\<close>

definition filter_value :: "props \<Rightarrow> props \<Rightarrow> string \<Rightarrow> jsval option" where
  "filter_value data ev k =
     (if obj_get data k \<noteq> Undef then Some (obj_get data k) else map_of ev k)"

lemma filter_match_iff:
  "filter_match data ev fs \<longleftrightarrow>
     (\<forall>(k, v) \<in> set fs. case filter_value data ev k of None \<Rightarrow> True | Some w \<Rightarrow> strict_eq w v)"
proof (induction data ev fs rule: filter_match.induct)
  case (2 data ev k v fs)
  then show ?case
    by (cases "map_of ev k") (auto simp: filter_value_def obj_get_def split: if_splits)
qed simp

text \<open>
  C30. Filtering: data passes exactly when there are no filters, the list of filters is empty, or some
  filter agrees with the data on each of its properties that the data or its event has; and what
  passes is the data itself, unchanged.
\<close>

theorem apply_filters_spec:
  "apply_filters filters (Obj ps) =
     (if filters = Undef \<or> filters = Arr [] \<or>
         list_ex (\<lambda>f. list_all (\<lambda>(k, v). case filter_value ps (obj_props (obj_get ps ''event'')) k of
                                       None \<Rightarrow> True | Some w \<Rightarrow> strict_eq w v) (filter_props f))
           (case filters of Arr fs \<Rightarrow> fs | f \<Rightarrow> [f])
      then Obj ps else Undef)"
  by (cases filters) (auto simp: apply_filters_def obj_props_def Let_def filter_match_iff list_all_iff list_ex_iff)

section \<open>Errors of the handlers\<close>

declare run_bind_eq_Diverge_iff [simp]

lemma bufToArray_not_Diverge [simp]: "bufToArray b i n \<noteq> Diverge"
proof -
  have "bufToArray_loop b i n \<noteq> Diverge" by (induction n arbitrary: i) simp_all
  then show ?thesis by (simp add: bufToArray_def)
qed

lemma find_link_not_Diverge [simp]: "find_link ls i \<noteq> Diverge"
  by (induction ls) simp_all

lemma attr_not_Diverge [simp]:
  "attr_array v \<noteq> Diverge" "readUInt32LE_of v \<noteq> Diverge" "readUInt8_of v \<noteq> Diverge"
  "getBufferAsHexAddr v \<noteq> Diverge" "route_mark v \<noteq> Diverge" "payload_prop ch k \<noteq> Diverge"
  "getLinkFromIndex v i \<noteq> Diverge"
  by (simp_all add: attr_array_def readUInt32LE_of_def readUInt8_of_def getBufferAsHexAddr_def route_mark_def
      payload_prop_def getLinkFromIndex_def split: jsval.splits)

lemma address_not_Diverge [simp]:
  "address_of nb v f \<noteq> Diverge" "getRouteAddress nb a l f \<noteq> Diverge"
  by (simp_all add: address_of_def getRouteAddress_def Let_def)

lemma try_steps_not_Diverge: "list_all (\<lambda>f. \<forall>s. f s \<noteq> Diverge) fs \<Longrightarrow> try_steps fs s \<noteq> Diverge"
  by (induction fs arbitrary: s) (auto split: run.splits)

lemma package_not_Diverge:
  "packageInfoLink nb ch links \<noteq> Diverge" "packageInfoAddress nb ch links \<noteq> Diverge"
  "packageInfoRoute nb ch links \<noteq> Diverge" "packageInfoNeighbor nb ch links \<noteq> Diverge"
proof -
  have "list_all (\<lambda>f. \<forall>s. f s \<noteq> Diverge) (link_event_steps ch)" by (simp add: link_event_steps_def)
  then show "packageInfoLink nb ch links \<noteq> Diverge"
    using try_steps_not_Diverge by (simp add: packageInfoLink_def)
  have "getRouteEventObj nb ch \<noteq> Diverge" by (simp add: getRouteEventObj_def)
  then show "packageInfoRoute nb ch links \<noteq> Diverge" by (simp add: packageInfoRoute_def)
qed (simp_all add: packageInfoAddress_def packageInfoNeighbor_def Let_def)

text \<open>
  Once the attributes of a message are parsed, \<open>parseAttributes\<close> does not throw and ends, whatever is
  missing or malformed among them: a handler that fails yields \<open>undefined\<close>. The second case is a conversion
  outside the model.
\<close>

lemma parseAttributes_catches:
  assumes "parseRtattributes buf = Return at"
  shows "(\<exists>v. parseAttributes nb filters links buf = Return v)
    \<or> (\<exists>m. parseAttributes nb filters links buf = Throw (NotModelled m))"
proof -
  have h: "handler n = Some f \<Longrightarrow> f nb at links \<noteq> Diverge" for n f
    using package_not_Diverge by (auto simp: handler_def split: if_splits)
  define r where "r = (case handler (''packageInfo'' @ drop 3 (to_string (obj_get at ''operation''))) of
      None \<Rightarrow> Throw TypeError | Some h \<Rightarrow> h nb at links)"
  have "r \<noteq> Diverge" using h by (auto simp: r_def split: option.splits)
  then have "(\<exists>v. run_try r (Return Undef) = Return v) \<or> (\<exists>m. run_try r (Return Undef) = Throw (NotModelled m))"
    by (cases r; cases "\<exists>e. r = Throw e") (auto elim: not_modelled.elims)
  then show ?thesis
    unfolding parseAttributes_def using assms by (cases "obj_get at ''operation''") (auto simp: r_def)
qed

text \<open>
  What a handler returns is \<open>undefined\<close> or an object with an event that is an object. So the filters, which
  call \<open>ev.hasOwnProperty\<close> without a test, always have an event to look at.
\<close>

definition has_event :: "jsval \<Rightarrow> bool" where
  "has_event v \<longleftrightarrow> v = Undef \<or> (\<exists>ps ev. v = Obj ps \<and> obj_get ps ''event'' = Obj ev)"

lemma has_eventI [simp]: "has_event Undef" "has_event (Obj [(''ifname'', a), (''ifnum'', b), (''event'', Obj ev)])"
  by (simp_all add: has_event_def obj_get_def)

lemma getRouteEventObj_object: "getRouteEventObj nb ch = Return ev \<Longrightarrow> \<exists>ps. ev = Obj ps"
  by (auto simp: getRouteEventObj_def)

lemma handler_event: "handler name = Some h \<Longrightarrow> h nb ch links = Return v \<Longrightarrow> has_event v"
  by (auto simp: handler_def packageInfoLink_def packageInfoAddress_def packageInfoRoute_def packageInfoNeighbor_def Let_def
      split: if_splits dest!: getRouteEventObj_object)

section \<open>A link event from end to end\<close>

lemma ascii_char_of_char: "of_char c < (128 :: nat) \<Longrightarrow> ascii_char (of_char c) = c"
proof -
  assume c: "of_char c < (128 :: nat)"
  have "(of_char c :: byte) = word_of_nat (of_char c)" by (simp only: of_nat_of_char)
  then have "uint (of_char c :: byte) = int (of_char c) mod 256" by (simp only: uint_nat unat_of_nat zmod_int) simp
  with c have "uint (of_char c :: byte) mod 128 = int (of_char c)" by simp
  then show ?thesis unfolding ascii_char_def by (simp only: of_nat_of_char char_of_char)
qed

lemma ascii_bytes_of_string: "list_all (\<lambda>c. of_char c < (128 :: nat)) s \<Longrightarrow> map ascii_char (bytes_of_string s) = s"
  by (induction s) (simp_all add: bytes_of_string_def ascii_char_of_char)

text \<open>What is reported of a link with a name, a hardware address and flags.\<close>

definition link_data :: "native \<Rightarrow> string \<times> bytes \<times> int \<Rightarrow> jsval" where
  "link_data nb d = (case d of (ifname, mac, if_flags) \<Rightarrow>
     Obj [(''ifname'', Str ifname), (''ifnum'', ifNameToIndex nb (Str ifname)),
          (''event'', Obj [(''name'', Str ''newLink''), (''address'', Str (mac_text mac)),
                           (''flags'', Str (getLinkDeviceFlags (Num if_flags)))])])"

lemma newLink_parsed:
  assumes "is_hdr h" "meta_get h ''_type'' = Num 16" "meta_get h ''_flags'' = Num f"
    "meta_get h ''_seq'' = Num s" "meta_get h ''_pid'' = Num p"
    and "0 \<le> if_flags" "if_flags < 2 ^ 32"
    and "list_all (\<lambda>c. of_char c < (128 :: nat)) ifname" "length ifname < 1000" "length mac < 1000"
  shows "\<exists>payload m. pack ifinfomsg_fmt (map Num [fam, pad, ty, ind, if_flags, chg]) = Return (Some payload) \<and>
    frame_message h
      [Some payload, Some (rtattr_enc (3, bytes_of_string ifname @ [0])), Some (rtattr_enc (1, mac))] = Return m \<and>
    returns (parseRtattributes (Buf m)) \<and>
    (\<forall>filters. parseAttributes nb filters links (Buf m) = Return (apply_filters filters (link_data nb (ifname, mac, if_flags))))"
proof -
  let ?as = "[(3, bytes_of_string ifname @ [0]), (1, mac)]"
  let ?vs = "[fam, pad, ty, ind, if_flags, chg]"
  have fam: "rt_family 16 = Some (link_info_attr_name_map, ifinfomsg_fmt)" by (simp add: rt_family_def)
  have small: "length (rtattr_enc (t, d)) \<le> length d + 8" for t d
    by (simp add: rtattr_enc_def pad4_def)
  have "length (concat (map rtattr_enc ?as)) \<le> 2100"
    using small [of 3 "bytes_of_string ifname @ [0]"] small [of 1 mac] assms(9,10) by simp
  then have "32 + length (concat (map rtattr_enc ?as)) < 2 ^ 32" by simp
  moreover have "list_all rtattr_ok ?as" using assms(9,10) by (simp add: rtattr_ok_def)
  moreover have "count_sum (scan_fmt ifinfomsg_fmt) = length ?vs" by (simp add: scan_ifinfomsg)
  ultimately obtain payload m where pm: "pack ifinfomsg_fmt (map Num ?vs) = Return (Some payload)"
    "frame_message h (Some payload # map (\<lambda>a. Some (rtattr_enc a)) ?as) = Return m"
    and at: "parseRtattributes (Buf m) = Return
      (obj_set ''operation'' (getRtmTypeName 16)
        (obj_set ''payload'' (unpack_result (map fe_key (scan_fmt ifinfomsg_fmt)) (map Num (norm_elems (scan_fmt ifinfomsg_fmt) ?vs)))
          (fold (rt_upd link_info_attr_name_map) ?as [])))"
    using parse_framed [of 16 link_info_attr_name_map ifinfomsg_fmt h f s p ?vs ?as] fam assms(1-5) by auto
  have cf: "clamp_el (unsigned_el 4) if_flags = if_flags"
    using assms(6,7) by (intro clamp_el_id) (simp_all add: unsigned_el_def)
  define att where "att = obj_set ''operation'' (getRtmTypeName 16)
        (obj_set ''payload'' (unpack_result (map fe_key (scan_fmt ifinfomsg_fmt)) (map Num (norm_elems (scan_fmt ifinfomsg_fmt) ?vs)))
          (fold (rt_upd link_info_attr_name_map) ?as []))"
  have keys: "link_info_attr_name_map ! 3 = ''ifname''" "link_info_attr_name_map ! Suc 0 = ''address''"
    "length link_info_attr_name_map = 36" "is_text_key ''ifname''" "\<not> is_text_key ''address''"
    "getRtmTypeName 16 = Str ''newLink''"
    by code_simp+
  have fields: "obj_get att ''operation'' = Str ''newLink''" "obj_get att ''ifname'' = Str ifname"
    "obj_get att ''address'' = Buf mac" "obj_get att ''operstate'' = Undef" "obj_get att ''broadcast'' = Undef"
    using assms(8) by (simp_all add: att_def keys rt_upd_def ascii_bytes_of_string)
  have payload: "payload_prop att ''_if_flags'' = Return (Num if_flags)"
    by (simp add: payload_prop_def att_def unpack_result_def scan_ifinfomsg cf)
  have "handler (''packageInfo'' @ drop 3 ''newLink'') = Some packageInfoLink" by (simp add: handler_def)
  then have "parseAttributes nb filters links (Buf m) = Return (apply_filters filters (link_data nb (ifname, mac, if_flags)))" for filters
    using at unfolding att_def [symmetric]
    by (simp add: parseAttributes_def fields packageInfoLink_def link_event_steps_def payload
        getBufferAsHexAddr_text obj_set_def link_data_def)
  with pm at show ?thesis by (auto simp: returns_iff)
qed

text \<open>The names of the flags of an interface, by the number of their bit.\<close>

definition link_flag_names :: "string list" where
  "link_flag_names =
     [''IFF_UP'', ''IFF_BROADCAST'', ''IFF_DEBUG'', ''IFF_LOOPBACK'', ''IFF_POINTOPOINT'', ''IFF_NOTRAILERS'', ''IFF_RUNNING'',
      ''IFF_NOARP'', ''IFF_PROMISC'', ''IFF_ALLMULTI'', ''IFF_MASTER'', ''IFF_SLAVE'', ''IFF_MULTICAST'', ''IFF_PORTSEL'',
      ''IFF_AUTOMEDIA'', ''IFF_DYNAMIC'', ''IFF_LOWER_UP'', ''IFF_DORMANT'', ''IFF_ECHO'']"

lemma link_flags_text:
  "getLinkDeviceFlags (Num f) = join_with '','' (map (\<lambda>i. link_flag_names ! i) (filter (bit f) [0..<19]))"
proof -
  have "list_all (\<lambda>i. link_flag_names ! i = snd (net_device_flags ! i)) [0..<19]" by code_simp
  then have "map (\<lambda>i. snd (net_device_flags ! i)) (filter (bit f) [0..<19]) = map (\<lambda>i. link_flag_names ! i) (filter (bit f) [0..<19])"
    by (intro map_cong refl) (simp add: list_all_iff del: upt_rec_numeral)
  then show ?thesis by (simp only: getLinkDeviceFlags_bits)
qed

text \<open>
  C13. A \<open>newLink\<close> message framed from an interface payload, the interface name (with the NUL the
  kernel ends it with) and a hardware address comes out of \<open>parseAttributes\<close> as the link event with
  this name, the index the addon gives for it, the printed hardware address and, separated by commas, the
  names of the flags that are set, from the lowest bit to the highest.
\<close>

theorem newLink_event:
  assumes "is_hdr h" "meta_get h ''_type'' = Num 16" "meta_get h ''_flags'' = Num f"
    "meta_get h ''_seq'' = Num s" "meta_get h ''_pid'' = Num p"
    and "0 \<le> if_flags" "if_flags < 2 ^ 32"
    and "list_all (\<lambda>c. of_char c < (128 :: nat)) ifname" "length ifname < 1000" "length mac < 1000"
  shows "\<exists>payload m. pack ifinfomsg_fmt (map Num [fam, pad, ty, ind, if_flags, chg]) = Return (Some payload) \<and>
    frame_message h
      [Some payload, Some (rtattr_enc (3, bytes_of_string ifname @ [0])), Some (rtattr_enc (1, mac))] = Return m \<and>
    parseAttributes nb Undef links (Buf m) = Return
      (Obj [(''ifname'', Str ifname), (''ifnum'', ifNameToIndex nb (Str ifname)),
            (''event'', Obj [(''name'', Str ''newLink''), (''address'', Str (mac_text mac)),
               (''flags'', Str (join_with '','' (map (\<lambda>i. link_flag_names ! i) (filter (bit if_flags) [0..<19]))))])])"
  using newLink_parsed [OF assms, of fam pad ty ind chg nb links] unfolding link_flags_text [symmetric]
  by (auto simp: apply_filters_def link_data_def)

lemma newLink_event_witness:
  "\<exists>h. buildHdr = Return h \<and>
    (\<exists>payload m. pack ifinfomsg_fmt (map Num [0, 0, 1, 2, 0x1003, 0]) = Return (Some payload) \<and>
      frame_message (meta_set ''_type'' (Num 16) h)
        [Some payload, Some (rtattr_enc (3, bytes_of_string ''eth0'' @ [0])), Some (rtattr_enc (1, [0, 26, 43, 255, 16, 9]))] = Return m \<and>
      parseAttributes \<lparr>fromAddress = \<lambda>a f. Undef, toAddress = \<lambda>a f. Undef, ifNameToIndex = \<lambda>s. Num 2\<rparr>
          Undef (Arr []) (Buf m) = Return
        (Obj [(''ifname'', Str ''eth0''), (''ifnum'', Num 2),
              (''event'', Obj [(''name'', Str ''newLink''), (''address'', Str (mac_text [0, 26, 43, 255, 16, 9])),
                               (''flags'', Str ''IFF_UP,IFF_BROADCAST,IFF_MULTICAST'')])]))"
proof -
  obtain h where h: "buildHdr = Return h" "is_hdr h" "meta_get h ''_flags'' = Num NLM_F_REQUEST"
      "meta_get h ''_seq'' = Num 0" "meta_get h ''_pid'' = Num 0" using buildHdr_value by blast
  have "is_hdr (meta_set ''_type'' (Num 16) h)" using h(2) by (rule is_hdr_set)
  have fl: "join_with '','' (map (\<lambda>i. link_flag_names ! i) (filter (bit (0x1003 :: int)) [0..<19])) = ''IFF_UP,IFF_BROADCAST,IFF_MULTICAST''"
    by code_simp
  from newLink_event [OF \<open>is_hdr (meta_set ''_type'' (Num 16) h)\<close>, where f = NLM_F_REQUEST and s = 0 and p = 0 and if_flags = "0x1003"
      and ifname = "''eth0''" and mac = "[0, 26, 43, 255, 16, 9]" and fam = 0 and pad = 0 and ty = 1 and ind = 2 and chg = 0
      and nb = "\<lparr>fromAddress = \<lambda>a f. Undef, toAddress = \<lambda>a f. Undef, ifNameToIndex = \<lambda>s. Num 2\<rparr>"
      and links = "Arr []"] h
  show ?thesis by (intro exI [of _ h]) (simp add: fl)
qed

lemma attr_array_Buf: "attr_array (Buf b) = Return (Arr (map (\<lambda>x. Num (uint x)) b))"
proof -
  have "bufToArray_loop d i n = Return (map (\<lambda>j. uint (d ! j)) [i..<i + n])" if "i + n \<le> length d" for d i n
    using that
  proof (induction n arbitrary: i)
    case (Suc n)
    then have "readUInt8 d i = Return (uint (d ! i))"
      by (simp add: readUInt8_def read_bytes_def take_Suc_conv_app_nth Cons_nth_drop_Suc [symmetric])
    with Suc show ?case by (simp add: upt_conv_Cons del: upt_Suc)
  qed simp
  from this [of 0 "length b" b] show ?thesis
    by (auto simp: attr_array_def bufToArray_def intro!: nth_equalityI)
qed

text \<open>
  The source address of a route: \<open>getRouteEventObj\<close> hands the family of the source to the addon
  as text, which the addon rejects with an \<open>Error\<close> object, so the event shows \<open>undefined\<close> for the
  address whenever the route has a source.
\<close>

theorem getRouteAddress_src_undefined:
  assumes "\<And>a s. \<exists>e. fromAddress nb a (Str s) = ErrorObj e"
  shows "getRouteAddress nb (Buf src) len (getFamily fam) = Return (Str (''undefined/'' @ to_string len))"
proof -
  obtain a where a: "attr_array (Buf src) = Return a" by (simp add: attr_array_Buf)
  obtain fs where fs: "getFamily fam = Str fs"
    by (cases "loose_eq_num fam AF_INET") (simp_all add: getFamily_def)
  obtain e where "fromAddress nb a (Str fs) = ErrorObj e" using assms by blast
  then show ?thesis by (simp add: getRouteAddress_def a fs Let_def)
qed

lemma getRouteAddress_src_undefined_witness:
  "getRouteAddress \<lparr>fromAddress = \<lambda>a f. (case f of Num n \<Rightarrow> Obj [(''address'', Str ''10.0.0.0'')] | _ \<Rightarrow> ErrorObj ''Invalid parameters.''),
      toAddress = \<lambda>a f. Undef, ifNameToIndex = \<lambda>s. Num 2\<rparr> (Buf [10, 0, 0, 0]) (Num 8) (getFamily (Num 2))
    = Return (Str (''undefined/'' @ to_string (Num 8)))"
  by (rule getRouteAddress_src_undefined) simp

end
