(* ===== verification/NfTables.thy ===== *)
theory NfTables
  imports Prelude
begin

text \<open>
  \<open>nf/nftables.js\<close>: the tables of the netfilter interface. The object \<open>nft\<close> is a global variable
  and the export of the file. An attribute table maps the names of its attributes to their numbers and,
  under one more name, to the list of their type specifications, which are indexed by these numbers.
\<close>

datatype attr_entry = AVal int | ASpec "string list"

type_synonym attr_table = "(string \<times> attr_entry) list"

definition ip_proto :: "(string \<times> int) list" where
  "ip_proto =
    [(''IPPROTO_IP'', 0), (''IPPROTO_ICMP'', 1), (''IPPROTO_IGMP'', 2), (''IPPROTO_IPIP'', 4),
     (''IPPROTO_TCP'', 6), (''IPPROTO_EGP'', 8), (''IPPROTO_PUP'', 12), (''IPPROTO_UDP'', 17),
     (''IPPROTO_IDP'', 22), (''IPPROTO_TP'', 29), (''IPPROTO_DCCP'', 33), (''IPPROTO_IPV6'', 41),
     (''IPPROTO_RSVP'', 46), (''IPPROTO_GRE'', 47), (''IPPROTO_ESP'', 50), (''IPPROTO_AH'', 51),
     (''IPPROTO_MTP'', 92), (''IPPROTO_BEETPH'', 94), (''IPPROTO_ENCAP'', 98),
     (''IPPROTO_PIM'', 103), (''IPPROTO_COMP'', 108), (''IPPROTO_SCTP'', 132),
     (''IPPROTO_UDPLITE'', 136), (''IPPROTO_RAW'', 255)]"

definition iphdr_offsets :: "(string \<times> int) list" where
  "iphdr_offsets =
    [(''version_ihl'', 0), (''tos'', 1), (''tot_len'', 2), (''id'', 4), (''frag_off'', 6),
     (''ttl'', 8), (''protocol'', 9), (''check'', 10), (''saddr'', 12), (''daddr'', 16)]"

definition iphdr_sizes :: "(string \<times> int) list" where
  "iphdr_sizes =
    [(''version_ihl'', 1), (''tos'', 1), (''tot_len'', 2), (''id'', 2), (''frag_off'', 2),
     (''ttl'', 1), (''protocol'', 1), (''check'', 2), (''saddr'', 4), (''daddr'', 4)]"

definition ipv6hdr_offsets :: "(string \<times> int) list" where
  "ipv6hdr_offsets =
    [(''prio_version'', 0), (''flow_lbl'', 1), (''payload_len'', 4), (''nexthdr'', 6),
     (''hop_limit'', 7), (''saddr'', 8), (''daddr'', 16)]"

definition ipv6hdr_sizes :: "(string \<times> int) list" where
  "ipv6hdr_sizes =
    [(''prio_version'', 1), (''flow_lbl'', 3), (''payload_len'', 2), (''nexthdr'', 1),
     (''hop_limit'', 1), (''saddr'', 8), (''daddr'', 8)]"

definition tcphdr_offsets :: "(string \<times> int) list" where
  "tcphdr_offsets =
    [(''source'', 0), (''dest'', 2), (''seq'', 4), (''ack_seq'', 8), (''offset_flag'', 12),
     (''window'', 14), (''check'', 16), (''urg_ptr'', 18)]"

definition tcphdr_sizes :: "(string \<times> int) list" where
  "tcphdr_sizes =
    [(''source'', 2), (''dest'', 2), (''seq'', 4), (''ack_seq'', 4), (''offset_flag'', 2),
     (''window'', 2), (''check'', 2), (''urg_ptr'', 2)]"

definition nft_registers :: "(string \<times> int) list" where
  "nft_registers =
    [(''NFT_REG_VERDICT'', 0), (''NFT_REG_1'', 1), (''NFT_REG_2'', 2), (''NFT_REG_3'', 3),
     (''NFT_REG_4'', 4)]"

definition nft_verdicts :: "(string \<times> int) list" where
  "nft_verdicts =
    [(''NFT_CONTINUE'', - 1), (''NFT_BREAK'', - 2), (''NFT_JUMP'', - 3), (''NFT_GOTO'', - 4),
     (''NFT_RETURN'', - 5)]"

definition nft_payload_bases :: "(string \<times> int) list" where
  "nft_payload_bases =
    [(''NFT_PAYLOAD_LL_HEADER'', 0), (''NFT_PAYLOAD_NETWORK_HEADER'', 1),
     (''NFT_PAYLOAD_TRANSPORT_HEADER'', 2)]"

definition nft_cmp_ops :: "(string \<times> int) list" where
  "nft_cmp_ops =
    [(''NFT_CMP_EQ'', 0), (''NFT_CMP_NEQ'', 1), (''NFT_CMP_LT'', 2), (''NFT_CMP_LTE'', 3),
     (''NFT_CMP_GT'', 4), (''NFT_CMP_GTE'', 5)]"

definition nft_hook_attributes :: attr_table where
  "nft_hook_attributes =
    [(''NFTA_HOOK_UNSPEC'', AVal 0), (''NFTA_HOOK_HOOKNUM'', AVal 1),
     (''NFTA_HOOK_PRIORITY'', AVal 2), (''NFTA_HOOK_SPEC'', ASpec ['''', ''n/32'', ''n/32''])]"

definition nft_table_flags :: "(string \<times> int) list" where
  "nft_table_flags =
    [(''NFT_TABLE_F_DORMANT'', 1)]"

definition nft_table_attributes :: attr_table where
  "nft_table_attributes =
    [(''NFTA_TABLE_UNSPEC'', AVal 0), (''NFTA_TABLE_NAME'', AVal 1),
     (''NFTA_TABLE_FLAGS'', AVal 2), (''NFTA_TABLE_USE'', AVal 3),
     (''NFTA_TABLE_SPEC'', ASpec ['''', ''s'', ''n/32'', ''n/32''])]"

definition nft_chain_attributes :: attr_table where
  "nft_chain_attributes =
    [(''NFTA_CHAIN_UNSPEC'', AVal 0), (''NFTA_CHAIN_TABLE'', AVal 1),
     (''NFTA_CHAIN_HANDLE'', AVal 2), (''NFTA_CHAIN_NAME'', AVal 3), (''NFTA_CHAIN_HOOK'', AVal 4),
     (''NFTA_CHAIN_POLICY'', AVal 5), (''NFTA_CHAIN_USE'', AVal 6), (''NFTA_CHAIN_TYPE'', AVal 7),
     (''NFTA_CHAIN_COUNTERS'', AVal 8),
     (''NFTA_CHAIN_SPEC'', ASpec ['''', ''s'', ''n/64'', ''s'', ''r/nft_hook_attributes'', ''n/32'', ''n/32'', ''s'', ''r/nft_counter_attributes''])]"

definition nft_rule_attributes :: attr_table where
  "nft_rule_attributes =
    [(''NFTA_RULE_UNSPEC'', AVal 0), (''NFTA_RULE_TABLE'', AVal 1), (''NFTA_RULE_CHAIN'', AVal 2),
     (''NFTA_RULE_HANDLE'', AVal 3), (''NFTA_RULE_EXPRESSIONS'', AVal 4),
     (''NFTA_RULE_COMPAT'', AVal 5), (''NFTA_RULE_POSITION'', AVal 6),
     (''NFTA_RULE_USERDATA'', AVal 7),
     (''NFTA_RULE_SPEC'', ASpec ['''', ''s'', ''s'', ''n/64'', ''l/nft_list_attributes'', ''r/nft_rule_compat_attributes'', ''n/64'', ''b''])]"

definition nft_list_attributes :: attr_table where
  "nft_list_attributes =
    [(''NFTA_LIST_UNPEC'', AVal 0), (''NFTA_LIST_ELEM'', AVal 1),
     (''NFTA_LIST_SPEC'', ASpec ['''', ''r/nft_expr_attributes''])]"

definition nft_expr_attributes :: attr_table where
  "nft_expr_attributes =
    [(''NFTA_EXPR_UNSPEC'', AVal 0), (''NFTA_EXPR_NAME'', AVal 1), (''NFTA_EXPR_DATA'', AVal 2),
     (''NFTA_EXPR_SPEC'', ASpec ['''', ''s'', ''e''])]"

definition nft_rule_compat_flags :: "(string \<times> int) list" where
  "nft_rule_compat_flags =
    [(''NFT_RULE_COMPAT_F_INV'', 2), (''NFT_RULE_COMPAT_F_MASK'', 2)]"

definition nft_rule_compat_attributes :: attr_table where
  "nft_rule_compat_attributes =
    [(''NFTA_RULE_COMPAT_UNSPEC'', AVal 0), (''NFTA_RULE_COMPAT_PROTO'', AVal 1),
     (''NFTA_RULE_COMPAT_FLAGS'', AVal 2)]"

definition nft_cmp_attributes :: attr_table where
  "nft_cmp_attributes =
    [(''NFTA_CMP_UNSPEC'', AVal 0), (''NFTA_CMP_SREG'', AVal 1), (''NFTA_CMP_OP'', AVal 2),
     (''NFTA_CMP_DATA'', AVal 3),
     (''NFTA_CMP_SPEC'', ASpec ['''', ''n/32'', ''n/32'', ''r/nft_data_attributes''])]"

definition nft_counter_attributes :: attr_table where
  "nft_counter_attributes =
    [(''NFTA_COUNTER_UNSPEC'', AVal 0), (''NFTA_COUNTER_BYTES'', AVal 1),
     (''NFTA_COUNTER_PACKETS'', AVal 2), (''NFTA_COUNTER_SPEC'', ASpec ['''', ''n/64'', ''n/64''])]"

definition nft_payload_attributes :: attr_table where
  "nft_payload_attributes =
    [(''NFTA_PAYLOAD_UNSPEC'', AVal 0), (''NFTA_PAYLOAD_DREG'', AVal 1),
     (''NFTA_PAYLOAD_BASE'', AVal 2), (''NFTA_PAYLOAD_OFFSET'', AVal 3),
     (''NFTA_PAYLOAD_LEN'', AVal 4),
     (''NFTA_PAYLOAD_SPEC'', ASpec ['''', ''n/32'', ''n/32'', ''n/32'', ''n/32''])]"

definition nft_data_attributes :: attr_table where
  "nft_data_attributes =
    [(''NFTA_DATA_UNSPEC'', AVal 0), (''NFTA_DATA_VALUE'', AVal 1),
     (''NFTA_DATA_VERDICT'', AVal 2),
     (''NFTA_DATA_SPEC'', ASpec ['''', ''g'', ''r/nft_verdict_attributes''])]"

definition nft_bitwise_attributes :: attr_table where
  "nft_bitwise_attributes =
    [(''NFTA_BITWISE_UNSPEC'', AVal 0), (''NFTA_BITWISE_SREG'', AVal 1),
     (''NFTA_BITWISE_DREG'', AVal 2), (''NFTA_BITWISE_LEN'', AVal 3),
     (''NFTA_BITWISE_MASK'', AVal 4), (''NFTA_BITWISE_XOR'', AVal 5),
     (''NFTA_BITWISE_SPEC'', ASpec ['''', ''n/32'', ''n/32'', ''n/32'', ''r/nft_data_attributes'', ''r/nft_data_attributes''])]"

definition nft_verdict_attributes :: attr_table where
  "nft_verdict_attributes =
    [(''NFTA_VERDICT_UNSPEC'', AVal 0), (''NFTA_VERDICT_CODE'', AVal 1),
     (''NFTA_VERDICT_CHAIN'', AVal 2), (''NFTA_VERDICT_SPEC'', ASpec ['''', ''n/32'', ''s''])]"

definition nft_immediate_attributes :: attr_table where
  "nft_immediate_attributes =
    [(''NFTA_IMMEDIATE_UNSPEC'', AVal 0), (''NFTA_IMMEDIATE_DREG'', AVal 1),
     (''NFTA_IMMEDIATE_DATA'', AVal 2),
     (''NFTA_IMMEDIATE_SPEC'', ASpec ['''', ''n/32'', ''r/nft_data_attributes''])]"

definition nft_attribute_tables :: "(string \<times> attr_table) list" where
  "nft_attribute_tables =
    [(''nft_hook_attributes'', nft_hook_attributes),
     (''nft_table_attributes'', nft_table_attributes),
     (''nft_chain_attributes'', nft_chain_attributes),
     (''nft_rule_attributes'', nft_rule_attributes),
     (''nft_list_attributes'', nft_list_attributes),
     (''nft_expr_attributes'', nft_expr_attributes),
     (''nft_rule_compat_attributes'', nft_rule_compat_attributes),
     (''nft_cmp_attributes'', nft_cmp_attributes),
     (''nft_counter_attributes'', nft_counter_attributes),
     (''nft_payload_attributes'', nft_payload_attributes),
     (''nft_data_attributes'', nft_data_attributes),
     (''nft_bitwise_attributes'', nft_bitwise_attributes),
     (''nft_verdict_attributes'', nft_verdict_attributes),
     (''nft_immediate_attributes'', nft_immediate_attributes)]"

text \<open>\<open>nft['nft_' + type + '_attributes']\<close> on the global object.\<close>

definition nft_table_of :: "string \<Rightarrow> attr_table option" where
  "nft_table_of type = map_of nft_attribute_tables (''nft_'' @ type @ ''_attributes'')"

end
