(* ===== verification/NfAttributes.thy ===== *)
theory NfAttributes
  imports NfTables RtNetlink
begin

text \<open>
  \<open>nf/nfattr.js\<close> and \<open>nf/nfattributes.js\<close>: encoding the parameters of a netfilter command, an
  object tree, into a sequence of netlink attributes. A leaf is encoded by the type its table
  specifies; a nested attribute, a list and an expression are encoded as a header of four bytes, whose
  length is corrected when everything below it has been appended.
\<close>

section \<open>Number conversion\<close>

text \<open>
  \<open>+value\<close> for the values the encoders convert; \<open>None\<close> is \<open>NaN\<close>. Of the texts that are numbers
  only decimal and hexadecimal integers are modelled.
\<close>

definition string_to_number :: "string \<Rightarrow> int option run" where
  "string_to_number s =
     (let t = rev (dropWhile is_space (rev (dropWhile is_space s)));
          (sg, body) = parse_sign t
      in if t = [] then Return (Some 0)
         else if body \<noteq> [] \<and> list_all is_digit body then Return (Some (sg * int (digits_value 10 body)))
         else if take 2 t \<in> {''0x'', ''0X''} \<and> drop 2 t \<noteq> [] \<and> list_all is_xdigit (drop 2 t)
           then Return (Some (int (digits_value 16 (drop 2 t))))
         else if body \<noteq> [] \<and> (is_digit (hd body) \<or> hd body \<in> set ''.I'') then Throw (NotModelled ''number text'')
         else Return None)"

definition value_of_number :: "jsval \<Rightarrow> int option run" where
  "value_of_number v =
     (case v of
        Undef \<Rightarrow> Throw TypeError
      | Null \<Rightarrow> Throw TypeError
      | JBool b \<Rightarrow> Return (Some (if b then 1 else 0))
      | Num n \<Rightarrow> Return (Some n)
      | Str s \<Rightarrow> string_to_number s
      | Obj ps \<Rightarrow> Return None
      | ErrorObj m \<Rightarrow> Return None
      | _ \<Rightarrow> Throw (NotModelled ''number conversion''))"

text \<open>The nearest double of a natural number, ties to even.\<close>

fun bit_len :: "nat \<Rightarrow> nat" where
  "bit_len n = (if n = 0 then 0 else Suc (bit_len (n div 2)))"

declare bit_len.simps [simp del]

definition to_double :: "nat \<Rightarrow> nat" where
  "to_double n =
     (let e = bit_len n - 53; q = n div 2 ^ e; r = n mod 2 ^ e; h = 2 ^ e div 2
      in if e = 0 then n
         else if r > h \<or> (r = h \<and> odd q) then (q + 1) * 2 ^ e else q * 2 ^ e)"

text \<open>
  \<open>buf.writeUInt8(v, off, noAssert)\<close> and its big-endian companions with a true \<open>noAssert\<close>: the value
  is taken modulo its width, and \<open>NaN\<close> is written as zero.
\<close>

definition be_bytes :: "nat \<Rightarrow> int option \<Rightarrow> bytes" where
  "be_bytes n v = rev (le_bytes n (case v of Some k \<Rightarrow> k | None \<Rightarrow> 0))"

text \<open>The \<open>switch(len)\<close> of both encoders; \<open>v << 32\<close> shifts by \<open>32 mod 32\<close> places, not at all.\<close>

definition num_bytes :: "nat \<Rightarrow> int option \<Rightarrow> bytes" where
  "num_bytes len v =
     (if len = 1 then be_bytes 1 v
      else if len = 2 then be_bytes 2 v
      else if len = 4 then be_bytes 4 v
      else if len = 8 then be_bytes 4 (Some (js_shl (case v of Some k \<Rightarrow> k | None \<Rightarrow> 0) 32)) @ be_bytes 4 v
      else replicate len 0)"

section \<open>One attribute\<close>

text \<open>
  The specification of an attribute: its number, its type and the part after the slash (\<open>None\<close> is
  the \<open>-1\<close> of a specification without one).
\<close>

record attr_spec =
  sp_typeval :: int
  sp_type :: string
  sp_size :: "string option"

record nattr =
  na_key :: string
  na_value :: jsval
  na_spec :: attr_spec
  na_buffer :: bytes

text \<open>\<open>Object.keys(attr)[0].split('_')[1]\<close>\<close>

definition attribute_type :: "attr_table \<Rightarrow> string run" where
  "attribute_type attr =
     (case attr of
        [] \<Rightarrow> Throw TypeError
      | e # es \<Rightarrow> (case split_nth CHR ''_'' (fst e) 1 of None \<Rightarrow> Throw TypeError | Some t \<Rightarrow> Return t))"

definition getValue :: "string \<Rightarrow> attr_table \<Rightarrow> string \<Rightarrow> attr_entry run" where
  "getValue atype attrObject key =
     (let key_name = ''NFTA_'' @ toUpperCase atype @ ''_'' @ toUpperCase key in
      case map_of attrObject key_name of
        None \<Rightarrow> Throw (JsError (''key '' @ key_name @ '' does not exist in command object for type undefined''))
      | Some e \<Rightarrow> Return e)"

text \<open>A number that has no specification gives \<open>undefined\<close>, which has no \<open>indexOf\<close>.\<close>

definition getSpec :: "string \<Rightarrow> attr_table \<Rightarrow> string \<Rightarrow> attr_spec run" where
  "getSpec atype attrObject key =
     (case map_of attrObject (''NFTA_'' @ toUpperCase atype @ ''_SPEC'') of
        None \<Rightarrow> Throw (JsError (''command type '' @ atype @ '' does not exist''))
      | Some spec_array \<Rightarrow>
          run_bind (getValue atype attrObject key) (\<lambda>keyval.
            case (spec_array, keyval) of
              (ASpec specs, AVal k) \<Rightarrow>
                if 0 \<le> k \<and> nat k < length specs then
                  let spec = specs ! nat k in
                  Return (case index_of CHR ''/'' spec of
                      Some sl \<Rightarrow> \<lparr>sp_typeval = k, sp_type = take sl spec, sp_size = Some (drop (sl + 1) spec)\<rparr>
                    | None \<Rightarrow> \<lparr>sp_typeval = k, sp_type = spec, sp_size = None\<rparr>)
                else Throw TypeError
            | _ \<Rightarrow> Throw TypeError))"

definition attr_buf :: "int \<Rightarrow> bytes \<Rightarrow> bytes run" where
  "attr_buf typeval b =
     run_bind (buildRtattrBuf (Num typeval) (Buf b)) (\<lambda>r.
       case r of None \<Rightarrow> Throw TypeError | Some a \<Rightarrow> Return a)"

definition getStringBuffer :: "attr_spec \<Rightarrow> jsval \<Rightarrow> bytes run" where
  "getStringBuffer spec v = attr_buf (sp_typeval spec) (bytes_of_string (to_string v @ [CHR 0x00]))"

text \<open>
  \<open>getGenericBuffer\<close>: a text with an \<open>x\<close> is hexadecimal, two digits per byte; any other text is
  decimal, and its length is derived from the decimal digits of its reading as a hexadecimal number.
  \<open>Buffer(len)\<close> drops the half of an odd number of digits, and then no case of the \<open>switch\<close> applies.
\<close>

definition double_of :: "int option \<Rightarrow> int option" where
  "double_of v = map_option (\<lambda>n. sgn n * int (to_double (nat \<bar>n\<bar>))) v"

definition generic_bytes :: "string \<Rightarrow> bytes run" where
  "generic_bytes s =
     (let strval = toLowerCase s in
      case index_of CHR ''x'' strval of
        Some hex \<Rightarrow>
          (let nibbles = length strval - (hex + 1); len = nibbles div 2 in
           Return (if even nibbles then num_bytes len (double_of (parseInt 16 strval)) else replicate len 0))
      | None \<Rightarrow>
          (let digits = (case double_of (parseInt 16 strval) of None \<Rightarrow> ''NaN'' | Some n \<Rightarrow> show_int n);
               len = length digits div 2 in
           if length digits > 21 then Throw (NotModelled ''exponent form of a number'')
           else Return (if even (length digits) then num_bytes len (double_of (parseInt 10 strval)) else replicate len 0)))"

definition getGenericBuffer :: "attr_spec \<Rightarrow> jsval \<Rightarrow> bytes run" where
  "getGenericBuffer spec v =
     (case v of
        Str s \<Rightarrow> run_bind (generic_bytes s) (attr_buf (sp_typeval spec))
      | _ \<Rightarrow> Throw (JsError (''no way to parse: '' @ to_string v)))"

text \<open>
  \<open>getNumberBuffer\<close>: the sizes in the tables are 32 and 64 bits. The value is converted only in the
  cases of the \<open>switch\<close>.
\<close>

definition getNumberBuffer :: "attr_spec \<Rightarrow> jsval \<Rightarrow> bytes run" where
  "getNumberBuffer spec v =
     (case sp_size spec of
        None \<Rightarrow> Throw RangeError
      | Some sz \<Rightarrow>
          run_bind (string_to_number sz) (\<lambda>size.
            case size of
              None \<Rightarrow> Throw (NotModelled ''buffer of length NaN'')
            | Some bits \<Rightarrow>
                if bits < 0 then Throw RangeError
                else let len = nat bits div 8 in
                  if nat bits mod 8 = 0 \<and> len \<in> {1, 2, 4, 8} then
                    run_bind (value_of_number v) (\<lambda>n. attr_buf (sp_typeval spec) (num_bytes len n))
                  else attr_buf (sp_typeval spec) (replicate len 0)))"

abbreviation (input) "NLA_F_NESTED \<equiv> (0x8000 :: int)"

text \<open>\<open>getNestedBuf\<close>, \<open>getListBuf\<close> and \<open>getElementBuf\<close> are the same: a bare header.\<close>

definition getNestedBuf :: "attr_spec \<Rightarrow> bytes run" where
  "getNestedBuf spec =
     run_bind (writeUInt16LE [0, 0, 0, 0] 4 0) (\<lambda>buf.
       writeUInt16LE buf (js_or NLA_F_NESTED (sp_typeval spec)) 2)"

definition setBuffer :: "attr_spec \<Rightarrow> jsval \<Rightarrow> bytes run" where
  "setBuffer spec v =
     (let t = sp_type spec in
      if t = ''s'' then getStringBuffer spec v
      else if t = ''n'' \<or> t = ''pl'' then getNumberBuffer spec v
      else if t = ''r'' \<or> t = ''l'' \<or> t = ''e'' then getNestedBuf spec
      else if t = ''g'' then getGenericBuffer spec v
      else Throw (JsError (''undefined attribute spec type: '' @ t)))"

definition newAttribute :: "jsval \<Rightarrow> attr_table \<Rightarrow> string \<Rightarrow> nattr run" where
  "newAttribute v attr key =
     run_bind (attribute_type attr) (\<lambda>atype.
     run_bind (getSpec atype attr key) (\<lambda>spec.
     run_bind (setBuffer spec v) (\<lambda>buf.
       Return \<lparr>na_key = key, na_value = v, na_spec = spec, na_buffer = buf\<rparr>)))"

definition incrementNestLength :: "nattr \<Rightarrow> nat \<Rightarrow> nattr run" where
  "incrementNestLength a sz =
     run_bind (readUInt16LE (na_buffer a) 0) (\<lambda>len.
     run_bind (writeUInt16LE (na_buffer a) (int sz + len) 0) (\<lambda>buf.
       Return (a\<lparr>na_buffer := buf\<rparr>)))"

section \<open>The attribute array\<close>

definition getCommandObject :: "jsval \<Rightarrow> attr_table run" where
  "getCommandObject type =
     (case nft_table_of (to_string type) of
        None \<Rightarrow> Throw (JsError (''command type '' @ to_string type @ '' does not exist''))
      | Some t \<Rightarrow> Return t)"

text \<open>\<open>getNestedAttributes\<close>: an expression names its table; the others have it in their specification.\<close>

definition getNestedAttributes :: "nattr \<Rightarrow> jsval \<Rightarrow> attr_table run" where
  "getNestedAttributes a expr_name =
     (if sp_type (na_spec a) = ''e'' then getCommandObject expr_name
      else case sp_size (na_spec a) of
          None \<Rightarrow> Throw TypeError
        | Some sz \<Rightarrow>
            getCommandObject (case split_nth CHR ''_'' sz 1 of None \<Rightarrow> Undef | Some t \<Rightarrow> Str t))"

text \<open>\<open>updateNestHdrLen(a, nstart)\<close>, where \<open>a\<close> is the element before \<open>nstart\<close>.\<close>

definition updateNestHdrLen :: "nattr list \<Rightarrow> nat \<Rightarrow> nattr list run" where
  "updateNestHdrLen arr nstart =
     run_bind (incrementNestLength (arr ! (nstart - 1))
                (sum_list (map (\<lambda>a. length (na_buffer a)) (drop nstart arr))))
       (\<lambda>a. Return (arr[nstart - 1 := a]))"

text \<open>
  The keys of an array, a text or a buffer are its indices, and no table has an attribute with such a
  name, so the constructor of the first one throws.
\<close>

definition indexed_value :: "jsval \<Rightarrow> jsval option" where
  "indexed_value v =
     (case v of
        Arr vs \<Rightarrow> (case vs of [] \<Rightarrow> None | x # xs \<Rightarrow> Some x)
      | Str s \<Rightarrow> (case s of [] \<Rightarrow> None | c # cs \<Rightarrow> Some (Str [c]))
      | Buf bs \<Rightarrow> (case bs of [] \<Rightarrow> None | b # r \<Rightarrow> Some (Num (uint b)))
      | _ \<Rightarrow> None)"

definition parse_indexed :: "nattr list \<Rightarrow> jsval \<Rightarrow> attr_table \<Rightarrow> nattr list run" where
  "parse_indexed arr v attrs =
     (case indexed_value v of
        None \<Rightarrow> Return arr
      | Some x \<Rightarrow> run_bind (newAttribute x attrs ''0'') (\<lambda>_. Throw (NotModelled ''index as attribute'')))"

text \<open>
  The values \<open>Object.keys(v).forEach\<close> visits in a list; the elements of a buffer are numbers.
\<close>

definition list_values :: "jsval \<Rightarrow> jsval list run" where
  "list_values v =
     (case v of
        Undef \<Rightarrow> Throw TypeError
      | Null \<Rightarrow> Throw TypeError
      | Obj ps \<Rightarrow> Return (map snd ps)
      | Arr vs \<Rightarrow> Return vs
      | Str s \<Rightarrow> Return (map (\<lambda>c. Str [c]) s)
      | Buf bs \<Rightarrow> Return (map (\<lambda>b. Num (uint b)) bs)
      | _ \<Rightarrow> Return [])"

type_synonym parse_fn = "nattr list \<Rightarrow> jsval \<Rightarrow> attr_table \<Rightarrow> jsval \<Rightarrow> nattr list run"

text \<open>
  The body of \<open>keys.forEach\<close> in \<open>parseNfAttrs\<close>, for one key; \<open>rec\<close> is \<open>parseNfAttrs\<close> itself.
  The array of attributes is the state, extended by \<open>push\<close>.
\<close>

definition parse_entry :: "parse_fn \<Rightarrow> attr_table \<Rightarrow> jsval \<Rightarrow> nattr list \<Rightarrow> string \<times> jsval \<Rightarrow> nattr list run" where
  "parse_entry rec attrs expr_name arr e =
     run_bind (newAttribute (snd e) attrs (fst e)) (\<lambda>a.
       let v = snd e; t = sp_type (na_spec a); start = length arr + 1 in
       if t = ''r'' then
         run_bind (getNestedAttributes a Undef) (\<lambda>nest_attrs.
         run_bind (get_prop v ''name'') (\<lambda>name.
         run_bind (rec (arr @ [a]) v nest_attrs name) (\<lambda>arr'. updateNestHdrLen arr' start)))
       else if t = ''l'' then
         run_bind (list_values v) (\<lambda>elems.
         run_bind
           (run_fold (\<lambda>arr elem. run_bind (getNestedAttributes a Undef) (\<lambda>elem_attrs. rec arr elem elem_attrs Undef))
              elems (arr @ [a])) (\<lambda>arr'. updateNestHdrLen arr' start))
       else if t = ''e'' then
         run_bind (getNestedAttributes a expr_name) (\<lambda>expr_attrs.
         run_bind (rec (arr @ [a]) v expr_attrs Undef) (\<lambda>arr'. updateNestHdrLen arr' start))
       else Return (arr @ [a]))"

text \<open>
  \<open>parseNfAttrs(params, attrs, expr_name)\<close>, by recursion over the nesting depth of the parameters:
  \<open>jdepth\<close> steps are enough.
\<close>

fun parseNfAttrs :: "nat \<Rightarrow> parse_fn" where
  "parseNfAttrs 0 arr params attrs expr_name = Diverge"
| "parseNfAttrs (Suc n) arr params attrs expr_name =
     (case params of
        Obj ps \<Rightarrow> run_fold (parse_entry (parseNfAttrs n) attrs expr_name) ps arr
      | _ \<Rightarrow> parse_indexed arr params attrs)"

fun jdepth :: "jsval \<Rightarrow> nat" where
  "jdepth (Obj ps) = Suc (foldr (\<lambda>p. max (jdepth (snd p))) ps 0)"
| "jdepth (Arr vs) = Suc (foldr (\<lambda>v. max (jdepth v)) vs 0)"
| "jdepth _ = 0"

definition newNfAttributes :: "jsval \<Rightarrow> jsval \<Rightarrow> nattr list run" where
  "newNfAttributes command_type parameters =
     run_bind (getCommandObject command_type) (\<lambda>obj. parseNfAttrs (Suc (jdepth parameters)) [] parameters obj Undef)"

definition writeAttributes :: "nattr list \<Rightarrow> bytes option list \<Rightarrow> bytes option list" where
  "writeAttributes arr bufs = bufs @ map (\<lambda>a. Some (na_buffer a)) arr"

section \<open>Enough steps\<close>

lemma parse_entry_cong:
  assumes "\<And>arr at en. rec arr (snd e) at en = rec' arr (snd e) at en"
    and "\<And>arr vs x at en. list_values (snd e) = Return vs \<Longrightarrow> x \<in> set vs \<Longrightarrow> rec arr x at en = rec' arr x at en"
  shows "parse_entry rec attrs en arr e = parse_entry rec' attrs en arr e"
proof -
  have fold: "run_fold (\<lambda>arr elem. run_bind (getNestedAttributes a Undef) (\<lambda>at. rec arr elem at Undef)) vs s
      = run_fold (\<lambda>arr elem. run_bind (getNestedAttributes a Undef) (\<lambda>at. rec' arr elem at Undef)) vs s"
    if "list_values (snd e) = Return vs" for a vs s
    using assms(2) [OF that] by (intro run_fold_cong) simp
  show ?thesis unfolding parse_entry_def Let_def assms(1)
    by (intro run_bind_cong refl if_cong) (simp add: fold)
qed

lemma foldr_max_less: "x \<in> set xs \<Longrightarrow> (f x :: nat) \<le> foldr (\<lambda>x. max (f x)) xs 0"
  by (induction xs) auto

lemma jdepth_entry: "e \<in> set ps \<Longrightarrow> jdepth (snd e) < jdepth (Obj ps)"
  using foldr_max_less [of e ps "\<lambda>p. jdepth (snd p)"] by simp

lemma jdepth_list_values: "list_values v = Return vs \<Longrightarrow> x \<in> set vs \<Longrightarrow> jdepth x \<le> jdepth v"
proof (cases v)
  case (Arr us)
  then show "list_values v = Return vs \<Longrightarrow> x \<in> set vs \<Longrightarrow> jdepth x \<le> jdepth v"
    using foldr_max_less [of x us jdepth] by (simp add: list_values_def)
next
  case (Obj ps)
  then show "list_values v = Return vs \<Longrightarrow> x \<in> set vs \<Longrightarrow> jdepth x \<le> jdepth v"
    using jdepth_entry [of _ ps] by (fastforce simp: list_values_def)
qed (auto simp: list_values_def)

lemma parseNfAttrs_fuel:
  "jdepth v < n \<Longrightarrow> jdepth v < m \<Longrightarrow> parseNfAttrs n arr v attrs en = parseNfAttrs m arr v attrs en"
proof (induction n arbitrary: m arr v attrs en)
  case (Suc n)
  obtain m' where m: "m = Suc m'" using Suc.prems(2) by (cases m) auto
  show ?case
  proof (cases v)
    case (Obj ps)
    have "parse_entry (parseNfAttrs n) attrs en arr e = parse_entry (parseNfAttrs m') attrs en arr e"
      if "e \<in> set ps" for arr e
    proof -
      have d: "jdepth (snd e) < n" "jdepth (snd e) < m'"
        using jdepth_entry [OF that] Suc.prems Obj m by (simp_all del: jdepth.simps)
      show ?thesis
      proof (rule parse_entry_cong)
        fix arr vs x at en
        assume "list_values (snd e) = Return vs" "x \<in> set vs"
        then have "jdepth x \<le> jdepth (snd e)" by (rule jdepth_list_values)
        with d show "parseNfAttrs n arr x at en = parseNfAttrs m' arr x at en" by (intro Suc.IH) auto
      qed (use d in \<open>rule Suc.IH\<close>)
    qed
    then show ?thesis by (simp add: m Obj cong: run_fold_cong)
  qed (simp_all add: m)
qed simp

section \<open>The nested encoding\<close>

text \<open>
  The reference: a tree of attributes, whose leaves are encoded attributes and whose nodes carry a
  number and stand for everything below them. The length of a node is that of its whole encoding.
\<close>

datatype nla = NLeaf bytes | NNest int "nla list"

fun nla_enc :: "nla \<Rightarrow> bytes" where
  "nla_enc (NLeaf b) = b"
| "nla_enc (NNest t ts) =
     (let content = concat (map nla_enc ts) in
      le_bytes 2 (4 + int (length content)) @ le_bytes 2 (js_or NLA_F_NESTED t) @ content)"

definition nla_encs :: "nla list \<Rightarrow> bytes" where
  "nla_encs ts = concat (map nla_enc ts)"

lemma nla_encs_simps [simp]:
  "nla_encs [] = []" "nla_encs (ts @ us) = nla_encs ts @ nla_encs us"
  "nla_encs [NLeaf b] = b"
  by (simp_all add: nla_encs_def)

text \<open>The tree of a parameter object, built from the parameters alone, with no array and no correction.\<close>

definition tree_entry ::
  "(jsval \<Rightarrow> attr_table \<Rightarrow> jsval \<Rightarrow> nla list run) \<Rightarrow> attr_table \<Rightarrow> jsval \<Rightarrow> string \<times> jsval \<Rightarrow> nla list run" where
  "tree_entry rec attrs expr_name e =
     run_bind (newAttribute (snd e) attrs (fst e)) (\<lambda>a.
       let v = snd e; t = sp_type (na_spec a); nest = (\<lambda>ts. Return [NNest (sp_typeval (na_spec a)) ts]) in
       if t = ''r'' then
         run_bind (getNestedAttributes a Undef) (\<lambda>nest_attrs.
         run_bind (get_prop v ''name'') (\<lambda>name. run_bind (rec v nest_attrs name) nest))
       else if t = ''l'' then
         run_bind (list_values v) (\<lambda>elems.
         run_bind
           (run_fold (\<lambda>ts elem. run_bind (getNestedAttributes a Undef) (\<lambda>elem_attrs.
                        run_bind (rec elem elem_attrs Undef) (\<lambda>us. Return (ts @ us)))) elems []) nest)
       else if t = ''e'' then
         run_bind (getNestedAttributes a expr_name) (\<lambda>expr_attrs. run_bind (rec v expr_attrs Undef) nest)
       else Return [NLeaf (na_buffer a)])"

fun nf_tree :: "nat \<Rightarrow> jsval \<Rightarrow> attr_table \<Rightarrow> jsval \<Rightarrow> nla list run" where
  "nf_tree 0 params attrs expr_name = Diverge"
| "nf_tree (Suc n) params attrs expr_name =
     (case params of
        Obj ps \<Rightarrow> run_fold (\<lambda>ts e. run_bind (tree_entry (nf_tree n) attrs expr_name e) (\<lambda>us. Return (ts @ us))) ps []
      | _ \<Rightarrow> run_bind (parse_indexed [] params attrs) (\<lambda>_. Return []))"

text \<open>What a run of the code leaves: the old array, then attributes that encode the tree.\<close>

definition bufs_of :: "nattr list \<Rightarrow> bytes" where
  "bufs_of arr = concat (map na_buffer arr)"

lemma bufs_of_simps [simp]: "bufs_of [] = []" "bufs_of (xs @ ys) = bufs_of xs @ bufs_of ys" "bufs_of (a # xs) = na_buffer a @ bufs_of xs"
  by (simp_all add: bufs_of_def)

definition extends :: "nattr list \<Rightarrow> nattr list \<Rightarrow> nla list run \<Rightarrow> bool" where
  "extends arr arr' tr \<longleftrightarrow> (\<exists>ext1 ts. arr' = arr @ ext1 \<and> tr = Return ts \<and> bufs_of ext1 = nla_encs ts)"

lemma newAttribute_nest:
  assumes "newAttribute v attrs key = Return a" "sp_type (na_spec a) \<in> {''r'', ''l'', ''e''}"
  shows "na_buffer a = le_bytes 2 4 @ le_bytes 2 (js_or NLA_F_NESTED (sp_typeval (na_spec a)))"
proof -
  obtain sp buf where a: "na_spec a = sp" "na_buffer a = buf" "setBuffer sp v = Return buf"
    using assms(1) by (auto simp: newAttribute_def)
  with assms(2) have "getNestedBuf sp = Return buf" by (auto simp: setBuffer_def Let_def)
  then have "buf = le_bytes 2 4 @ le_bytes 2 (js_or NLA_F_NESTED (sp_typeval sp))"
    by (auto simp: getNestedBuf_def writeUInt16LE_def write_at_def numeral_2_eq_2 split: if_splits)
  with a show ?thesis by simp
qed

lemma updateNestHdrLen_extends:
  assumes "newAttribute v attrs key = Return a" "sp_type (na_spec a) \<in> {''r'', ''l'', ''e''}"
    and "updateNestHdrLen ((arr @ [a]) @ ext1) (length arr + 1) = Return arr'" "bufs_of ext1 = nla_encs ts"
  shows "extends arr arr' (Return [NNest (sp_typeval (na_spec a)) ts])"
proof -
  let ?n = "sum_list (map (\<lambda>a. length (na_buffer a)) ext1)"
  have n: "?n = length (nla_encs ts)"
    using assms(4) by (simp add: bufs_of_def length_concat comp_def flip: assms(4))
  obtain a' where a': "incrementNestLength a ?n = Return a'" and arr': "arr' = (arr @ [a] @ ext1)[length arr := a']"
    using assms(3) by (auto simp: updateNestHdrLen_def nth_append)
  have buf: "na_buffer a = le_bytes 2 4 @ le_bytes 2 (js_or NLA_F_NESTED (sp_typeval (na_spec a)))"
    using newAttribute_nest [OF assms(1,2)] .
  have "readUInt16LE (na_buffer a) 0 = Return 4"
    unfolding buf using readUInt16LE_at [of "[]" 0 4] by simp
  with a' have "na_buffer a' = le_bytes 2 (4 + int ?n) @ le_bytes 2 (js_or NLA_F_NESTED (sp_typeval (na_spec a)))"
    by (auto simp: incrementNestLength_def writeUInt16LE_def write_at_def buf add.commute split: if_splits)
  then have "bufs_of (a' # ext1) = nla_encs [NNest (sp_typeval (na_spec a)) ts]"
    using n assms(4) by (simp add: nla_encs_def Let_def)
  then show ?thesis unfolding extends_def arr' by (intro exI conjI) (auto simp: list_update_append)
qed

lemma fold_extends:
  assumes "\<And>arr x arr'. x \<in> set xs \<Longrightarrow> f arr x = Return arr' \<Longrightarrow> extends arr arr' (g x)"
    and "run_fold f xs arr = Return arr'"
  shows "extends arr arr' (run_fold (\<lambda>ts x. run_bind (g x) (\<lambda>us. Return (ts @ us))) xs [])"
proof -
  have "\<exists>ext1 us. arr' = arr @ ext1 \<and> bufs_of ext1 = nla_encs us
      \<and> run_fold (\<lambda>ts x. run_bind (g x) (\<lambda>us. Return (ts @ us))) xs ts = Return (ts @ us)" for ts
    using assms
  proof (induction xs arbitrary: arr ts)
    case (Cons x xs)
    then obtain arr1 where 1: "f arr x = Return arr1" and rest: "run_fold f xs arr1 = Return arr'" by auto
    from Cons.prems(1) [OF _ 1] obtain m1 us1 where
      x: "arr1 = arr @ m1" "g x = Return us1" "bufs_of m1 = nla_encs us1" by (auto simp: extends_def)
    have "extends arr arr' (g y)" if "y \<in> set xs" "f arr y = Return arr'" for arr y arr' using Cons.prems(1) that by simp
    from Cons.IH [OF this rest, of "ts @ us1"] obtain m2 us2 where
      "arr' = arr1 @ m2" "bufs_of m2 = nla_encs us2"
      "run_fold (\<lambda>ts x. run_bind (g x) (\<lambda>us. Return (ts @ us))) xs (ts @ us1) = Return ((ts @ us1) @ us2)" by blast
    with x show ?case by (intro exI [of _ "m1 @ m2"] exI [of _ "us1 @ us2"]) simp
  qed (auto intro: exI [of _ "[]"])
  from this [of "[]"] show ?thesis by (auto simp: extends_def)
qed

lemma entry_extends:
  assumes rec: "\<And>arr v at en arr'. rec arr v at en = Return arr' \<Longrightarrow> extends arr arr' (trec v at en)"
    and run: "parse_entry rec attrs en arr e = Return arr'"
  shows "extends arr arr' (tree_entry trec attrs en e)"
proof -
  obtain a where a: "newAttribute (snd e) attrs (fst e) = Return a"
    using run by (auto simp: parse_entry_def)
  let ?t = "sp_type (na_spec a)"
  consider "?t = ''r''" | "?t = ''l''" | "?t = ''e''" | "?t \<notin> {''r'', ''l'', ''e''}" by blast
  then show ?thesis
  proof cases
    case 1
    with run a obtain at nm arr1 where "getNestedAttributes a Undef = Return at" "get_prop (snd e) ''name'' = Return nm"
      and r: "rec (arr @ [a]) (snd e) at nm = Return arr1" "updateNestHdrLen arr1 (length arr + 1) = Return arr'"
      by (auto simp: parse_entry_def Let_def)
    moreover from rec [OF r(1)] obtain ext1 ts where "arr1 = (arr @ [a]) @ ext1" "trec (snd e) at nm = Return ts"
      "bufs_of ext1 = nla_encs ts" by (auto simp: extends_def)
    ultimately show ?thesis using 1 a updateNestHdrLen_extends [OF a, of arr ext1 arr' ts]
      by (simp add: tree_entry_def Let_def)
  next
    case 2
    with run a obtain vs arr1 where vs: "list_values (snd e) = Return vs" and
      r: "run_fold (\<lambda>arr elem. run_bind (getNestedAttributes a Undef) (\<lambda>at. rec arr elem at Undef)) vs (arr @ [a]) = Return arr1"
        "updateNestHdrLen arr1 (length arr + 1) = Return arr'"
      by (auto simp: parse_entry_def Let_def)
    have "extends (arr @ [a]) arr1
        (run_fold (\<lambda>ts x. run_bind (run_bind (getNestedAttributes a Undef) (\<lambda>at. trec x at Undef)) (\<lambda>us. Return (ts @ us))) vs [])"
      using rec by (intro fold_extends [OF _ r(1)]) auto
    then obtain ext1 ts where "arr1 = (arr @ [a]) @ ext1" "bufs_of ext1 = nla_encs ts"
      "run_fold (\<lambda>ts x. run_bind (getNestedAttributes a Undef) (\<lambda>at. run_bind (trec x at Undef) (\<lambda>us. Return (ts @ us)))) vs [] = Return ts"
      by (auto simp: extends_def run_bind_assoc)
    then show ?thesis using 2 a vs r(2) updateNestHdrLen_extends [OF a, of arr ext1 arr' ts]
      by (simp add: tree_entry_def Let_def)
  next
    case 3
    with run a obtain at arr1 where "getNestedAttributes a en = Return at"
      and r: "rec (arr @ [a]) (snd e) at Undef = Return arr1" "updateNestHdrLen arr1 (length arr + 1) = Return arr'"
      by (auto simp: parse_entry_def Let_def)
    moreover from rec [OF r(1)] obtain ext1 ts where "arr1 = (arr @ [a]) @ ext1" "trec (snd e) at Undef = Return ts"
      "bufs_of ext1 = nla_encs ts" by (auto simp: extends_def)
    ultimately show ?thesis using 3 a updateNestHdrLen_extends [OF a, of arr ext1 arr' ts]
      by (simp add: tree_entry_def Let_def)
  next
    case 4
    with run a have "arr' = arr @ [a]" by (simp add: parse_entry_def Let_def)
    with 4 a show ?thesis by (auto simp: tree_entry_def Let_def extends_def)
  qed
qed

lemma parseNfAttrs_extends:
  "parseNfAttrs n arr v attrs en = Return arr' \<Longrightarrow> extends arr arr' (nf_tree n v attrs en)"
proof (induction n arbitrary: arr v attrs en arr')
  case (Suc n)
  show ?case
  proof (cases "\<exists>ps. v = Obj ps")
    case True
    then obtain ps where v: "v = Obj ps" ..
    with Suc.prems have "run_fold (parse_entry (parseNfAttrs n) attrs en) ps arr = Return arr'" by simp
    from fold_extends [OF _ this, of "tree_entry (nf_tree n) attrs en"] entry_extends [OF Suc.IH]
    show ?thesis by (simp add: v)
  next
    case False
    with Suc.prems have "parse_indexed arr v attrs = Return arr'" by (cases v) auto
    then have "arr' = arr" "parse_indexed [] v attrs = Return []"
      by (auto simp: parse_indexed_def split: option.splits)
    with False show ?thesis by (cases v) (auto simp: extends_def)
  qed
qed simp

text \<open>
  C22. Nested encoding: whenever \<open>new NfAttributes\<close> succeeds, the concatenation of its buffers is the
  encoding of the attribute tree of the parameters. The lengths the code corrects in place on its flat
  array are those of the recursive reference, where every nested header counts all it contains.
\<close>

theorem NfAttributes_encode_tree:
  assumes "newNfAttributes type params = Return arr"
  shows "\<exists>obj ts. getCommandObject type = Return obj \<and> nf_tree (Suc (jdepth params)) params obj Undef = Return ts
    \<and> concat (map na_buffer arr) = nla_encs ts"
proof -
  obtain obj where obj: "getCommandObject type = Return obj"
    and run: "parseNfAttrs (Suc (jdepth params)) [] params obj Undef = Return arr"
    using assms by (auto simp: newNfAttributes_def simp del: parseNfAttrs.simps)
  from parseNfAttrs_extends [OF run] obj show ?thesis by (auto simp: extends_def bufs_of_def simp del: nf_tree.simps)
qed

definition sample_chain :: jsval where
  "sample_chain = Obj [(''table'', Str ''filter''), (''name'', Str ''input''),
     (''hook'', Obj [(''hooknum'', Num 1), (''priority'', Num 0)])]"

lemma sample_chain_attributes: "returns (newNfAttributes (Str ''chain'') sample_chain)"
  by code_simp

lemma NfAttributes_encode_tree_witness:
  "\<exists>arr obj ts. newNfAttributes (Str ''chain'') sample_chain = Return arr \<and>
     getCommandObject (Str ''chain'') = Return obj \<and>
     nf_tree (Suc (jdepth sample_chain)) sample_chain obj Undef = Return ts \<and> concat (map na_buffer arr) = nla_encs ts"
proof -
  obtain arr where "newNfAttributes (Str ''chain'') sample_chain = Return arr"
    using sample_chain_attributes by (auto simp: returns_iff)
  with NfAttributes_encode_tree [OF this] show ?thesis by blast
qed

section \<open>The code always ends\<close>

declare run_bind_eq_Diverge_iff [simp]

lemma buildRtattrBuf_not_Diverge [simp]: "buildRtattrBuf (Num t) (Buf b) \<noteq> Diverge"
  by (simp add: buildRtattrBuf_def is_num_def is_buf_def buf_of_def Let_def rtattr_pack)

lemma nf_steps_not_Diverge [simp]:
  "attr_buf t b \<noteq> Diverge" "string_to_number s \<noteq> Diverge" "value_of_number v \<noteq> Diverge"
  "generic_bytes s \<noteq> Diverge" "getSpec at tab key \<noteq> Diverge" "attribute_type tab \<noteq> Diverge"
  "writeUInt16LE buf n i \<noteq> Diverge" "getCommandObject ty \<noteq> Diverge" "list_values v \<noteq> Diverge"
  by (auto simp: attr_buf_def string_to_number_def value_of_number_def generic_bytes_def getSpec_def
      getValue_def attribute_type_def writeUInt16LE_def getCommandObject_def list_values_def Let_def
      split: option.splits jsval.splits prod.splits list.splits attr_entry.splits)

lemma setBuffer_not_Diverge [simp]: "setBuffer sp v \<noteq> Diverge"
  by (auto simp: setBuffer_def getStringBuffer_def getNumberBuffer_def getNestedBuf_def getGenericBuffer_def Let_def
      split: option.splits jsval.splits)

lemma attribute_not_Diverge [simp]:
  "newAttribute v tab key \<noteq> Diverge" "getNestedAttributes a en \<noteq> Diverge"
  "updateNestHdrLen arr n \<noteq> Diverge" "parse_indexed arr v tab \<noteq> Diverge"
  by (auto simp: newAttribute_def getNestedAttributes_def updateNestHdrLen_def incrementNestLength_def
      parse_indexed_def split: option.splits)

lemma run_fold_not_Diverge: "(\<And>s x. x \<in> set xs \<Longrightarrow> f s x \<noteq> Diverge) \<Longrightarrow> run_fold f xs s \<noteq> Diverge"
  by (induction xs arbitrary: s) auto

lemma parseNfAttrs_not_Diverge: "jdepth v < n \<Longrightarrow> parseNfAttrs n arr v attrs en \<noteq> Diverge"
proof (induction n arbitrary: arr v attrs en)
  case (Suc n)
  show ?case
  proof (cases v)
    case (Obj ps)
    have "parse_entry (parseNfAttrs n) attrs en arr e \<noteq> Diverge" if "e \<in> set ps" for arr e
    proof -
      have d: "jdepth (snd e) < n" using jdepth_entry [OF that] Suc.prems Obj by (simp del: jdepth.simps)
      have "run_fold (\<lambda>arr elem. run_bind (getNestedAttributes a Undef) (\<lambda>at. parseNfAttrs n arr elem at Undef)) vs s \<noteq> Diverge"
        if "list_values (snd e) = Return vs" for a vs s
      proof (rule run_fold_not_Diverge)
        fix s x
        assume "x \<in> set vs"
        then have "jdepth x < n" using jdepth_list_values [OF that] d by fastforce
        then show "run_bind (getNestedAttributes a Undef) (\<lambda>at. parseNfAttrs n s x at Undef) \<noteq> Diverge"
          using Suc.IH by simp
      qed
      with Suc.IH d show ?thesis by (simp add: parse_entry_def Let_def)
    qed
    then show ?thesis by (simp add: Obj run_fold_not_Diverge)
  qed simp_all
qed simp

text \<open>
  C39. Building the attributes of a command ends for every command type and every parameter object:
  the recursion needs no more levels than the parameters are deep.
\<close>

theorem newNfAttributes_terminates: "newNfAttributes type params \<noteq> Diverge"
  using parseNfAttrs_not_Diverge [of params "Suc (jdepth params)"] by (simp add: newNfAttributes_def del: parseNfAttrs.simps)

section \<open>Numbers\<close>

lemma be_bytes_val: "le_val (rev (be_bytes n (Some v))) = v mod 256 ^ n"
  by (simp add: be_bytes_def le_val_le_bytes)

lemma js_shl_32: "js_shl v 32 = to_int32 v"
  by (simp add: js_shl_def to_int32_def)

lemma be_bytes_to_int32: "be_bytes 4 (Some (to_int32 v)) = be_bytes 4 (Some v)"
proof -
  have "to_int32 v mod 256 ^ 4 = v mod 256 ^ 4" using to_int32_mod [of 32 v] by simp
  then have "le_bytes 4 (to_int32 v mod 256 ^ 4) = le_bytes 4 (v mod 256 ^ 4)" by simp
  then show ?thesis unfolding be_bytes_def le_bytes_mod by simp
qed

text \<open>
  A number of 32 bits is encoded in network byte order modulo \<open>2 ^ 32\<close>, under its attribute
  number; for a number of 64 bits the shift by 32 places does nothing, so the high word repeats the low
  one and the encoded value is \<open>2 ^ 32 + 1\<close> times the value modulo \<open>2 ^ 32\<close>.
\<close>

theorem getNumberBuffer_value:
  assumes "0 \<le> t" "t < 65536"
  shows "\<exists>d d'. getNumberBuffer \<lparr>sp_typeval = t, sp_type = ''n'', sp_size = Some ''32''\<rparr> (Num n) = Return (rtattr_enc (nat t, d))
      \<and> length d = 4 \<and> le_val (rev d) = n mod 2 ^ 32
    \<and> getNumberBuffer \<lparr>sp_typeval = t, sp_type = ''n'', sp_size = Some ''64''\<rparr> (Num n) = Return (rtattr_enc (nat t, d'))
      \<and> length d' = 8 \<and> le_val (rev d') = (2 ^ 32 + 1) * (n mod 2 ^ 32)"
proof (intro exI conjI)
  have sz: "string_to_number ''32'' = Return (Some 32)" "string_to_number ''64'' = Return (Some 64)" by code_simp+
  have ab: "attr_buf t d = Return (rtattr_enc (nat t, d))" if "length d \<le> 8" for d
  proof -
    have "rtattr_ok (nat t, d)" using that assms by (simp add: rtattr_ok_def nat_less_iff)
    from buildRtattrBuf_enc [OF this] assms show ?thesis by (simp add: attr_buf_def)
  qed
  have len: "length (num_bytes 4 (Some n)) = 4" "length (num_bytes 8 (Some n)) = 8"
    by (simp_all add: num_bytes_def be_bytes_def)
  show "getNumberBuffer \<lparr>sp_typeval = t, sp_type = ''n'', sp_size = Some ''32''\<rparr> (Num n) = Return (rtattr_enc (nat t, num_bytes 4 (Some n)))"
    by (simp add: getNumberBuffer_def sz value_of_number_def ab len)
  show "getNumberBuffer \<lparr>sp_typeval = t, sp_type = ''n'', sp_size = Some ''64''\<rparr> (Num n) = Return (rtattr_enc (nat t, num_bytes 8 (Some n)))"
    by (simp add: getNumberBuffer_def sz value_of_number_def ab len)
  show "le_val (rev (num_bytes 4 (Some n))) = n mod 2 ^ 32"
    by (simp add: num_bytes_def be_bytes_val)
  have app: "le_val (xs @ ys) = le_val xs + 256 ^ length xs * le_val ys" for xs ys
    by (induction xs) (simp_all add: algebra_simps)
  show "le_val (rev (num_bytes 8 (Some n))) = (2 ^ 32 + 1) * (n mod 2 ^ 32)"
    by (simp add: num_bytes_def js_shl_32 be_bytes_to_int32 app be_bytes_val) (simp add: be_bytes_def)
qed (simp_all add: num_bytes_def be_bytes_def)

lemma getNumberBuffer_value_witness:
  "\<exists>d d'. getNumberBuffer \<lparr>sp_typeval = 3, sp_type = ''n'', sp_size = Some ''32''\<rparr> (Num 1) = Return (rtattr_enc (nat 3, d))
      \<and> length d = 4 \<and> le_val (rev d) = 1 mod 2 ^ 32
    \<and> getNumberBuffer \<lparr>sp_typeval = 3, sp_type = ''n'', sp_size = Some ''64''\<rparr> (Num 1) = Return (rtattr_enc (nat 3, d'))
      \<and> length d' = 8 \<and> le_val (rev d') = (2 ^ 32 + 1) * (1 mod 2 ^ 32)"
  by (rule getNumberBuffer_value) simp_all

text \<open>
  The compatibility attributes of a rule cannot be encoded: \<open>split('_')[1]\<close> of their table name
  is \<open>rule\<close>, so their keys are looked up among the attributes of a rule, which does not have them.
\<close>

theorem rule_compat_unusable:
  "newNfAttributes (Str ''rule'') (Obj [(''compat'', Obj [(''proto'', Num 6)])])
    = Throw (JsError ''key NFTA_RULE_PROTO does not exist in command object for type undefined'')"
  by code_simp

end
