(* ===== verification/IpCommand.thy ===== *)
theory IpCommand
  imports IpParse NfAttributes
begin

text \<open>
  The commands of \<open>ip/ipcommand.js\<close> and what all commands of the directory \<open>ip\<close> share.

  A command talks to a socket and to the callback of its caller. The model keeps the sequence of these
  interactions as a trace of events beside the outcome of the code. The socket is a parameter: the error
  of \<open>create\<close>, which calls back at once, and the reply to the \<open>n\<close>-th message the command sends, on
  which the continuation runs. Printing is left out.
\<close>

section \<open>Traces\<close>

datatype ip_event =
    Create props \<comment> \<open>\<open>sock.create\<close> with its options\<close>
  | Send msgreq
  | Close
  | Callback "jsval list" \<comment> \<open>the caller's callback with its arguments\<close>

type_synonym 'a act = "ip_event list \<times> 'a run"

definition act_return :: "'a \<Rightarrow> 'a act" where
  "act_return x = ([], Return x)"

definition act_run :: "'a run \<Rightarrow> 'a act" where
  "act_run r = ([], r)"

definition act_throw :: "js_error \<Rightarrow> 'a act" where
  "act_throw e = ([], Throw e)"

definition emit :: "ip_event \<Rightarrow> unit act" where
  "emit e = ([e], Return ())"

definition act_bind :: "'a act \<Rightarrow> ('a \<Rightarrow> 'b act) \<Rightarrow> 'b act" where
  "act_bind m f =
     (case snd m of
        Return x \<Rightarrow> (fst m @ fst (f x), snd (f x))
      | Throw e \<Rightarrow> (fst m, Throw e)
      | Diverge \<Rightarrow> (fst m, Diverge))"

definition act_seq :: "unit act \<Rightarrow> 'b act \<Rightarrow> 'b act" where
  "act_seq m m' = act_bind m (\<lambda>_. m')"

lemma act_bind_simps [simp]:
  "act_bind (act_return x) f = f x"
  "act_bind (act_run (Return x)) f = f x"
  "act_bind (act_run (Throw e)) f = act_throw e"
  "act_bind (act_run Diverge) f = act_run Diverge"
  "act_bind (act_throw e) f = act_throw e"
  by (simp_all add: act_bind_def act_return_def act_run_def act_throw_def)

lemma act_seq_emit [simp]:
  "fst (act_seq (emit e) m) = e # fst m" "snd (act_seq (emit e) m) = snd m"
  by (simp_all add: act_seq_def act_bind_def emit_def)

lemma emit_sel [simp]: "fst (emit e) = [e]" "snd (emit e) = Return ()"
  by (simp_all add: emit_def)

lemma act_seq_return [simp]: "act_seq (act_return u) m = m"
  by (simp add: act_seq_def)

lemma act_bind_assoc: "act_bind (act_bind m f) g = act_bind m (\<lambda>x. act_bind (f x) g)"
  by (cases "snd m") (auto simp: act_bind_def split: run.splits)

text \<open>The environment of a command: the native addon and the socket.\<close>

record netkit =
  nk_native :: native
  nk_create :: "props \<Rightarrow> jsval"
  nk_reply :: "nat \<Rightarrow> msgreq \<Rightarrow> jsval \<times> bytes list"

text \<open>An environment for examples: interface 3, no addresses, and a socket that answers without data.\<close>

definition quiet_netkit :: netkit where
  "quiet_netkit =
     \<lparr>nk_native = \<lparr>fromAddress = \<lambda>a f. ErrorObj ''invalid'', toAddress = \<lambda>a f. ErrorObj ''invalid'', ifNameToIndex = \<lambda>n. Num 3\<rparr>,
      nk_create = \<lambda>os. Null, nk_reply = \<lambda>n r. (Null, [])\<rparr>"

lemma quiet_netkit_simps [simp]:
  "ifNameToIndex (nk_native quiet_netkit) n = Num 3" "toAddress (nk_native quiet_netkit) a f = ErrorObj ''invalid''"
  "nk_create quiet_netkit os = Null" "nk_reply quiet_netkit k r = (Null, [])"
  by (simp_all add: quiet_netkit_def)

definition is_error :: "jsval \<Rightarrow> bool" where
  "is_error v = (case v of ErrorObj m \<Rightarrow> True | _ \<Rightarrow> False)"

text \<open>\<open>util.inspect\<close>: of an error, its text in brackets.\<close>

definition inspect :: "jsval \<Rightarrow> string" where
  "inspect v = (if is_error v then ''['' @ to_string v @ '']'' else to_string v)"

text \<open>
  \<open>nl.sendNetlinkCommand(sock, nl_hdr, bufs, cb)\<close> with the reply: on an error the callback gets only
  the error.
\<close>

definition nl_send :: "netkit \<Rightarrow> nat \<Rightarrow> meta \<Rightarrow> bytes option list \<Rightarrow> (jsval \<Rightarrow> bytes list \<Rightarrow> unit act) \<Rightarrow> unit act" where
  "nl_send nk n nl_hdr bufs cb =
     act_bind (act_run (sendNetlinkCommand nl_hdr bufs)) (\<lambda>msgreq.
     act_seq (emit (Send msgreq))
       (let (err, bytes) = nk_reply nk n msgreq in if truthy err then cb err [] else cb err bytes))"

section \<open>Options of a command\<close>

definition has_own :: "props \<Rightarrow> string \<Rightarrow> bool" where
  "has_own opts k \<longleftrightarrow> map_of opts k \<noteq> None"

text \<open>\<open>ToInt32\<close> of an operand of \<open>|\<close>, and the two ways an option ends up in a header field.\<close>

definition bit_operand :: "jsval \<Rightarrow> int run" where
  "bit_operand v =
     (case v of
        Num n \<Rightarrow> Return n
      | JBool b \<Rightarrow> Return (if b then 1 else 0)
      | Str s \<Rightarrow> run_bind (string_to_number s) (\<lambda>n. Return (case n of None \<Rightarrow> 0 | Some k \<Rightarrow> k))
      | Arr vs \<Rightarrow> Throw (NotModelled ''number conversion'')
      | Buf b \<Rightarrow> Throw (NotModelled ''number conversion'')
      | _ \<Rightarrow> Return 0)"

definition set_opt :: "props \<Rightarrow> string \<Rightarrow> string \<Rightarrow> meta \<Rightarrow> meta" where
  "set_opt opts k field o1 = (if has_own opts k then meta_set field (obj_get opts k) o1 else o1)"

definition or_field :: "string \<Rightarrow> jsval \<Rightarrow> meta \<Rightarrow> meta run" where
  "or_field field v o1 =
     run_bind (bit_operand (meta_get o1 field)) (\<lambda>a.
     run_bind (bit_operand v) (\<lambda>b. Return (meta_set field (Num (js_or a b)) o1)))"

definition or_opt :: "props \<Rightarrow> string \<Rightarrow> string \<Rightarrow> meta \<Rightarrow> meta run" where
  "or_opt opts k field o1 = (if has_own opts k then or_field field (obj_get opts k) o1 else Return o1)"

text \<open>\<open>asHexBuffer(v)\<close> in a debug line: it throws for \<open>undefined\<close>.\<close>

definition as_hex_buffer :: "'a option \<Rightarrow> unit run" where
  "as_hex_buffer r = (case r of None \<Rightarrow> Throw TypeError | Some b \<Rightarrow> Return ())"

definition rtc :: "string \<Rightarrow> jsval" where
  "rtc k = obj_get rt_consts k"

section \<open>netlinkInfoCommand\<close>

definition info_request :: "props \<Rightarrow> (meta \<times> bytes option list) run" where
  "info_request opts =
     run_bind buildHdr (\<lambda>h0.
       let h1 = meta_set ''_type'' (rtc ''RTM_GETLINK'') (meta_set ''_flags'' (Num NLM_F_REQUEST) h0);
           h2 = set_opt opts ''type'' ''_type'' h1 in
     run_bind buildInfomsg (\<lambda>info_msg0.
     run_bind (or_opt opts ''flags'' ''_flags'' h2) (\<lambda>h3.
     run_bind (or_opt opts ''family'' ''_family'' info_msg0) (\<lambda>info_msg.
     run_bind (meta_pack info_msg) (\<lambda>b.
     run_bind (buildRtattrBuf (rtc ''IFLA_EXT_MASK'') (Buf (le_bytes 4 (num_or_0 (rtc ''RTEXT_FILTER_VF''))))) (\<lambda>rt_attr.
     run_bind (as_hex_buffer rt_attr) (\<lambda>_.
       Return (set_opt opts ''family'' ''family'' h3, [b, rt_attr]))))))))"

definition netlinkInfoCommand :: "netkit \<Rightarrow> nat \<Rightarrow> props \<Rightarrow> (jsval \<Rightarrow> bytes list \<Rightarrow> unit act) \<Rightarrow> unit act" where
  "netlinkInfoCommand nk n opts cb =
     (let ifndex = (if has_own opts ''ifname'' then ifNameToIndex (nk_native nk) (obj_get opts ''ifname'') else Undef) in
      if is_error ifndex then cb ifndex []
      else act_bind (act_run (info_request opts)) (\<lambda>(nl_hdr, bufs). nl_send nk n nl_hdr bufs cb))"

section \<open>sendInquiry\<close>

definition dump_flags :: int where
  "dump_flags = js_or (js_or NLM_F_REQUEST NLM_F_ROOT) NLM_F_MATCH"

definition getlink_command_opts :: props where
  "getlink_command_opts = [(''type'', rtc ''RTM_GETLINK''), (''flags'', Num dump_flags)]"

text \<open>The loop over the messages of a reply; data that does not pass the filters is \<open>undefined\<close>.\<close>

definition parse_bufs :: "netkit \<Rightarrow> jsval \<Rightarrow> jsval \<Rightarrow> bytes list \<Rightarrow> jsval list run" where
  "parse_bufs nk filters links bufs =
     run_bind (run_map (\<lambda>b. parseAttributes (nk_native nk) filters links (Buf b)) bufs) (\<lambda>ds.
       Return (filter (\<lambda>d. d \<noteq> Undef) ds))"

definition parse_links :: "bytes list \<Rightarrow> jsval list run" where
  "parse_links bufs = run_map (\<lambda>b. run_bind (parseRtattributes (Buf b)) (\<lambda>l. Return (Obj l))) bufs"

text \<open>
  \<open>sendInquiry(nkObject, filters, command, cb)\<close>: first all links, for their names and addresses, and then
  the command; without a command the links are the answer. The messages it sends have the numbers 0 and 1.
\<close>

definition sendInquiry :: "netkit \<Rightarrow> jsval \<Rightarrow> props option \<Rightarrow> (jsval list \<Rightarrow> unit act) \<Rightarrow> unit act" where
  "sendInquiry nk filters command cb =
     act_seq (emit (Create []))
       (let err0 = nk_create nk [] in
        if truthy err0 then act_seq (emit Close) (cb [err0])
        else
          netlinkInfoCommand nk 0 getlink_command_opts (\<lambda>err bufs.
            if truthy err then act_seq (emit Close) (cb [err])
            else
              act_bind (act_run (parse_links bufs)) (\<lambda>links.
                case command of
                  None \<Rightarrow>
                    act_bind (act_run (parse_bufs nk filters Null bufs)) (\<lambda>ldata.
                      act_seq (emit Close) (cb [Null, Arr ldata]))
                | Some opts \<Rightarrow>
                    netlinkInfoCommand nk 1 opts (\<lambda>err c_bufs.
                      if truthy err then act_seq (emit Close) (cb [err])
                      else
                        act_bind (act_run (parse_bufs nk filters (Arr links) c_bufs)) (\<lambda>cdata.
                          act_seq (emit Close) (cb [Null, Arr cdata]))))))"

definition user_callback :: "jsval list \<Rightarrow> unit act" where
  "user_callback args = emit (Callback args)"

definition getRoutes :: "netkit \<Rightarrow> jsval \<Rightarrow> unit act" where
  "getRoutes nk filter_spec =
     (let filters = (if filter_spec \<noteq> Null then filter_spec else Obj [(''table'', Str ''main'')]) in
      sendInquiry nk filters (Some [(''type'', rtc ''RTM_GETROUTE''), (''flags'', Num dump_flags)]) user_callback)"

definition getAddresses :: "netkit \<Rightarrow> jsval \<Rightarrow> unit act" where
  "getAddresses nk filter_spec =
     (let filters = (if filter_spec \<noteq> Null then filter_spec else Obj []) in
      sendInquiry nk filters (Some [(''type'', rtc ''RTM_GETADDR''), (''flags'', Num dump_flags)]) user_callback)"

definition getLinks :: "netkit \<Rightarrow> jsval \<Rightarrow> unit act" where
  "getLinks nk filter_spec =
     (let filters = (if filter_spec \<noteq> Null then filter_spec else Obj []) in
      sendInquiry nk filters None user_callback)"

section \<open>How often the caller is answered\<close>

text \<open>
  \<open>counts P n m\<close>: if \<open>m\<close> runs to its end, exactly \<open>n\<close> of its events satisfy \<open>P\<close>.
\<close>

definition is_callback :: "ip_event \<Rightarrow> bool" where
  "is_callback e = (case e of Callback args \<Rightarrow> True | _ \<Rightarrow> False)"

definition is_close :: "ip_event \<Rightarrow> bool" where
  "is_close e \<longleftrightarrow> e = Close"

definition counts :: "(ip_event \<Rightarrow> bool) \<Rightarrow> nat \<Rightarrow> unit act \<Rightarrow> bool" where
  "counts P n m \<longleftrightarrow> (snd m = Return () \<longrightarrow> length (filter P (fst m)) = n)"

lemma is_event_simps [simp]:
  "is_callback (Callback args)" "\<not> is_callback Close" "\<not> is_callback (Send r)" "\<not> is_callback (Create os)"
  "is_close Close" "\<not> is_close (Callback args)" "\<not> is_close (Send r)" "\<not> is_close (Create os)"
  by (simp_all add: is_callback_def is_close_def)

lemma counts_emit_seq [simp]:
  "counts P n (act_seq (emit e) m) \<longleftrightarrow> (if P e then counts P (n - 1) m \<and> (snd m = Return () \<longrightarrow> 0 < n) else counts P n m)"
  by (auto simp: counts_def)

lemma counts_emit [simp]: "counts P n (emit e) \<longleftrightarrow> n = (if P e then 1 else 0)"
  by (auto simp: counts_def emit_def)

lemma counts_user_callback [simp]: "counts P n (user_callback args) \<longleftrightarrow> n = (if P (Callback args) then 1 else 0)"
  by (simp add: user_callback_def)

lemma counts_return [simp]: "counts P n (act_return ()) \<longleftrightarrow> n = 0"
  by (auto simp: counts_def act_return_def)

lemma counts_throw [simp]: "counts P n (act_throw e)"
  by (simp add: counts_def act_throw_def)

lemma counts_run_bind [simp]:
  "counts P n (act_bind (act_run r) f) \<longleftrightarrow> (\<forall>x. r = Return x \<longrightarrow> counts P n (f x))"
  by (cases r) (auto simp: counts_def act_bind_def act_run_def)

lemma counts_Diverge [simp]: "counts P n (act_run Diverge)"
  by (simp add: counts_def act_run_def)

lemma act_seq_outcome: "snd (act_seq m m') = Return y \<longleftrightarrow> snd m = Return () \<and> snd m' = Return y"
  by (cases "snd m") (auto simp: act_seq_def act_bind_def)

lemma act_seq_events: "snd m = Return () \<Longrightarrow> fst (act_seq m m') = fst m @ fst m'"
  by (simp add: act_seq_def act_bind_def)

lemma counts_seq: "counts P a m \<Longrightarrow> counts P b m' \<Longrightarrow> counts P (a + b) (act_seq m m')"
  by (auto simp: counts_def act_seq_outcome act_seq_events)

text \<open>
  The contract of a command that is built from options and sent: when it runs to its end, it hands over to
  its continuation exactly once, and creates, closes and answers nothing itself.
\<close>

locale reporting =
  fixes command :: "netkit \<Rightarrow> nat \<Rightarrow> props \<Rightarrow> (jsval \<Rightarrow> bytes list \<Rightarrow> unit act) \<Rightarrow> unit act"
  assumes reports: "(\<And>r. \<not> P (Send r)) \<Longrightarrow> (\<And>err bufs. counts P c (cb err bufs)) \<Longrightarrow> counts P c (command nk n opts cb)"
begin

lemma answers:
  "(\<And>err bufs. counts is_callback c (cb err bufs)) \<Longrightarrow> counts is_callback c (command nk n opts cb)"
  by (rule reports) simp_all

lemma closes:
  "(\<And>err bufs. counts is_close c (cb err bufs)) \<Longrightarrow> counts is_close c (command nk n opts cb)"
  by (rule reports) simp_all

end

lemma counts_nl_send:
  "(\<And>r. \<not> P (Send r)) \<Longrightarrow> (\<And>err bufs. counts P c (cb err bufs)) \<Longrightarrow> counts P c (nl_send nk n h bs cb)"
  by (simp add: nl_send_def split: prod.splits)

text \<open>
  The stronger contract of most commands: all they do themselves is sending, and then they either end with
  a call of their continuation or fail without having called it.
\<close>

inductive hands_over :: "(jsval \<Rightarrow> bytes list \<Rightarrow> unit act) \<Rightarrow> unit act \<Rightarrow> bool" for cb where
  answers_with: "hands_over cb (cb err bufs)"
| sends_first: "hands_over cb m \<Longrightarrow> hands_over cb (act_seq (emit (Send r)) m)"
| fails: "r \<noteq> Return () \<Longrightarrow> hands_over cb (act_run r)"

lemma hands_over_throw [simp]: "hands_over cb (act_throw e)"
  using fails [of "Throw e" cb] by (simp add: act_run_def act_throw_def)

lemma hands_over_run_bind:
  "(\<And>x. r = Return x \<Longrightarrow> hands_over cb (f x)) \<Longrightarrow> hands_over cb (act_bind (act_run r) f)"
  using fails [of Diverge cb] by (cases r) simp_all

lemma hands_over_nl_send: "hands_over cb (nl_send nk n h bs cb)"
  by (auto simp: nl_send_def intro!: hands_over_run_bind sends_first answers_with split: prod.split)

lemmas hands_over_intros = hands_over_nl_send hands_over_run_bind answers_with

locale handing_over =
  fixes command :: "netkit \<Rightarrow> nat \<Rightarrow> props \<Rightarrow> (jsval \<Rightarrow> bytes list \<Rightarrow> unit act) \<Rightarrow> unit act"
  assumes hands_over: "hands_over cb (command nk n opts cb)"

sublocale handing_over \<subseteq> reporting command
proof unfold_locales
  fix P :: "ip_event \<Rightarrow> bool" and c nk n opts and cb :: "jsval \<Rightarrow> bytes list \<Rightarrow> unit act"
  assume "\<And>r. \<not> P (Send r)" "\<And>err bufs. counts P c (cb err bufs)"
  with hands_over [of cb nk n opts] show "counts P c (command nk n opts cb)"
    by (induction rule: hands_over.induct) (auto simp: counts_def act_run_def)
qed

interpretation info: handing_over netlinkInfoCommand
  by unfold_locales (auto simp: netlinkInfoCommand_def Let_def intro!: hands_over_intros split: prod.split)

lemma sendInquiry_answers:
  assumes "\<And>e. counts is_callback a (cb [e])" "\<And>ds. counts is_callback a (cb [Null, Arr ds])"
  shows "counts is_callback a (sendInquiry nk filters command cb)"
  using assms by (auto simp: sendInquiry_def Let_def intro!: info.answers split: option.splits)

lemma sendInquiry_closes:
  assumes "\<And>e. counts is_close b (cb [e])" "\<And>ds. counts is_close b (cb [Null, Arr ds])"
  shows "counts is_close (Suc b) (sendInquiry nk filters command cb)"
  using assms by (auto simp: sendInquiry_def Let_def intro!: info.closes split: option.splits)

lemma inquiry_answers: "counts is_callback 1 (sendInquiry nk filters command user_callback)"
  by (rule sendInquiry_answers) simp_all

section \<open>What an inquiry sends\<close>

definition ifinfo_bytes :: "int \<Rightarrow> int \<Rightarrow> int \<Rightarrow> int \<Rightarrow> bytes" where
  "ifinfo_bytes family index flags change =
     le_bytes 1 (clamp_el (unsigned_el 1) family) @ [0, 0, 0] @ le_bytes 4 (clamp_el (signed_el 4) index) @
     le_bytes 4 (clamp_el (unsigned_el 4) flags) @ le_bytes 4 (clamp_el (unsigned_el 4) change)"

definition is_ifinfo :: "meta \<Rightarrow> bool" where
  "is_ifinfo m \<longleftrightarrow> m_format m = ifinfomsg_fmt \<and>
     m_keylist m = [''_family'', ''_if_pad'', ''_if_type'', ''_if_index'', ''_if_flags'', ''_if_change''] \<and>
     meta_get m ''_if_pad'' = Num 0 \<and> meta_get m ''_if_type'' = Num 0"

lemma buildInfomsg_value:
  "\<exists>i. buildInfomsg = Return i \<and> is_ifinfo i \<and> meta_get i ''_family'' = Num 0 \<and> meta_get i ''_if_index'' = Num 0 \<and>
     meta_get i ''_if_flags'' = Num 0 \<and> meta_get i ''_if_change'' = Num 0"
  by (simp add: buildInfomsg_def metaObject_def scan_ifinfomsg calcLength_def toValArray_def map_filter_def zero_fields_def is_ifinfo_def)

lemma is_ifinfo_set [simp]:
  "k \<notin> {''_if_pad'', ''_if_type''} \<Longrightarrow> is_ifinfo (meta_set k v m) = is_ifinfo m"
  by (auto simp: is_ifinfo_def)

lemma ifinfo_pack:
  assumes "is_ifinfo m" "meta_get m ''_family'' = Num a" "meta_get m ''_if_index'' = Num i" "meta_get m ''_if_flags'' = Num f"
    "meta_get m ''_if_change'' = Num c"
  shows "meta_pack m = Return (Some (ifinfo_bytes a i f c))"
proof -
  have z: "EnInt False (unsigned_el (Suc (Suc 0))) 0 = [0, 0]" "word_of_int (clamp_el (unsigned_el (Suc 0)) 0) = (0 :: byte)"
    by code_simp+
  have "all_nums m" using assms by (simp add: all_nums_def is_ifinfo_def num_of_def)
  then have "meta_pack m = Return (Some (enc_elems (fmt_be (m_format m)) (scan_fmt (m_format m)) (meta_nums m)))"
    by (rule meta_pack_nums) (use assms(1) in \<open>simp_all add: is_ifinfo_def scan_ifinfomsg\<close>)
  then show ?thesis using assms
    by (simp add: is_ifinfo_def meta_nums_def num_of_def scan_ifinfomsg ifinfo_bytes_def z numeral_2_eq_2)
qed

lemma info_request_dump:
  "\<exists>h. info_request [(''type'', Num t), (''flags'', Num f)] =
     Return (h, [Some (replicate 16 0), Some [8, 0, 29, 0, 1, 0, 0, 0]]) \<and> is_hdr h \<and> meta_get h ''_type'' = Num t \<and>
     meta_get h ''_flags'' = Num (js_or NLM_F_REQUEST f) \<and> meta_get h ''_seq'' = Num 0 \<and> meta_get h ''_pid'' = Num 0"
proof -
  obtain h where h: "buildHdr = Return h" "is_hdr h" "meta_get h ''_seq'' = Num 0" "meta_get h ''_pid'' = Num 0"
    using buildHdr_value by blast
  obtain i where i: "buildInfomsg = Return i" "is_ifinfo i" "meta_get i ''_family'' = Num 0" "meta_get i ''_if_index'' = Num 0"
     "meta_get i ''_if_flags'' = Num 0" "meta_get i ''_if_change'' = Num 0"
    using buildInfomsg_value by blast
  have p: "meta_pack i = Return (Some (replicate 16 0))"
  proof -
    have "ifinfo_bytes 0 0 0 0 = replicate 16 0" by code_simp
    with ifinfo_pack [OF i(2-6)] show ?thesis by simp
  qed
  have a: "buildRtattrBuf (rtc ''IFLA_EXT_MASK'') (Buf (le_bytes 4 (num_or_0 (rtc ''RTEXT_FILTER_VF''))))
      = Return (Some [8, 0, 29, 0, 1, 0, 0, 0])" by code_simp
  have g: "rtc ''RTM_GETLINK'' = Num 18" by code_simp
  show ?thesis
    by (simp add: info_request_def h(1) i(1) p a g set_opt_def or_opt_def has_own_def or_field_def bit_operand_def as_hex_buffer_def
        is_hdr_set h(2-4))
qed

definition dump_message :: "int \<Rightarrow> bytes" where
  "dump_message t = hdr_bytes 40 t (js_or NLM_F_REQUEST dump_flags) 0 0 @ replicate 16 0 @ [8, 0, 29, 0, 1, 0, 0, 0]"

text \<open>What sending a message with a complete header amounts to.\<close>

lemma nl_send_framed:
  assumes "is_hdr h" "meta_get h ''_type'' = Num t" "meta_get h ''_flags'' = Num f" "meta_get h ''_seq'' = Num 0" "meta_get h ''_pid'' = Num 0"
    "msg = hdr_bytes (16 + int (length (concat bs))) t f 0 0 @ concat bs"
  shows "nl_send nk n h (map Some bs) cb =
    act_seq (emit (Send [msg])) (let (err, bufs) = nk_reply nk n [msg] in if truthy err then cb err [] else cb err bufs)"
  by (simp add: nl_send_def sendNetlinkCommand_def frame_message_eq [OF assms(1-5)] assms(6))

lemma netlinkInfoCommand_dump:
  "netlinkInfoCommand nk n [(''type'', Num t), (''flags'', Num dump_flags)] cb =
     act_seq (emit (Send [dump_message t]))
       (let (err, bufs) = nk_reply nk n [dump_message t] in if truthy err then cb err [] else cb err bufs)"
proof -
  obtain h where h: "info_request [(''type'', Num t), (''flags'', Num dump_flags)] =
      Return (h, map Some [replicate 16 0, [8, 0, 29, 0, 1, 0, 0, 0]])" "is_hdr h" "meta_get h ''_type'' = Num t"
      "meta_get h ''_flags'' = Num (js_or NLM_F_REQUEST dump_flags)" "meta_get h ''_seq'' = Num 0" "meta_get h ''_pid'' = Num 0"
    using info_request_dump [of t dump_flags] by auto
  have "dump_message t = hdr_bytes (16 + int (length (concat [replicate 16 0, [8, 0, 29, 0, 1, 0, 0, 0 :: byte]]))) t
      (js_or NLM_F_REQUEST dump_flags) 0 0 @ concat [replicate 16 0, [8, 0, 29, 0, 1, 0, 0, 0]]"
    by (simp add: dump_message_def)
  from nl_send_framed [OF h(2-6) this] show ?thesis
    by (simp only: netlinkInfoCommand_def has_own_def map_of.simps h(1) act_bind_simps prod.case Let_def) (simp add: is_error_def)
qed

lemma getlink_command:
  "netlinkInfoCommand nk n getlink_command_opts cb = act_seq (emit (Send [dump_message RTM_GETLINK]))
     (let (err, bufs) = nk_reply nk n [dump_message RTM_GETLINK] in if truthy err then cb err [] else cb err bufs)"
proof -
  have o: "getlink_command_opts = [(''type'', Num RTM_GETLINK), (''flags'', Num dump_flags)]"
    by (simp add: getlink_command_opts_def rtc_def) code_simp
  show ?thesis unfolding o by (rule netlinkInfoCommand_dump)
qed

text \<open>
  C10. An inquiry on a socket that works: the dump of the links, the dump of what was asked for, one close,
  and one answer with the data of the second reply that passes the filters.
\<close>

theorem sendInquiry_trace:
  assumes "\<not> truthy (nk_create nk [])"
    and "nk_reply nk 0 [dump_message RTM_GETLINK] = (e0, bufs)" "\<not> truthy e0" "parse_links bufs = Return links"
    and "nk_reply nk 1 [dump_message t] = (e1, c_bufs)" "\<not> truthy e1" "parse_bufs nk filters (Arr links) c_bufs = Return cdata"
  shows "sendInquiry nk filters (Some [(''type'', Num t), (''flags'', Num dump_flags)]) user_callback =
    ([Create [], Send [dump_message RTM_GETLINK], Send [dump_message t], Close, Callback [Null, Arr cdata]], Return ())"
  using assms by (intro prod_eqI) (simp_all add: sendInquiry_def getlink_command netlinkInfoCommand_dump user_callback_def)

lemma sendInquiry_trace_witness:
  "sendInquiry quiet_netkit Null (Some [(''type'', Num 26), (''flags'', Num dump_flags)]) user_callback =
    ([Create [], Send [dump_message RTM_GETLINK], Send [dump_message 26], Close, Callback [Null, Arr []]], Return ())"
  by (rule sendInquiry_trace [of _ Null "[]" "[]" 26 Null "[]"]) (simp_all add: parse_links_def parse_bufs_def)

end
