(* ===== verification/IpLink.thy ===== *)
theory IpLink
  imports IpCommand
begin

text \<open>\<open>ip/link.js\<close>: showing links, switching them up and down and setting their address.\<close>

section \<open>Attributes\<close>

text \<open>
  \<open>new Buffer(s, 'hex')\<close>: two digits per byte, up to the first pair that is not hexadecimal.
\<close>

fun hex_decode :: "string \<Rightarrow> bytes" where
  "hex_decode (a # b # cs) =
     (if is_xdigit a \<and> is_xdigit b then word_of_int (int (digits_value 16 [a, b])) # hex_decode cs else [])"
| "hex_decode _ = []"

text \<open>The value of an error that was caught; only errors the code throws itself have their text.\<close>

definition error_value :: "js_error \<Rightarrow> jsval" where
  "error_value e = (case e of JsError m \<Rightarrow> ErrorObj m | _ \<Rightarrow> ErrorObj ''TypeError'')"

text \<open>\<open>Object.keys\<close> with the values; the elements of a text, an array or a buffer have their index as key.\<close>

definition attribute_entries :: "jsval \<Rightarrow> props run" where
  "attribute_entries v =
     (case v of
        Undef \<Rightarrow> Throw TypeError
      | Null \<Rightarrow> Throw TypeError
      | Obj ps \<Rightarrow> Return ps
      | Arr vs \<Rightarrow> Return (zip (map (\<lambda>i. show_int (int i)) [0..<length vs]) vs)
      | Buf bs \<Rightarrow> Return (zip (map (\<lambda>i. show_int (int i)) [0..<length bs]) (map (\<lambda>b. Num (uint b)) bs))
      | Str s \<Rightarrow> Return (zip (map (\<lambda>i. show_int (int i)) [0..<length s]) (map (\<lambda>c. Str [c]) s))
      | _ \<Rightarrow> Return [])"

definition link_attribute :: "bytes option list \<Rightarrow> string \<times> jsval \<Rightarrow> bytes option list run" where
  "link_attribute bufs e =
     (let key = fst e in
      if toLowerCase key \<notin> set link_info_attr_name_map then Throw (JsError (key @ '' is not a link attribute''))
      else
        let attr_num = (case map_of link_attributes (''IFLA_'' @ toUpperCase key) of Some n \<Rightarrow> Num n | None \<Rightarrow> Undef) in
        if key = ''address'' then
          (case snd e of
             Str attr_val \<Rightarrow>
               run_bind (bufferifyMacString attr_val (Some 6)) (\<lambda>macbuf0.
               run_bind
                 (if truthy macbuf0 then Return macbuf0
                  else if length attr_val = 12 then Return (Buf (hex_decode attr_val))
                  else Throw (JsError (''bad address, not a mac address: '' @ attr_val))) (\<lambda>macbuf.
               run_bind (buildRtattrBuf attr_num macbuf) (\<lambda>b. Return (bufs @ [b]))))
           | _ \<Rightarrow> Return bufs)
        else Return bufs)"

section \<open>netlinkLinkCommand\<close>

definition link_info :: "props \<Rightarrow> jsval \<Rightarrow> (meta \<times> meta) run" where
  "link_info opts ifndex =
     run_bind buildHdr (\<lambda>h0.
     run_bind buildInfomsg (\<lambda>i0.
       let fake = has_own opts ''fake'';
           i1 = (if has_own opts ''ifname'' \<and> \<not> fake then meta_set ''_if_index'' ifndex i0 else i0);
           h1 = set_opt opts ''flags'' ''_flags'' (set_opt opts ''type'' ''_type'' h0) in
     run_bind (if fake then Return i1 else or_opt opts ''info_flags'' ''_if_flags'' i1) (\<lambda>i2.
       Return (h1, if fake then i2 else set_opt opts ''info_change'' ''_if_change'' i2))))"

definition netlinkLinkCommand :: "netkit \<Rightarrow> nat \<Rightarrow> props \<Rightarrow> (jsval \<Rightarrow> bytes list \<Rightarrow> unit act) \<Rightarrow> unit act" where
  "netlinkLinkCommand nk n opts cb =
     (let ifndex = (if has_own opts ''ifname'' then ifNameToIndex (nk_native nk) (obj_get opts ''ifname'') else Undef) in
      if is_error ifndex then cb ifndex []
      else
        act_bind (act_run (link_info opts ifndex)) (\<lambda>(nl_hdr, info_msg).
        act_bind (act_run (meta_pack info_msg)) (\<lambda>b.
          let attributes = obj_get opts ''attributes'' in
          if attributes = Undef then nl_send nk n nl_hdr [b] cb
          else
            case run_bind (attribute_entries attributes) (\<lambda>es. run_fold link_attribute es [b]) of
              Return bufs \<Rightarrow> nl_send nk n nl_hdr bufs cb
            | Throw e \<Rightarrow> if not_modelled e then act_throw e else cb (error_value e) []
            | Diverge \<Rightarrow> act_run Diverge)))"

section \<open>link\<close>

text \<open>
  The argument \<open>attrs\<close> is \<open>None\<close> when fewer than four arguments were given: it then is the callback.
  The result says what to do for an operation: an inquiry, a command with options, an error for the
  callback, or nothing at all.
\<close>

datatype operation_kind = Inquiry props | Command props | Refused "jsval list" | Unsupported

definition link_opts :: "jsval \<Rightarrow> jsval \<Rightarrow> jsval option \<Rightarrow> operation_kind" where
  "link_opts operation ifname attrs =
     (let header = [(''type'', rtc ''RTM_NEWLINK''), (''flags'', Num (js_or NLM_F_REQUEST NLM_F_ACK)), (''ifname'', ifname)] in
      if \<not> truthy operation \<or> operation = Str ''show'' then
        Inquiry [(''type'', rtc ''RTM_GETLINK''), (''flags'', Num dump_flags)]
      else if operation = Str ''up'' then Command (header @ [(''info_flags'', Num 0x01), (''info_change'', Num 0x01)])
      else if operation = Str ''down'' then Command (header @ [(''info_flags'', Num 0x00), (''info_change'', Num 0x01)])
      else if operation = Str ''set'' then
        (case attrs of
           Some (Obj ps) \<Rightarrow> Command (header @ [(''attributes'', Obj ps)])
         | Some (Arr vs) \<Rightarrow> Command (header @ [(''attributes'', Arr vs)])
         | Some (Buf bs) \<Rightarrow> Command (header @ [(''attributes'', Buf bs)])
         | Some (ErrorObj m) \<Rightarrow> Command (header @ [(''attributes'', ErrorObj m)])
         | _ \<Rightarrow> Refused [ErrorObj ''set link rquires attributes object''])
      else Unsupported)"

definition link :: "netkit \<Rightarrow> jsval \<Rightarrow> jsval \<Rightarrow> jsval option \<Rightarrow> unit act" where
  "link nk operation ifname attrs =
     (case link_opts operation ifname attrs of
        Inquiry opts \<Rightarrow> sendInquiry nk Null (Some opts) user_callback
      | Refused args \<Rightarrow> user_callback args
      | Unsupported \<Rightarrow> act_return ()
      | Command opts \<Rightarrow>
          act_seq (emit (Create []))
            (let err = nk_create nk [] in
             if truthy err then act_seq (emit Close) (user_callback [err])
             else
               netlinkLinkCommand nk 0 opts (\<lambda>err bufs.
                 act_seq (emit Close) (user_callback (if truthy err then [err] else [])))))"

section \<open>Answers\<close>

interpretation link: handing_over netlinkLinkCommand
  by unfold_locales
    (auto simp: netlinkLinkCommand_def Let_def intro!: hands_over_intros fails split: prod.split run.split)

lemma link_answers:
  assumes "link_opts operation ifname attrs \<noteq> Unsupported"
  shows "counts is_callback 1 (link nk operation ifname attrs)"
proof (cases "link_opts operation ifname attrs")
  case (Inquiry opts)
  then show ?thesis using inquiry_answers by (simp add: link_def)
next
  case (Command opts)
  then show ?thesis by (auto simp: link_def Let_def intro!: link.answers)
qed (use assms in \<open>simp_all add: link_def\<close>)

section \<open>Requests\<close>

lemma link_info_value:
  assumes "opts = [(''type'', Num t), (''flags'', Num f), (''ifname'', ifname)] @ rest"
    "map_of rest ''fake'' = None" "map_of rest ''type'' = None" "map_of rest ''flags'' = None" "map_of rest ''ifname'' = None"
    "map_of rest ''info_flags'' = (if upd then Some (Num fl) else None)" "map_of rest ''info_change'' = (if upd then Some (Num ch) else None)"
  shows "\<exists>h i. link_info opts (Num ix) = Return (h, i) \<and> is_hdr h \<and> meta_get h ''_type'' = Num t \<and> meta_get h ''_flags'' = Num f \<and>
    meta_get h ''_seq'' = Num 0 \<and> meta_get h ''_pid'' = Num 0 \<and>
    meta_pack i = Return (Some (ifinfo_bytes 0 ix (if upd then js_or 0 fl else 0) (if upd then ch else 0)))"
proof -
  obtain h where h: "buildHdr = Return h" "is_hdr h" "meta_get h ''_seq'' = Num 0" "meta_get h ''_pid'' = Num 0"
    using buildHdr_value by blast
  obtain i where i: "buildInfomsg = Return i" "is_ifinfo i" "meta_get i ''_family'' = Num 0"
     "meta_get i ''_if_flags'' = Num 0" "meta_get i ''_if_change'' = Num 0"
    using buildInfomsg_value by blast
  have o: "has_own opts ''fake'' = False" "has_own opts ''ifname''" "has_own opts ''type''" "has_own opts ''flags''"
    "obj_get opts ''type'' = Num t" "obj_get opts ''flags'' = Num f" "has_own opts ''info_flags'' = upd" "has_own opts ''info_change'' = upd"
    "upd \<Longrightarrow> obj_get opts ''info_flags'' = Num fl" "upd \<Longrightarrow> obj_get opts ''info_change'' = Num ch"
    using assms by (simp_all add: has_own_def obj_get_def)
  let ?h = "meta_set ''_flags'' (Num f) (meta_set ''_type'' (Num t) h)"
  let ?i0 = "meta_set ''_if_index'' (Num ix) i"
  let ?i = "if upd then meta_set ''_if_change'' (Num ch) (meta_set ''_if_flags'' (Num (js_or 0 fl)) ?i0) else ?i0"
  have "link_info opts (Num ix) = Return (?h, ?i)"
    using o by (cases upd) (simp_all add: link_info_def h(1) i Let_def set_opt_def or_opt_def or_field_def bit_operand_def)
  moreover have "meta_pack ?i = Return (Some (ifinfo_bytes 0 ix (if upd then js_or 0 fl else 0) (if upd then ch else 0)))"
    using i by (cases upd) (simp_all add: ifinfo_pack)
  moreover have "is_hdr ?h" using h by (simp add: is_hdr_set)
  ultimately show ?thesis using h by - (rule exI [of _ ?h], rule exI [of _ ?i], simp)
qed

lemma link_header_consts: "rtc ''RTM_NEWLINK'' = Num 16" "js_or NLM_F_REQUEST NLM_F_ACK = 5" "js_or 0 0 = 0" "js_or 0 1 = 1"
  by code_simp+

lemma length_ifinfo_bytes [simp]: "length (ifinfo_bytes a i f c) = 16"
  by (simp add: ifinfo_bytes_def)

lemma link_address_attribute:
  assumes "length mac = 6"
  shows "link_attribute bufs (''address'', Str (mac_text mac)) = Return (bufs @ [Some (rtattr_enc (1, mac))])"
proof -
  have "toLowerCase ''address'' \<in> set link_info_attr_name_map" by code_simp
  moreover have "map_of link_attributes (''IFLA_'' @ toUpperCase ''address'') = Some 1" by code_simp
  moreover have "bufferifyMacString (mac_text mac) (Some 6) = Return (Buf mac)"
    using assms by (intro bufferify_mac_text) simp_all
  moreover have "buildRtattrBuf (Num 1) (Buf mac) = Return (Some (rtattr_enc (1, mac)))"
    using buildRtattrBuf_enc [of 1 mac] assms by (simp add: rtattr_ok_def)
  ultimately show ?thesis by (simp add: link_attribute_def Let_def)
qed

text \<open>What becomes of a command for an interface with the index \<open>ix\<close>, from its header on.\<close>

lemma link_command_sent:
  assumes "ifNameToIndex (nk_native nk) ifname = Num ix" "\<not> truthy (nk_create nk [])"
    "link_opts operation ifname attrs = Command opts"
    "opts = [(''type'', Num 16), (''flags'', Num 5), (''ifname'', ifname)] @ rest"
    "link_info opts (Num ix) = Return (h, i)" "is_hdr h" "meta_get h ''_type'' = Num 16" "meta_get h ''_flags'' = Num 5"
    "meta_get h ''_seq'' = Num 0" "meta_get h ''_pid'' = Num 0" "meta_pack i = Return (Some b)"
    "map_of rest ''attributes'' = None \<and> bs = [] \<or>
       (\<exists>es. map_of rest ''attributes'' = Some (Obj es) \<and> run_fold link_attribute es [Some b] = Return (map Some (b # bs)))"
    "msg = hdr_bytes (16 + int (length (concat (b # bs)))) 16 5 0 0 @ concat (b # bs)"
  shows "link nk operation ifname attrs =
    ([Create [], Send [msg], Close, Callback (let e = fst (nk_reply nk 0 [msg]) in if truthy e then [e] else [])], Return ())"
proof -
  have o: "has_own opts ''ifname''" "obj_get opts ''ifname'' = ifname"
    "obj_get opts ''attributes'' = (case map_of rest ''attributes'' of None \<Rightarrow> Undef | Some v \<Rightarrow> v)"
    using assms(4) by (simp_all add: has_own_def obj_get_def split: option.splits)
  have s: "netlinkLinkCommand nk 0 opts cb = nl_send nk 0 h (map Some (b # bs)) cb" for cb
    using assms(12) by (auto simp: netlinkLinkCommand_def o assms(1,5,11) is_error_def attribute_entries_def)
  show ?thesis
    by (intro prod_eqI)
      (simp_all add: link_def assms(2,3) s nl_send_framed [OF assms(6-10,13)] Let_def user_callback_def
        del: list.map(2) split: prod.splits)
qed

text \<open>
  C14. Switching a link: one message \<open>newLink\<close> with acknowledgement, the index the addon gives for the
  name, the flag \<open>up\<close> or no flag, and a change mask of that flag alone; and setting the hardware address:
  the same message without flags and with the bytes of the address as an attribute. The socket is closed
  and the caller gets the error of the kernel, if any.
\<close>

theorem link_requests:
  assumes "ifNameToIndex (nk_native nk) ifname = Num ix" "\<not> truthy (nk_create nk [])" "length mac = 6"
    and "operation = Str ''up'' \<and> msg = hdr_bytes 32 16 5 0 0 @ ifinfo_bytes 0 ix 1 1 \<or>
         operation = Str ''down'' \<and> msg = hdr_bytes 32 16 5 0 0 @ ifinfo_bytes 0 ix 0 1 \<or>
         operation = Str ''set'' \<and> attrs = Some (Obj [(''address'', Str (mac_text mac))]) \<and>
           msg = hdr_bytes 44 16 5 0 0 @ ifinfo_bytes 0 ix 0 0 @ rtattr_enc (1, mac)"
  shows "link nk operation ifname attrs =
    ([Create [], Send [msg], Close, Callback (let e = fst (nk_reply nk 0 [msg]) in if truthy e then [e] else [])], Return ())"
proof -
  let ?hd = "[(''type'', Num 16), (''flags'', Num 5), (''ifname'', ifname)]"
  have flag: ?thesis if prems: "operation = Str op" "op \<in> {''up'', ''down''}" "fl = (if op = ''up'' then 1 else 0)"
    "msg = hdr_bytes 32 16 5 0 0 @ ifinfo_bytes 0 ix fl 1" for op fl
  proof -
    let ?rest = "[(''info_flags'', Num fl), (''info_change'', Num 1)]"
    obtain h i where "link_info (?hd @ ?rest) (Num ix) = Return (h, i)" "is_hdr h" "meta_get h ''_type'' = Num 16"
      "meta_get h ''_flags'' = Num 5" "meta_get h ''_seq'' = Num 0" "meta_get h ''_pid'' = Num 0"
      "meta_pack i = Return (Some (ifinfo_bytes 0 ix fl 1))"
      using link_info_value [of "?hd @ ?rest" 16 5 ifname ?rest True fl 1 ix] prems(3) by (auto simp: link_header_consts)
    then show ?thesis using prems
      by (intro link_command_sent [OF assms(1,2), where opts = "?hd @ ?rest" and bs = "[]" and rest = ?rest])
        (auto simp: link_opts_def link_header_consts Let_def)
  qed
  have set: ?thesis if prems: "operation = Str ''set''" "attrs = Some (Obj [(''address'', Str (mac_text mac))])"
     "msg = hdr_bytes 44 16 5 0 0 @ ifinfo_bytes 0 ix 0 0 @ rtattr_enc (1, mac)"
  proof -
    let ?rest = "[(''attributes'', Obj [(''address'', Str (mac_text mac))])]"
    obtain h i where "link_info (?hd @ ?rest) (Num ix) = Return (h, i)" "is_hdr h" "meta_get h ''_type'' = Num 16"
      "meta_get h ''_flags'' = Num 5" "meta_get h ''_seq'' = Num 0" "meta_get h ''_pid'' = Num 0"
      "meta_pack i = Return (Some (ifinfo_bytes 0 ix 0 0))"
      using link_info_value [of "?hd @ ?rest" 16 5 ifname ?rest False 0 0 ix] by auto
    moreover have "length (rtattr_enc (1, mac)) = 12" using assms(3) by (simp add: rtattr_enc_def pad4_def)
    ultimately show ?thesis using prems assms(3)
      by (intro link_command_sent [OF assms(1,2), where opts = "?hd @ ?rest" and bs = "[rtattr_enc (1, mac)]" and rest = ?rest])
        (auto simp: link_opts_def link_header_consts Let_def link_address_attribute)
  qed
  from assms(4) show ?thesis using flag [of "''up''" 1] flag [of "''down''" 0] set by auto
qed

lemma link_requests_witness:
  "link quiet_netkit (Str ''up'') (Str ''eth0'') None =
    ([Create [], Send [hdr_bytes 32 16 5 0 0 @ ifinfo_bytes 0 3 1 1], Close, Callback []], Return ())"
  using link_requests [of quiet_netkit "Str ''eth0''" 3 "[0, 26, 43, 255, 16, 9]" "Str ''up''" _ None] by simp

end
