(* ===== verification/IpNeighbor.thy ===== *)
theory IpNeighbor
  imports IpLink
begin

text \<open>\<open>ip/neighbor.js\<close>: the neighbour table.\<close>

section \<open>Addresses of a command\<close>

text \<open>
  The part the commands have in common: a text is converted by the addon, anything else is taken as it
  is. \<open>Inl\<close> is the error the callback gets.
\<close>

definition resolve :: "netkit \<Rightarrow> jsval \<Rightarrow> int \<Rightarrow> jsval + jsval" where
  "resolve nk addr af =
     (case addr of
        Str s \<Rightarrow> (let ans = toAddress (nk_native nk) (Str s) (Num af) in if is_error ans then Inl ans else Inr ans)
      | _ \<Rightarrow> Inr addr)"

text \<open>
  \<open>rt.buildRtattrBuf(num, destbuf.bytes)\<close> and the two debug lines after it.
\<close>

definition address_attribute :: "int option \<Rightarrow> jsval \<Rightarrow> bytes option run" where
  "address_attribute attr_num destbuf =
     run_bind (get_prop destbuf ''bytes'') (\<lambda>bytes.
     run_bind (buildRtattrBuf (case attr_num of Some n \<Rightarrow> Num n | None \<Rightarrow> Undef) bytes) (\<lambda>rt_attr.
     run_bind (if bytes \<in> {Undef, Null} then Throw TypeError else Return ()) (\<lambda>_.
     run_bind (as_hex_buffer rt_attr) (\<lambda>_. Return rt_attr))))"

text \<open>
  The hardware address. In the second branch the variable tested is the one the branch would assign, so
  it is still undefined and the branch is never taken.
\<close>

definition lladdr_bytes :: "jsval \<Rightarrow> (jsval + jsval) run" where
  "lladdr_bytes lladdr =
     (let macbuf = Undef in
      case lladdr of
        Str s \<Rightarrow> run_bind (bufferifyMacString s (Some 6)) (\<lambda>m.
          Return (if truthy m then Inr m else Inl (ErrorObj ''bad lladdr'')))
      | _ \<Rightarrow> Return (if is_buf macbuf then Inr lladdr else Inl (ErrorObj ''bad parameters.'')))"

definition lladdr_attribute :: "jsval \<Rightarrow> bytes option run" where
  "lladdr_attribute macbuf =
     run_bind (buildRtattrBuf (case map_of neigh_attributes ''NDA_LLADDR'' of Some n \<Rightarrow> Num n | None \<Rightarrow> Undef) macbuf)
       (\<lambda>rt_attr. run_bind (as_hex_buffer rt_attr) (\<lambda>_. Return rt_attr))"

section \<open>netlinkNeighCommand\<close>

definition neigh_info :: "props \<Rightarrow> jsval \<Rightarrow> (meta \<times> meta) run" where
  "neigh_info opts ifndex =
     run_bind buildHdr (\<lambda>h0.
       let h1 = meta_set ''_type'' (rtc ''RTM_GETLINK'') (meta_set ''_flags'' (Num NLM_F_REQUEST) h0) in
     run_bind buildNdmsg (\<lambda>n0.
       let n1 = meta_set ''_ifindex'' ifndex (meta_set ''_state'' (rtc ''NUD_PERMANENT'') n0) in
     run_bind (or_opt opts ''flags'' ''_flags'' (set_opt opts ''type'' ''_type'' h1)) (\<lambda>h2.
     run_bind (or_opt opts ''family'' ''_family'' n1) (\<lambda>nd_msg.
       Return (set_opt opts ''family'' ''family'' h2, nd_msg)))))"

text \<open>The family of the options is a number, which is never equal to the text \<open>inet\<close>.\<close>

definition neigh_family :: "props \<Rightarrow> int" where
  "neigh_family opts = (if obj_get opts ''family'' = Str ''inet'' then AF_INET else AF_INET6)"

definition netlinkNeighCommand :: "netkit \<Rightarrow> nat \<Rightarrow> props \<Rightarrow> (jsval \<Rightarrow> bytes list \<Rightarrow> unit act) \<Rightarrow> unit act" where
  "netlinkNeighCommand nk n opts cb =
     (let ifndex = (if has_own opts ''ifname'' then ifNameToIndex (nk_native nk) (obj_get opts ''ifname'') else Undef) in
      if is_error ifndex then cb ifndex []
      else
        act_bind (act_run (neigh_info opts ifndex)) (\<lambda>(nl_hdr, nd_msg).
        act_bind (act_run (meta_pack nd_msg)) (\<lambda>b.
          case (if has_own opts ''inetdest'' then map_sum id Some (resolve nk (obj_get opts ''inetdest'') (neigh_family opts))
                else Inr None) of
            Inl err \<Rightarrow> cb err []
          | Inr dest \<Rightarrow>
              act_bind (act_run (case dest of
                  None \<Rightarrow> Return [b]
                | Some destbuf \<Rightarrow> run_bind (address_attribute (map_of neigh_attributes ''NDA_DST'') destbuf) (\<lambda>a. Return [b, a])))
                (\<lambda>bufs.
                  if has_own opts ''lladdr'' then
                    act_bind (act_run (lladdr_bytes (obj_get opts ''lladdr''))) (\<lambda>m.
                      case m of
                        Inl err \<Rightarrow> cb err []
                      | Inr macbuf \<Rightarrow>
                          act_bind (act_run (lladdr_attribute macbuf)) (\<lambda>a. nl_send nk n nl_hdr (bufs @ [a]) cb))
                  else nl_send nk n nl_hdr bufs cb))))"

section \<open>neighbor\<close>

text \<open>
  The family of a destination, as in \<open>neighbor\<close> and \<open>route\<close>: without one both bits, and otherwise what
  \<open>isaddress\<close> says of the text; anything else has no \<open>match\<close>.
\<close>

definition dest_family :: "jsval \<Rightarrow> (jsval + int) run" where
  "dest_family inetdest =
     (if \<not> truthy inetdest then Return (Inr (js_or AF_INET AF_INET6))
      else case inetdest of
          Str s \<Rightarrow>
            (let family = isaddress s in
             Return (if family = Str ''inet'' then Inr AF_INET else if family = Str ''inet6'' then Inr AF_INET6 else Inl family))
        | _ \<Rightarrow> Throw TypeError)"

definition neighbor_opts :: "jsval \<Rightarrow> int \<Rightarrow> jsval \<Rightarrow> jsval \<Rightarrow> jsval \<Rightarrow> operation_kind" where
  "neighbor_opts operation family ifname inetdest lladdr =
     (let neigh_opts = (\<lambda>type flags. Command
            [(''type'', rtc type), (''flags'', Num flags), (''family'', Num family), (''inetdest'', inetdest),
             (''lladdr'', lladdr), (''ifname'', ifname)])
      in
      if \<not> truthy operation \<or> operation = Str ''show'' then
        Inquiry [(''type'', rtc ''RTM_GETNEIGH''), (''flags'', Num dump_flags)]
      else if operation = Str ''add'' then
        neigh_opts ''RTM_NEWNEIGH'' (js_or (js_or (js_or NLM_F_REQUEST NLM_F_CREATE) NLM_F_EXCL) NLM_F_ACK)
      else if operation = Str ''change'' then
        neigh_opts ''RTM_NEWNEIGH'' (js_or (js_or NLM_F_REQUEST NLM_F_REPLACE) NLM_F_ACK)
      else if operation = Str ''replace'' then
        neigh_opts ''RTM_NEWNEIGH'' (js_or (js_or (js_or NLM_F_REQUEST NLM_F_CREATE) NLM_F_REPLACE) NLM_F_ACK)
      else if operation = Str ''delete'' then
        neigh_opts ''RTM_DELNEIGH'' (js_or NLM_F_REQUEST NLM_F_ACK)
      else Unsupported)"

text \<open>What \<open>neighbor\<close> and \<open>route\<close> do with the socket: a failed \<open>create\<close> leaves it open.\<close>

definition run_command :: "(netkit \<Rightarrow> nat \<Rightarrow> props \<Rightarrow> (jsval \<Rightarrow> bytes list \<Rightarrow> unit act) \<Rightarrow> unit act) \<Rightarrow> netkit \<Rightarrow> props \<Rightarrow> unit act" where
  "run_command command nk opts =
     act_seq (emit (Create []))
       (let err = nk_create nk [] in
        if truthy err then user_callback [err]
        else command nk 0 opts (\<lambda>err bufs. act_seq (user_callback (if truthy err then [err] else [])) (emit Close)))"

definition neighbor :: "netkit \<Rightarrow> jsval \<Rightarrow> jsval \<Rightarrow> jsval \<Rightarrow> jsval \<Rightarrow> unit act" where
  "neighbor nk operation ifname inetdest lladdr =
     act_bind (act_run (dest_family inetdest)) (\<lambda>f.
       case f of
         Inl err \<Rightarrow> user_callback [err]
       | Inr family \<Rightarrow>
           (case neighbor_opts operation family ifname inetdest lladdr of
              Inquiry opts \<Rightarrow> sendInquiry nk Null (Some opts) user_callback
            | Command opts \<Rightarrow> run_command netlinkNeighCommand nk opts
            | Refused args \<Rightarrow> user_callback args
            | Unsupported \<Rightarrow> act_return ()))"

section \<open>addIPv6Neighbor\<close>

definition ipv6_neigh_info :: "jsval \<Rightarrow> (meta \<times> meta) run" where
  "ipv6_neigh_info ifndex =
     run_bind buildHdr (\<lambda>h0.
       let nl_hdr = meta_set ''_flags'' (Num (js_or (js_or (js_or NLM_F_REQUEST NLM_F_CREATE) NLM_F_EXCL) NLM_F_ACK))
             (meta_set ''_type'' (rtc ''RTM_NEWNEIGH'') h0) in
     run_bind buildNdmsg (\<lambda>n0.
       Return (nl_hdr, meta_set ''_flags'' (Num 0) (meta_set ''_state'' (rtc ''NUD_PERMANENT'')
         (meta_set ''_ifindex'' ifndex (meta_set ''_family'' (Num AF_INET6) n0))))))"

text \<open>
  The reply of the socket is given to the second function passed to \<open>sendMsg\<close>, which does not call the
  callback; only when there is no reply the first one does. \<open>replied\<close> says which. The printing of the
  errors in a reply is left out.
\<close>

definition send_ipv6_neighbor :: "netkit \<Rightarrow> bool \<Rightarrow> bytes \<Rightarrow> unit act" where
  "send_ipv6_neighbor nk replied all =
     act_seq (emit (Create []))
       (let err = nk_create nk [] in
        if truthy err then user_callback [err]
        else act_seq (emit (Send [all]))
          (if replied then act_return ()
           else let err = fst (nk_reply nk 0 [all]) in user_callback (if truthy err then [err] else [])))"

definition addIPv6Neighbor :: "netkit \<Rightarrow> bool \<Rightarrow> jsval \<Rightarrow> jsval \<Rightarrow> jsval \<Rightarrow> jsval \<Rightarrow> unit act" where
  "addIPv6Neighbor nk replied ifname inet6dest lladdr sock =
     (let ifndex = ifNameToIndex (nk_native nk) ifname in
      if is_error ifndex then act_throw (ReferenceError ''ifindex'')
      else
        act_bind (act_run (ipv6_neigh_info ifndex)) (\<lambda>(nl_hdr, nd_msg).
        act_bind (act_run (meta_pack nd_msg)) (\<lambda>b.
          if \<not> truthy inet6dest then user_callback [ErrorObj ''bad parameters.'']
          else case resolve nk inet6dest AF_INET6 of
              Inl err \<Rightarrow> user_callback [err]
            | Inr destbuf \<Rightarrow>
                act_bind (act_run (address_attribute (map_of neigh_attributes ''NDA_DST'') destbuf)) (\<lambda>a.
                act_bind (act_run (if truthy lladdr then lladdr_bytes lladdr else Return (Inr Undef))) (\<lambda>m.
                  case m of
                    Inl err \<Rightarrow> user_callback [err]
                  | Inr macbuf \<Rightarrow>
                      act_bind (act_run (if truthy lladdr then run_bind (lladdr_attribute macbuf) (\<lambda>l. Return [b, a, l])
                                         else Return [b, a])) (\<lambda>bufs.
                      act_bind (act_run (frame_message nl_hdr bufs)) (\<lambda>all.
                        if truthy sock then user_callback [Str ''Not implemented'']
                        else send_ipv6_neighbor nk replied all)))))))"

section \<open>Answers\<close>

interpretation neigh: handing_over netlinkNeighCommand
  by unfold_locales
    (auto simp: netlinkNeighCommand_def Let_def intro!: hands_over_intros split: sum.split option.split prod.split)

text \<open>A command run on a socket that could be created, for any command that keeps the contract.\<close>

lemma counts_callback_then_close:
  "counts P n (act_seq (user_callback args) (emit Close)) \<longleftrightarrow>
     n = (if P (Callback args) then 1 else 0) + (if P Close then 1 else 0)"
  by (auto simp: counts_def user_callback_def)

context reporting
begin

lemma run_command_answers: "counts is_callback 1 (run_command command nk opts)"
  by (auto simp: run_command_def Let_def counts_callback_then_close intro!: answers)

lemma run_command_closes:
  "counts is_close (if truthy (nk_create nk []) then 0 else 1) (run_command command nk opts)"
  by (auto simp: run_command_def Let_def counts_callback_then_close intro!: closes)

end

section \<open>Requests\<close>

text \<open>The two ways a command ends on a socket that works.\<close>

definition kernel_answer :: "netkit \<Rightarrow> bytes \<Rightarrow> jsval list" where
  "kernel_answer nk msg = (let e = fst (nk_reply nk 0 [msg]) in if truthy e then [e] else [])"

lemma run_command_sent:
  assumes "\<not> truthy (nk_create nk [])"
    "\<And>cb. command nk 0 opts cb =
      act_seq (emit (Send [msg])) (let (err, bufs) = nk_reply nk 0 [msg] in if truthy err then cb err [] else cb err bufs)"
  shows "run_command command nk opts = ([Create [], Send [msg], Callback (kernel_answer nk msg), Close], Return ())"
  using assms by (intro prod_eqI) (simp_all add: run_command_def user_callback_def kernel_answer_def Let_def split: prod.splits)

lemma run_command_refused:
  assumes "\<not> truthy (nk_create nk [])" "\<And>cb. command nk 0 opts cb = cb e []" "truthy e"
  shows "run_command command nk opts = ([Create [], Callback [e], Close], Return ())"
  using assms by (intro prod_eqI) (simp_all add: run_command_def user_callback_def)

lemma truthy_error: "is_error e \<Longrightarrow> truthy e"
  by (cases e) (simp_all add: is_error_def)

definition nd_bytes :: "int \<Rightarrow> int \<Rightarrow> bytes" where
  "nd_bytes family index =
     le_bytes 1 (clamp_el (unsigned_el 1) family) @ [0, 0, 0] @ le_bytes 4 (clamp_el (unsigned_el 4) index) @ [0x80, 0, 0, 0]"

lemma length_nd_bytes [simp]: "length (nd_bytes f i) = 12"
  by (simp add: nd_bytes_def)

lemma nd_pack:
  assumes "m_format m = ndmsg_fmt" "m_keylist m = [''_family'', ''_pad1'', ''_pad2'', ''_ifindex'', ''_state'', ''_flags'', ''_type'']"
    "meta_get m ''_family'' = Num a" "meta_get m ''_ifindex'' = Num i" "meta_get m ''_state'' = Num 128"
    "meta_get m ''_pad1'' = Num 0" "meta_get m ''_pad2'' = Num 0" "meta_get m ''_flags'' = Num 0" "meta_get m ''_type'' = Num 0"
  shows "meta_pack m = Return (Some (nd_bytes a i))"
proof -
  have z: "EnInt False (unsigned_el (Suc (Suc 0))) 0 = [0, 0]" "word_of_int (clamp_el (unsigned_el (Suc 0)) 0) = (0 :: byte)"
    "EnInt False (unsigned_el (Suc (Suc 0))) 128 = [128, 0]"
    by code_simp+
  have "all_nums m" using assms by (simp add: all_nums_def num_of_def)
  then have "meta_pack m = Return (Some (enc_elems (fmt_be (m_format m)) (scan_fmt (m_format m)) (meta_nums m)))"
    by (rule meta_pack_nums) (use assms in \<open>simp_all add: scan_ndmsg\<close>)
  then show ?thesis using assms
    by (simp add: meta_nums_def num_of_def scan_ndmsg nd_bytes_def z numeral_2_eq_2)
qed

lemma buildNdmsg_value:
  "\<exists>n. buildNdmsg = Return n \<and> m_format n = ndmsg_fmt \<and>
     m_keylist n = [''_family'', ''_pad1'', ''_pad2'', ''_ifindex'', ''_state'', ''_flags'', ''_type''] \<and>
     (\<forall>k \<in> set (m_keylist n). meta_get n k = Num 0)"
  by (simp add: buildNdmsg_def metaObject_def scan_ndmsg calcLength_def toValArray_def map_filter_def zero_fields_def)

lemma neigh_info_value:
  assumes "obj_get opts ''type'' = Num t" "obj_get opts ''flags'' = Num f" "obj_get opts ''family'' = Num a"
    "has_own opts ''type''" "has_own opts ''flags''" "has_own opts ''family''"
  shows "\<exists>h i. neigh_info opts (Num ix) = Return (h, i) \<and> is_hdr h \<and> meta_get h ''_type'' = Num t \<and>
    meta_get h ''_flags'' = Num (js_or NLM_F_REQUEST f) \<and> meta_get h ''_seq'' = Num 0 \<and> meta_get h ''_pid'' = Num 0 \<and>
    meta_pack i = Return (Some (nd_bytes (js_or 0 a) ix))"
proof -
  obtain h where h: "buildHdr = Return h" "is_hdr h" "meta_get h ''_seq'' = Num 0" "meta_get h ''_pid'' = Num 0"
    using buildHdr_value by blast
  obtain n where n: "buildNdmsg = Return n" "m_format n = ndmsg_fmt"
    "m_keylist n = [''_family'', ''_pad1'', ''_pad2'', ''_ifindex'', ''_state'', ''_flags'', ''_type'']"
    "\<forall>k \<in> set (m_keylist n). meta_get n k = Num 0" using buildNdmsg_value by blast
  then have n0: "meta_get n ''_family'' = Num 0" "meta_get n ''_pad1'' = Num 0" "meta_get n ''_pad2'' = Num 0"
    "meta_get n ''_flags'' = Num 0" "meta_get n ''_type'' = Num 0" by simp_all
  have c: "rtc ''NUD_PERMANENT'' = Num 128" "rtc ''RTM_GETLINK'' = Num 18" by code_simp+
  let ?h = "meta_set ''family'' (Num a) (meta_set ''_flags'' (Num (js_or NLM_F_REQUEST f)) (meta_set ''_type'' (Num t)
      (meta_set ''_type'' (Num 18) (meta_set ''_flags'' (Num NLM_F_REQUEST) h))))"
  let ?n = "meta_set ''_family'' (Num (js_or 0 a)) (meta_set ''_ifindex'' (Num ix) (meta_set ''_state'' (Num 128) n))"
  have "neigh_info opts (Num ix) = Return (?h, ?n)"
    using assms by (simp add: neigh_info_def h(1) n(1) n0 Let_def set_opt_def or_opt_def or_field_def bit_operand_def c)
  moreover have "meta_pack ?n = Return (Some (nd_bytes (js_or 0 a) ix))"
    by (rule nd_pack) (simp_all add: n n0)
  moreover have "is_hdr ?h" using h by (simp add: is_hdr_set)
  ultimately show ?thesis using h by - (rule exI [of _ ?h], rule exI [of _ ?n], simp)
qed

lemma address_attribute_value:
  assumes "get_prop destbuf ''bytes'' = Return (Buf b)" "length b < 65532" "n < 65536"
  shows "address_attribute (Some (int n)) destbuf = Return (Some (rtattr_enc (n, b)))"
proof -
  have "buildRtattrBuf (Num (int n)) (Buf b) = Return (Some (rtattr_enc (n, b)))"
    using assms by (intro buildRtattrBuf_enc) (simp add: rtattr_ok_def)
  then show ?thesis using assms by (simp add: address_attribute_def as_hex_buffer_def)
qed

lemma lladdr_attribute_value:
  assumes "length mac = 6"
  shows "lladdr_bytes (Str (mac_text mac)) = Return (Inr (Buf mac))" "lladdr_attribute (Buf mac) = Return (Some (rtattr_enc (2, mac)))"
proof -
  have "map_of neigh_attributes ''NDA_LLADDR'' = Some 2" by code_simp
  moreover have "buildRtattrBuf (Num 2) (Buf mac) = Return (Some (rtattr_enc (2, mac)))"
    using buildRtattrBuf_enc [of 2 mac] assms by (simp add: rtattr_ok_def)
  moreover have "bufferifyMacString (mac_text mac) (Some 6) = Return (Buf mac)"
    using assms by (intro bufferify_mac_text) simp_all
  ultimately show "lladdr_bytes (Str (mac_text mac)) = Return (Inr (Buf mac))"
    "lladdr_attribute (Buf mac) = Return (Some (rtattr_enc (2, mac)))"
    by (simp_all add: lladdr_bytes_def lladdr_attribute_def as_hex_buffer_def)
qed

lemma dest_family_text:
  assumes "isaddress s = Str (if v6 then ''inet6'' else ''inet'')"
  shows "dest_family (Str s) = Return (Inr (if v6 then 10 else 2))"
proof -
  have "s \<noteq> []"
  proof
    assume "s = []"
    moreover have "is_error (isaddress [])" by code_simp
    ultimately show False using assms by (simp add: is_error_def)
  qed
  then show ?thesis using assms by (auto simp: dest_family_def Let_def)
qed

text \<open>The operations and their message types and flags.\<close>

definition neighbor_operations :: "(string \<times> int \<times> int) list" where
  "neighbor_operations = [(''add'', 28, 0x605), (''change'', 28, 0x105), (''replace'', 28, 0x505), (''delete'', 29, 5)]"

lemma neighbor_opts_operations:
  assumes "(op, t, f) \<in> set neighbor_operations"
  shows "neighbor_opts (Str op) family ifname dest lladdr =
    Command [(''type'', Num t), (''flags'', Num f), (''family'', Num family), (''inetdest'', dest), (''lladdr'', lladdr), (''ifname'', ifname)]"
proof -
  have c: "rtc ''RTM_NEWNEIGH'' = Num 28" "rtc ''RTM_DELNEIGH'' = Num 29"
    "js_or (js_or (js_or NLM_F_REQUEST NLM_F_CREATE) NLM_F_EXCL) NLM_F_ACK = 0x605"
    "js_or (js_or NLM_F_REQUEST NLM_F_REPLACE) NLM_F_ACK = 0x105"
    "js_or (js_or (js_or NLM_F_REQUEST NLM_F_CREATE) NLM_F_REPLACE) NLM_F_ACK = 0x505"
    "js_or NLM_F_REQUEST NLM_F_ACK = 5" by code_simp+
  from assms show ?thesis by (auto simp: neighbor_operations_def neighbor_opts_def Let_def c)
qed

text \<open>
  C15. Changing the neighbour table. With a destination that passes for IPv6 and a hardware address as text,
  one message with the number and the flags of the operation, the family, the index, the state permanent
  and the two addresses as attributes; the caller gets the error of the kernel, if any, and the socket is
  closed. The destination is always converted as an IPv6 address: what the addon refuses as such, every
  IPv4 address among it, is not sent at all.
\<close>

theorem neighbor_requests:
  fixes nk s
  defines "ans \<equiv> toAddress (nk_native nk) (Str s) (Num AF_INET6)"
  assumes "(op, t, f) \<in> set neighbor_operations" "ifNameToIndex (nk_native nk) ifname = Num ix" "\<not> truthy (nk_create nk [])"
    "isaddress s = Str (if v6 then ''inet6'' else ''inet'')" "length mac = 6" "length b < 65532"
    "is_error ans \<or> get_prop ans ''bytes'' = Return (Buf b)"
    "msg = hdr_bytes (40 + int (length (rtattr_enc (1, b)))) t f 0 0 @ nd_bytes (if v6 then 10 else 2) ix @ rtattr_enc (1, b) @ rtattr_enc (2, mac)"
  shows "neighbor nk (Str op) ifname (Str s) (Str (mac_text mac)) =
    (if is_error ans then ([Create [], Callback [ans], Close], Return ())
     else ([Create [], Send [msg], Callback (kernel_answer nk msg), Close], Return ()))"
proof -
  define opts where "opts = [(''type'', Num t), (''flags'', Num f), (''family'', Num (if v6 then 10 else 2)), (''inetdest'', Str s),
    (''lladdr'', Str (mac_text mac)), (''ifname'', ifname)]"
  have o: "has_own opts k = (k \<in> {''type'', ''flags'', ''family'', ''inetdest'', ''lladdr'', ''ifname''})" for k
    by (auto simp: has_own_def opts_def)
  have g: "obj_get opts ''inetdest'' = Str s" "obj_get opts ''lladdr'' = Str (mac_text mac)" "obj_get opts ''ifname'' = ifname"
    "neigh_family opts = AF_INET6" by (simp_all add: opts_def neigh_family_def)
  have f: "js_or NLM_F_REQUEST f = f"
  proof -
    have "list_all (\<lambda>(op, t, f). js_or NLM_F_REQUEST f = f) neighbor_operations" by code_simp
    then show ?thesis using assms(2) by (auto simp: list_all_iff)
  qed
  have j: "js_or 0 (if v6 then 10 else 2) = (if v6 then 10 else 2)"
  proof -
    have "js_or 0 10 = 10" "js_or 0 2 = 2" by code_simp+
    then show ?thesis by simp
  qed
  obtain h i where hi: "neigh_info opts (Num ix) = Return (h, i)" "is_hdr h" "meta_get h ''_type'' = Num t" "meta_get h ''_flags'' = Num f"
    "meta_get h ''_seq'' = Num 0" "meta_get h ''_pid'' = Num 0" "meta_pack i = Return (Some (nd_bytes (if v6 then 10 else 2) ix))"
    using neigh_info_value [of opts t f "if v6 then 10 else 2" ix] o f j by (auto simp: opts_def)
  have n: "map_of neigh_attributes ''NDA_DST'' = Some (int 1)" by code_simp
  have len: "length (rtattr_enc (2, mac)) = 12" using assms(6) by (simp add: rtattr_enc_def pad4_def)
  have m: "msg = hdr_bytes (16 + int (length (concat [nd_bytes (if v6 then 10 else 2) ix, rtattr_enc (1, b), rtattr_enc (2, mac)]))) t f 0 0 @
      concat [nd_bytes (if v6 then 10 else 2) ix, rtattr_enc (1, b), rtattr_enc (2, mac)]"
    using assms(9) len by (simp add: algebra_simps)
  have refused: "netlinkNeighCommand nk 0 opts cb = cb ans []" if "is_error ans" for cb
    using that hi(7)
    by (simp add: netlinkNeighCommand_def Let_def o g assms(3) is_error_def [of "Num ix"] hi(1) resolve_def ans_def [symmetric])
  have sent: "netlinkNeighCommand nk 0 opts cb =
      act_seq (emit (Send [msg])) (let (err, bufs) = nk_reply nk 0 [msg] in if truthy err then cb err [] else cb err bufs)"
    if ok: "\<not> is_error ans" for cb
  proof -
    have "address_attribute (Some (int 1)) ans = Return (Some (rtattr_enc (1, b)))"
      using ok assms(7,8) by (intro address_attribute_value) auto
    then have "netlinkNeighCommand nk 0 opts cb =
        nl_send nk 0 h (map Some [nd_bytes (if v6 then 10 else 2) ix, rtattr_enc (1, b), rtattr_enc (2, mac)]) cb"
      using ok hi(7) lladdr_attribute_value [OF assms(6)]
      by (simp add: netlinkNeighCommand_def Let_def o g assms(3) is_error_def [of "Num ix"] hi(1) resolve_def n ans_def [symmetric])
    then show ?thesis by (simp only: nl_send_framed [OF hi(2-6) m])
  qed
  have d: "dest_family (Str s) = Return (Inr (if v6 then 10 else 2))" by (rule dest_family_text [OF assms(5)])
  have no: "neighbor_opts (Str op) (if v6 then 10 else 2) ifname (Str s) (Str (mac_text mac)) = Command opts"
    unfolding opts_def by (rule neighbor_opts_operations [OF assms(2)])
  have "neighbor nk (Str op) ifname (Str s) (Str (mac_text mac)) = run_command netlinkNeighCommand nk opts"
    by (simp add: neighbor_def d no)
  then show ?thesis
    using run_command_refused [of nk netlinkNeighCommand opts ans] run_command_sent [of nk netlinkNeighCommand opts msg]
      assms(4) refused sent truthy_error [of ans] by auto
qed

lemma neighbor_requests_witness:
  "neighbor quiet_netkit (Str ''add'') (Str ''eth0'') (Str ''10.0.0.7'') (Str (mac_text [0, 26, 43, 255, 16, 9])) =
    ([Create [], Callback [ErrorObj ''invalid''], Close], Return ())"
proof -
  have m: "(''add'', 28, 0x605) \<in> set neighbor_operations" by (simp add: neighbor_operations_def)
  have a: "isaddress ''10.0.0.7'' = Str (if False then ''inet6'' else ''inet'')" by code_simp
  show ?thesis
    using neighbor_requests [OF m, of quiet_netkit "Str ''eth0''" 3 "''10.0.0.7''" False "[0, 26, 43, 255, 16, 9]" "[]" _] a
    by (simp add: is_error_def)
qed

end
