(* ===== verification/IpAddress.thy ===== *)
theory IpAddress
  imports IpNeighbor
begin

text \<open>
  \<open>ip/addr.js\<close>: the addresses of the interfaces.
\<close>

section \<open>netlinkAddrCommand\<close>

abbreviation (input) "AF_UNSPEC \<equiv> (0 :: int)"

text \<open>An option that is there but false is ignored.\<close>

definition set_truthy :: "props \<Rightarrow> string \<Rightarrow> string \<Rightarrow> meta \<Rightarrow> meta" where
  "set_truthy opts k field o1 =
     (if has_own opts k \<and> truthy (obj_get opts k) then meta_set field (obj_get opts k) o1 else o1)"

definition or_truthy :: "props \<Rightarrow> string \<Rightarrow> string \<Rightarrow> meta \<Rightarrow> meta run" where
  "or_truthy opts k field o1 =
     (if has_own opts k \<and> truthy (obj_get opts k) then or_field field (obj_get opts k) o1 else Return o1)"

definition addr_info :: "props \<Rightarrow> jsval \<Rightarrow> (meta \<times> meta) run" where
  "addr_info opts ifndex =
     run_bind buildHdr (\<lambda>h0.
       let h1 = meta_set ''_type'' (rtc ''RTM_GETLINK'') (meta_set ''_flags'' (Num NLM_F_REQUEST) h0) in
     run_bind buildIfaddressmsg (\<lambda>a0.
       let a1 = meta_set ''_flags'' (Num 0x80) (meta_set ''_index'' ifndex a0) in
     run_bind (or_truthy opts ''flags'' ''_flags'' (set_truthy opts ''type'' ''_type'' h1)) (\<lambda>nl_hdr.
     run_bind (or_truthy opts ''family'' ''_family'' a1) (\<lambda>addr_msg. Return (nl_hdr, addr_msg)))))"

text \<open>
  The family of the address: that of the options, or what \<open>isaddress\<close> says of the text when the options
  have none.
\<close>

definition addr_family :: "props \<Rightarrow> string \<Rightarrow> jsval + jsval" where
  "addr_family opts addr =
     (let family = (if has_own opts ''family'' \<and> truthy (obj_get opts ''family'') then obj_get opts ''family'' else Num AF_UNSPEC) in
      if family = Num AF_UNSPEC then
        (let f = isaddress addr in
         if is_error f then Inl f else Inr (Num (if f = Str ''inet6'' then AF_INET6 else AF_INET)))
      else Inr family)"

definition addr_attributes_of :: "props \<Rightarrow> meta \<Rightarrow> jsval \<Rightarrow> bytes option list run" where
  "addr_attributes_of opts addr_msg0 destbuf =
     run_bind (get_prop destbuf ''mask'') (\<lambda>m.
       let addr_msg = meta_set ''_prefix_len'' (if truthy m then m else Num 0) addr_msg0 in
     run_bind (meta_pack addr_msg) (\<lambda>b.
     run_bind
       (if has_own opts ''label'' \<and> truthy (obj_get opts ''label'') then
          (case obj_get opts ''label'' of
             Str label \<Rightarrow>
               run_bind (buildRtattrBuf (case map_of addr_attributes ''IFA_LABEL'' of Some n \<Rightarrow> Num n | None \<Rightarrow> Undef)
                 (Buf (bytes_of_string label))) (\<lambda>rt_attr.
               run_bind (as_hex_buffer rt_attr) (\<lambda>_. Return [b, rt_attr]))
           | _ \<Rightarrow> Throw (NotModelled ''label that is not a text''))
        else Return [b]) (\<lambda>bufs.
     run_bind (address_attribute (map_of route_attributes ''RTA_DST'') destbuf) (\<lambda>d.
     run_bind (address_attribute (map_of route_attributes ''RTA_SRC'') destbuf) (\<lambda>s.
       Return (bufs @ [d, s]))))))"

text \<open>
  After the error about an address that is no text there is no \<open>return\<close>: the callback is called, and the
  code goes on with an undefined \<open>destbuf\<close>.
\<close>

definition netlinkAddrCommand :: "netkit \<Rightarrow> nat \<Rightarrow> props \<Rightarrow> (jsval \<Rightarrow> bytes list \<Rightarrow> unit act) \<Rightarrow> unit act" where
  "netlinkAddrCommand nk n opts cb =
     (let ifndex = (if has_own opts ''ifname'' then ifNameToIndex (nk_native nk) (obj_get opts ''ifname'') else Undef) in
      if is_error ifndex then cb ifndex []
      else
        act_bind (act_run (addr_info opts ifndex)) (\<lambda>(nl_hdr, addr_msg).
          if has_own opts ''addr'' \<and> obj_get opts ''addr'' \<noteq> Null then
            (case obj_get opts ''addr'' of
               Str addr \<Rightarrow>
                 (case addr_family opts addr of
                    Inl err \<Rightarrow> cb err []
                  | Inr family \<Rightarrow>
                      let ans = toAddress (nk_native nk) (Str addr) family in
                      if is_error ans then cb ans []
                      else act_bind (act_run (addr_attributes_of opts addr_msg ans)) (\<lambda>bufs. nl_send nk n nl_hdr bufs cb))
             | _ \<Rightarrow>
                 act_seq (cb (ErrorObj ''Error: netlinkAddrCommand() ip address is not a string'') [])
                 (act_bind (act_run (meta_pack addr_msg)) (\<lambda>b.
                  act_bind (act_run (if has_own opts ''label'' \<and> truthy (obj_get opts ''label'')
                     then (case obj_get opts ''label'' of Str l \<Rightarrow> Return () | _ \<Rightarrow> Throw (NotModelled ''label that is not a text''))
                     else Return ())) (\<lambda>_.
                  act_bind (act_run (get_prop Undef ''bytes'')) (\<lambda>_. act_return ())))))
          else nl_send nk n nl_hdr [] cb))"

section \<open>address\<close>

definition address_filters :: "jsval \<Rightarrow> jsval \<Rightarrow> jsval \<Rightarrow> jsval \<Rightarrow> props" where
  "address_filters family ifname addr label =
     filter (\<lambda>(k, v). truthy v) [(''family'', family), (''address'', addr), (''label'', label), (''ifname'', ifname)]"

text \<open>
  The commands for \<open>address\<close>. The options of \<open>show\<close> make an inquiry with the filters, and
  \<open>flush\<close> deletes what an inquiry finds.
\<close>

datatype address_kind = AddrInquiry props | AddrCommand props | AddrFlush props | AddrRefused "jsval list" | AddrUnsupported

definition address_error :: "jsval \<Rightarrow> string \<Rightarrow> jsval list" where
  "address_error operation msg = [ErrorObj (''Error: address '' @ to_string operation @ msg)]"

definition address_opts :: "jsval \<Rightarrow> jsval \<Rightarrow> jsval \<Rightarrow> jsval \<Rightarrow> jsval \<Rightarrow> address_kind" where
  "address_opts operation fam ifname addr label =
     (let opts = (\<lambda>type flags.
            [(''type'', rtc type), (''flags'', Num flags), (''family'', fam), (''addr'', addr),
             (''ifname'', ifname), (''label'', label)])
      in
      if \<not> truthy operation \<or> operation = Str ''show'' then
        (if ifname = Null then AddrRefused (address_error operation '' ifname parameter required'')
         else AddrInquiry (opts ''RTM_GETADDR'' dump_flags))
      else if operation = Str ''add'' then
        (if addr = Null then AddrRefused (address_error operation '' addr required'')
         else AddrCommand (opts ''RTM_NEWADDR'' (js_or (js_or (js_or NLM_F_REQUEST NLM_F_CREATE) NLM_F_EXCL) NLM_F_ACK)))
      else if operation = Str ''change'' then
        (if addr = Null then AddrRefused (address_error operation '' addr parameter required'')
         else AddrCommand (opts ''RTM_NEWADDR'' (js_or (js_or NLM_F_REQUEST NLM_F_REPLACE) NLM_F_ACK)))
      else if operation = Str ''delete'' then
        (if addr = Null \<and> label = Null then AddrRefused (address_error operation '' addr or label parameters required'')
         else AddrCommand (opts ''RTM_DELADDR'' NLM_F_REQUEST))
      else if operation = Str ''flush'' then
        AddrFlush [(''type'', rtc ''RTM_DELADDR''), (''flags'', Num NLM_F_REQUEST), (''family'', fam),
                   (''ifname'', ifname), (''label'', Null)]
      else AddrUnsupported)"

text \<open>
  The loop of \<open>flush\<close> over the addresses found. The callbacks of the single commands only count: the last
  one closes the socket and calls the user back. \<open>keysToGo\<close> is threaded through the loop; the replies are
  taken in the order of the messages, which theory \<open>IpFlush\<close> shows to be no restriction.
\<close>

fun flush_loop :: "netkit \<Rightarrow> props \<Rightarrow> nat \<Rightarrow> jsval list \<Rightarrow> nat \<Rightarrow> unit act" where
  "flush_loop nk opts n [] keysToGo = act_return ()"
| "flush_loop nk opts n (d # ds) keysToGo =
     act_bind (act_run (run_bind (get_prop d ''event'') (\<lambda>ev. get_prop ev ''address''))) (\<lambda>a.
     act_seq
       (netlinkAddrCommand nk n (obj_set ''addr'' a opts) (\<lambda>err bufs.
          if keysToGo - 1 = 0 then act_seq (emit Close) (user_callback [Null]) else act_return ()))
       (flush_loop nk opts (Suc n) ds (keysToGo - 1)))"

definition address_flush :: "netkit \<Rightarrow> jsval \<Rightarrow> props \<Rightarrow> unit act" where
  "address_flush nk filters opts =
     sendInquiry nk filters (Some [(''type'', rtc ''RTM_GETADDR''), (''flags'', Num dump_flags)]) (\<lambda>args.
       case args of
         [err] \<Rightarrow> act_seq (emit Close) (user_callback [err])
       | [_, Arr bufs] \<Rightarrow>
           if bufs = [] then act_seq (emit Close) (user_callback [Null])
           else flush_loop nk opts 2 bufs (length bufs)
       | _ \<Rightarrow> act_return ())"

text \<open>\<open>rt\<close> has no constant \<open>AF_UNSPEC\<close>: without a family, the family of the options is undefined.\<close>

definition family_number :: "jsval \<Rightarrow> jsval option" where
  "family_number family =
     (if family = Null then Some (rtc ''AF_UNSPEC'')
      else if family = Str ''inet'' then Some (Num AF_INET)
      else if family = Str ''inet6'' then Some (Num AF_INET6) else None)"

text \<open>
  \<open>address(operation, family, ifname, addr, label, cb)\<close>. When \<open>create\<close> fails, the callback is called and
  only the function given to \<open>create\<close> returns.
\<close>

definition address :: "netkit \<Rightarrow> jsval \<Rightarrow> jsval \<Rightarrow> jsval \<Rightarrow> jsval \<Rightarrow> jsval \<Rightarrow> unit act" where
  "address nk operation family ifname addr label =
     (case family_number family of
        None \<Rightarrow> user_callback (address_error operation ('' unrecognized family '' @ to_string family))
      | Some fam \<Rightarrow>
          if ifname = Null \<and> operation \<noteq> Str ''show'' then
            user_callback (address_error operation '' parameter ifname is required'')
          else
            let filters = Obj (address_filters family ifname addr label); err = nk_create nk [] in
            act_seq (emit (Create []))
           (act_seq (if truthy err then user_callback [err] else act_return ())
              (case address_opts operation fam ifname addr label of
                 AddrInquiry opts \<Rightarrow> sendInquiry nk filters (Some opts) user_callback
               | AddrRefused args \<Rightarrow> user_callback args
               | AddrUnsupported \<Rightarrow> act_return ()
               | AddrFlush opts \<Rightarrow> address_flush nk filters opts
               | AddrCommand opts \<Rightarrow>
                   netlinkAddrCommand nk 0 opts (\<lambda>err bufs.
                     act_seq (emit Close) (user_callback (if truthy err then [err] else [Null, Arr (map Buf bufs)]))))))"

section \<open>Answers\<close>

interpretation addr: reporting netlinkAddrCommand
proof unfold_locales
  fix P :: "ip_event \<Rightarrow> bool" and c nk n opts and cb :: "jsval \<Rightarrow> bytes list \<Rightarrow> unit act"
  assume P: "\<And>r. \<not> P (Send r)" and cb: "\<And>err bufs. counts P c (cb err bufs)"
  have throws: "counts P c (act_seq m (act_bind (act_run r) f))" if "\<And>x. snd (f x) \<noteq> Return ()" for m :: "unit act" and r :: "'a run" and f
  proof -
    have "snd (act_bind (act_run r) f) \<noteq> Return ()" using that by (cases r) (simp_all add: act_throw_def act_run_def act_bind_def)
    then show ?thesis by (simp add: counts_def act_seq_outcome)
  qed
  have fails: "snd (act_bind (act_run r) (\<lambda>_. act_throw e)) \<noteq> Return ()" for r :: "'b run" and e
    by (cases r) (simp_all add: act_throw_def act_run_def act_bind_def)
  have fail: "snd (act_throw e) \<noteq> Return ()" for e by (simp add: act_throw_def)
  show "counts P c (netlinkAddrCommand nk n opts cb)"
    by (cases "obj_get opts ''addr''")
      (simp_all add: netlinkAddrCommand_def Let_def throws fails fail P cb counts_nl_send split: sum.split prod.split)
qed

lemma flush_loop_answers: "counts is_callback (if ds = [] then 0 else 1) (flush_loop nk opts n ds (length ds))"
proof (induction ds arbitrary: n)
  case (Cons d ds)
  have "counts is_callback ((if ds = [] then 1 else 0) + (if ds = [] then 0 else 1))
     (act_seq (netlinkAddrCommand nk n (obj_set ''addr'' a opts) (\<lambda>err bufs.
          if length (d # ds) - 1 = 0 then act_seq (emit Close) (user_callback [Null]) else act_return ()))
       (flush_loop nk opts (Suc n) ds (length (d # ds) - 1)))" for a
    by (rule counts_seq [OF addr.answers]) (use Cons.IH in simp_all)
  then show ?case by (cases ds) simp_all
qed simp

lemma address_flush_answers: "counts is_callback 1 (address_flush nk filters opts)"
  unfolding address_flush_def
proof (rule sendInquiry_answers)
  show "counts is_callback 1 (case [Null, Arr ds] of [err] \<Rightarrow> act_seq (emit Close) (user_callback [err])
       | [_, Arr bufs] \<Rightarrow> if bufs = [] then act_seq (emit Close) (user_callback [Null]) else flush_loop nk opts 2 bufs (length bufs)
       | _ \<Rightarrow> act_return ())" for ds
    using flush_loop_answers [of ds nk opts 2] by (cases ds) simp_all
qed simp_all



section \<open>Requests\<close>

definition ifaddr_bytes :: "int \<Rightarrow> int \<Rightarrow> int \<Rightarrow> bytes" where
  "ifaddr_bytes family prefix index =
     le_bytes 1 (clamp_el (unsigned_el 1) family) @ le_bytes 1 (clamp_el (unsigned_el 1) prefix) @ [0x80, 0] @
     le_bytes 4 (clamp_el (unsigned_el 4) index)"

lemma length_ifaddr_bytes [simp]: "length (ifaddr_bytes f p i) = 8"
  by (simp add: ifaddr_bytes_def)

definition is_ifaddr :: "meta \<Rightarrow> bool" where
  "is_ifaddr m \<longleftrightarrow> m_format m = ifaddrmsg_fmt \<and> m_keylist m = [''_family'', ''_prefix_len'', ''_flags'', ''_scope'', ''_index''] \<and>
     meta_get m ''_scope'' = Num 0"

lemma buildIfaddressmsg_value:
  "\<exists>a. buildIfaddressmsg = Return a \<and> is_ifaddr a \<and> meta_get a ''_family'' = Num 0"
  by (simp add: buildIfaddressmsg_def metaObject_def scan_ifaddrmsg calcLength_def toValArray_def map_filter_def zero_fields_def is_ifaddr_def)

lemma is_ifaddr_set [simp]: "k \<noteq> ''_scope'' \<Longrightarrow> is_ifaddr (meta_set k v m) = is_ifaddr m"
  by (simp add: is_ifaddr_def)

lemma ifaddr_pack:
  assumes "is_ifaddr m" "meta_get m ''_family'' = Num a" "meta_get m ''_prefix_len'' = Num p" "meta_get m ''_index'' = Num i"
    "meta_get m ''_flags'' = Num 128"
  shows "meta_pack m = Return (Some (ifaddr_bytes a p i))"
proof -
  have z: "word_of_int (clamp_el (unsigned_el (Suc 0)) 0) = (0 :: byte)" "word_of_int (clamp_el (unsigned_el (Suc 0)) 128) = (128 :: byte)"
    by code_simp+
  have "all_nums m" using assms by (simp add: all_nums_def is_ifaddr_def num_of_def)
  then have "meta_pack m = Return (Some (enc_elems (fmt_be (m_format m)) (scan_fmt (m_format m)) (meta_nums m)))"
    by (rule meta_pack_nums) (use assms(1) in \<open>simp_all add: is_ifaddr_def scan_ifaddrmsg\<close>)
  then show ?thesis using assms
    by (simp add: is_ifaddr_def meta_nums_def num_of_def scan_ifaddrmsg ifaddr_bytes_def z)
qed

text \<open>The families \<open>address\<close> accepts: their name, what the options hold, the number in the message.\<close>

definition address_families :: "(jsval \<times> jsval \<times> int) list" where
  "address_families = [(Null, Undef, 0), (Str ''inet'', Num 2, 2), (Str ''inet6'', Num 10, 10)]"

lemma addr_info_value:
  assumes "obj_get opts ''type'' = Num t" "obj_get opts ''flags'' = Num f" "obj_get opts ''family'' = fam"
    "has_own opts ''type''" "has_own opts ''flags''" "has_own opts ''family''" "t \<noteq> 0" "f \<noteq> 0" "(family, fam, a) \<in> set address_families"
  shows "\<exists>h i. addr_info opts (Num ix) = Return (h, i) \<and> is_hdr h \<and> meta_get h ''_type'' = Num t \<and>
    meta_get h ''_flags'' = Num (js_or NLM_F_REQUEST f) \<and> meta_get h ''_seq'' = Num 0 \<and> meta_get h ''_pid'' = Num 0 \<and>
    is_ifaddr i \<and> meta_get i ''_family'' = Num a \<and> meta_get i ''_index'' = Num ix \<and> meta_get i ''_flags'' = Num 128"
proof -
  obtain h where h: "buildHdr = Return h" "is_hdr h" "meta_get h ''_seq'' = Num 0" "meta_get h ''_pid'' = Num 0"
    using buildHdr_value by blast
  obtain m where m: "buildIfaddressmsg = Return m" "is_ifaddr m" "meta_get m ''_family'' = Num 0"
    using buildIfaddressmsg_value by blast
  have c: "rtc ''RTM_GETLINK'' = Num 18" "js_or 0 2 = 2" "js_or 0 10 = 10" by code_simp+
  let ?h = "meta_set ''_flags'' (Num (js_or NLM_F_REQUEST f)) (meta_set ''_type'' (Num t)
      (meta_set ''_type'' (Num 18) (meta_set ''_flags'' (Num NLM_F_REQUEST) h)))"
  let ?m0 = "meta_set ''_flags'' (Num 128) (meta_set ''_index'' (Num ix) m)"
  let ?m = "if truthy fam then meta_set ''_family'' (Num a) ?m0 else ?m0"
  have "addr_info opts (Num ix) = Return (?h, ?m)"
    using assms by (auto simp: addr_info_def h(1) m Let_def set_truthy_def or_truthy_def or_field_def bit_operand_def c address_families_def)
  moreover have "is_hdr ?h" using h by (simp add: is_hdr_set)
  ultimately show ?thesis using h m assms(9) by - (rule exI [of _ ?h], rule exI [of _ ?m], auto simp: address_families_def)
qed

text \<open>The operations and their message types and flags.\<close>

definition address_operations :: "(string \<times> int \<times> int) list" where
  "address_operations = [(''add'', 20, 0x605), (''change'', 20, 0x105), (''delete'', 21, 1)]"

lemma address_opts_operations:
  assumes "(op, t, f) \<in> set address_operations" "addr \<noteq> Null \<or> label \<noteq> Null \<and> op = ''delete''"
  shows "address_opts (Str op) fam ifname addr label =
    AddrCommand [(''type'', Num t), (''flags'', Num f), (''family'', fam), (''addr'', addr), (''ifname'', ifname), (''label'', label)]"
proof -
  have c: "rtc ''RTM_NEWADDR'' = Num 20" "rtc ''RTM_DELADDR'' = Num 21"
    "js_or (js_or (js_or NLM_F_REQUEST NLM_F_CREATE) NLM_F_EXCL) NLM_F_ACK = 0x605"
    "js_or (js_or NLM_F_REQUEST NLM_F_REPLACE) NLM_F_ACK = 0x105" by code_simp+
  from assms show ?thesis by (auto simp: address_operations_def address_opts_def Let_def c)
qed

lemma addr_attributes_value:
  assumes "is_ifaddr i" "meta_get i ''_family'' = Num a" "meta_get i ''_index'' = Num ix" "meta_get i ''_flags'' = Num 128"
    "get_prop ans ''bytes'' = Return (Buf b)" "get_prop ans ''mask'' = Return (Num m)" "length b < 65532"
    "obj_get opts ''label'' = (case l of None \<Rightarrow> Null | Some s \<Rightarrow> Str s)" "has_own opts ''label''"
    "la = (case l of None \<Rightarrow> [] | Some s \<Rightarrow> if s = [] then [] else [rtattr_enc (3, bytes_of_string s)])"
    "length (bytes_of_string (case l of None \<Rightarrow> [] | Some s \<Rightarrow> s)) < 65532"
  shows "addr_attributes_of opts i ans =
    Return (map Some ([ifaddr_bytes a m ix] @ la @ [rtattr_enc (1, b), rtattr_enc (2, b)]))"
proof -
  have n: "map_of route_attributes ''RTA_DST'' = Some (int 1)" "map_of route_attributes ''RTA_SRC'' = Some (int 2)"
    "map_of addr_attributes ''IFA_LABEL'' = Some (int 3)" by code_simp+
  have v: "address_attribute (Some (int k)) ans = Return (Some (rtattr_enc (k, b)))" if "k < 65536" for k
    using that assms(5,7) by (intro address_attribute_value)
  have v12: "address_attribute (Some 1) ans = Return (Some (rtattr_enc (1, b)))" "address_attribute (Some 2) ans = Return (Some (rtattr_enc (2, b)))"
    using v [of 1] v [of 2] by simp_all
  have l: "buildRtattrBuf (Num 3) (Buf (bytes_of_string s)) = Return (Some (rtattr_enc (3, bytes_of_string s)))" if "l = Some s" for s
    using that assms(11) buildRtattrBuf_enc [of 3 "bytes_of_string s"] by (simp add: rtattr_ok_def)
  have p: "meta_pack (meta_set ''_prefix_len'' (if truthy (Num m) then Num m else Num 0) i) = Return (Some (ifaddr_bytes a m ix))"
    by (intro ifaddr_pack) (use assms(1-4) in simp_all)
  show ?thesis
    using p by (cases l) (auto simp: addr_attributes_of_def Let_def assms(6,8-10) n v12 as_hex_buffer_def l split: if_splits)
qed

lemma netlinkAddrCommand_sent:
  assumes "obj_get opts ''type'' = Num t" "obj_get opts ''flags'' = Num f" "obj_get opts ''family'' = fam"
    "has_own opts ''type''" "has_own opts ''flags''" "has_own opts ''family''" "t \<noteq> 0" "f \<noteq> 0" "js_or NLM_F_REQUEST f = f"
    and "(family, fam, a) \<in> set address_families"
    and "has_own opts ''ifname''" "ifNameToIndex (nk_native nk) (obj_get opts ''ifname'') = Num ix"
    and "has_own opts ''addr''" "obj_get opts ''addr'' = Str s" "isaddress s = Str (if v6 then ''inet6'' else ''inet'')"
    and "toAddress (nk_native nk) (Str s) (if family = Null then Num (if v6 then 10 else 2) else fam) = ans" "\<not> is_error ans"
    and "get_prop ans ''bytes'' = Return (Buf b)" "get_prop ans ''mask'' = Return (Num m)" "length b < 65532"
    and "has_own opts ''label''" "obj_get opts ''label'' = (case l of None \<Rightarrow> Null | Some s \<Rightarrow> Str s)"
      "length (bytes_of_string (case l of None \<Rightarrow> [] | Some s \<Rightarrow> s)) < 65532"
    and "la = (case l of None \<Rightarrow> [] | Some s \<Rightarrow> if s = [] then [] else rtattr_enc (3, bytes_of_string s))"
    and "payload = ifaddr_bytes a m ix @ la @ rtattr_enc (1, b) @ rtattr_enc (2, b)"
    and "msg = hdr_bytes (16 + int (length payload)) t f 0 0 @ payload"
  shows "netlinkAddrCommand nk n opts cb =
      act_seq (emit (Send [msg])) (let (err, bufs) = nk_reply nk n [msg] in if truthy err then cb err [] else cb err bufs)"
proof -
  obtain h i where hi: "addr_info opts (Num ix) = Return (h, i)" "is_hdr h" "meta_get h ''_type'' = Num t"
    "meta_get h ''_flags'' = Num f" "meta_get h ''_seq'' = Num 0" "meta_get h ''_pid'' = Num 0"
    "is_ifaddr i" "meta_get i ''_family'' = Num a" "meta_get i ''_index'' = Num ix" "meta_get i ''_flags'' = Num 128"
    using addr_info_value [OF assms(1-8,10), of ix] assms(9) by auto
  let ?la = "case l of None \<Rightarrow> [] | Some s \<Rightarrow> if s = [] then [] else [rtattr_enc (3, bytes_of_string s)]"
  let ?bs = "[ifaddr_bytes a m ix] @ ?la @ [rtattr_enc (1, b), rtattr_enc (2, b)]"
  have "la = concat ?la" using assms(24) by (simp split: option.splits)
  then have m: "msg = hdr_bytes (16 + int (length (concat ?bs))) t f 0 0 @ concat ?bs"
    using assms(25,26) by simp
  have at: "addr_attributes_of opts i ans = Return (map Some ?bs)"
    by (rule addr_attributes_value [OF hi(7-10) assms(18-20)]) (use assms(21-23) in simp_all)
  have af: "addr_family opts s = Inr (if family = Null then Num (if v6 then 10 else 2) else fam)"
    using assms(10,15) by (auto simp: addr_family_def assms(3,6) Let_def address_families_def is_error_def)
  have "netlinkAddrCommand nk n opts cb = nl_send nk n h (map Some ?bs) cb"
    using assms(17)
    by (simp add: netlinkAddrCommand_def Let_def assms(11-14) af assms(16) at hi(1) is_error_def [of "Num ix"])
  then show ?thesis by (simp only: nl_send_framed [OF hi(2-6) m])
qed

text \<open>
  C16. Changing the addresses of an interface: one message with the number and the flags of the operation, the
  family the caller named, the length of the prefix, the index, the label if there is one, and the address
  twice, as destination and as source. Without a family the text decides how the address is converted, but
  the message still has the family 0.
\<close>

theorem address_requests:
  assumes "(op, t, f) \<in> set address_operations" "(family, fam, a) \<in> set address_families"
    and "ifname \<noteq> Null" "ifNameToIndex (nk_native nk) ifname = Num ix" "\<not> truthy (nk_create nk [])"
    and "isaddress s = Str (if v6 then ''inet6'' else ''inet'')"
    and "toAddress (nk_native nk) (Str s) (if family = Null then Num (if v6 then 10 else 2) else fam) = ans" "\<not> is_error ans"
    and "get_prop ans ''bytes'' = Return (Buf b)" "get_prop ans ''mask'' = Return (Num m)" "length b < 65532"
    and "label = (case l of None \<Rightarrow> Null | Some s \<Rightarrow> Str s)" "length (bytes_of_string (case l of None \<Rightarrow> [] | Some s \<Rightarrow> s)) < 65532"
    and "la = (case l of None \<Rightarrow> [] | Some s \<Rightarrow> if s = [] then [] else rtattr_enc (3, bytes_of_string s))"
    and "payload = ifaddr_bytes a m ix @ la @ rtattr_enc (1, b) @ rtattr_enc (2, b)"
    and "msg = hdr_bytes (16 + int (length payload)) t f 0 0 @ payload"
  shows "address nk (Str op) family ifname (Str s) label =
    ([Create [], Send [msg], Close,
      Callback (case nk_reply nk 0 [msg] of (err, bufs) \<Rightarrow> if truthy err then [err] else [Null, Arr (map Buf bufs)])], Return ())"
proof -
  define opts where "opts = [(''type'', Num t), (''flags'', Num f), (''family'', fam), (''addr'', Str s), (''ifname'', ifname), (''label'', label)]"
  have o: "has_own opts k = (k \<in> {''type'', ''flags'', ''family'', ''addr'', ''ifname'', ''label''})" for k
    by (auto simp: has_own_def opts_def)
  have g: "obj_get opts ''type'' = Num t" "obj_get opts ''flags'' = Num f" "obj_get opts ''family'' = fam"
    "obj_get opts ''addr'' = Str s" "obj_get opts ''ifname'' = ifname" "obj_get opts ''label'' = label" by (simp_all add: opts_def)
  have tf: "t \<noteq> 0" "f \<noteq> 0" using assms(1) by (auto simp: address_operations_def)
  have j: "js_or NLM_F_REQUEST f = f"
  proof -
    have "list_all (\<lambda>(op, t, f). js_or NLM_F_REQUEST f = f) address_operations" by code_simp
    then show ?thesis using assms(1) by (auto simp: list_all_iff)
  qed
  have sent: "netlinkAddrCommand nk 0 opts cb =
      act_seq (emit (Send [msg])) (let (err, bufs) = nk_reply nk 0 [msg] in if truthy err then cb err [] else cb err bufs)" for cb
    by (rule netlinkAddrCommand_sent [OF g(1-3) _ _ _ tf j assms(2) _ _ _ g(4) assms(6-11) _ _ assms(13-16)])
      (simp_all add: o g assms(4,12))
  have fn: "family_number family = Some fam"
  proof -
    have "rtc ''AF_UNSPEC'' = Undef" by code_simp
    then show ?thesis using assms(2) by (auto simp: address_families_def family_number_def)
  qed
  have ao: "address_opts (Str op) fam ifname (Str s) label = AddrCommand opts"
    unfolding opts_def by (rule address_opts_operations [OF assms(1)]) simp
  show ?thesis using assms(3,5)
    by (intro prod_eqI) (simp_all add: address_def fn ao sent user_callback_def Let_def split: prod.split)
qed

definition address_netkit :: netkit where
  "address_netkit = quiet_netkit\<lparr>nk_native := (nk_native quiet_netkit)\<lparr>toAddress := \<lambda>a f. Obj [(''bytes'', Buf [10, 0, 0, 7]), (''mask'', Num 24)]\<rparr>\<rparr>"

lemma address_requests_witness:
  "address address_netkit (Str ''add'') Null (Str ''eth0'') (Str ''10.0.0.7/24'') (Str ''eth0:1'') =
    ([Create [], Send [hdr_bytes 52 20 0x605 0 0 @ ifaddr_bytes 0 24 3 @ rtattr_enc (3, bytes_of_string ''eth0:1'') @
        [8, 0, 1, 0, 10, 0, 0, 7, 8, 0, 2, 0, 10, 0, 0, 7]], Close, Callback [Null, Arr []]], Return ())"
proof -
  have m: "(''add'', 20, 0x605) \<in> set address_operations" "(Null, Undef, 0) \<in> set address_families"
    by (simp_all add: address_operations_def address_families_def)
  have a: "isaddress ''10.0.0.7/24'' = Str (if False then ''inet6'' else ''inet'')" by code_simp
  have r: "rtattr_enc (Suc 0, [10, 0, 0, 7]) = [8, 0, 1, 0, 10, 0, 0, 7]" "rtattr_enc (2, [10, 0, 0, 7]) = [8, 0, 2, 0, 10, 0, 0, 7]"
    "length (rtattr_enc (3, bytes_of_string ''eth0:1'')) = 12" "length (bytes_of_string ''eth0:1'') = 6" by code_simp+
  show ?thesis
    using address_requests [OF m, of "Str ''eth0''" address_netkit 3 "''10.0.0.7/24''" False _ "[10, 0, 0, 7]" 24 "Str ''eth0:1''" "Some ''eth0:1''"] a
    by (simp add: is_error_def address_netkit_def r)
qed

text \<open>
  Deleting by label only: without an address neither the message of the address nor the label is put in,
  and what is sent is a header alone.
\<close>

lemma address_delete_by_label:
  assumes "(family, fam, a) \<in> set address_families" "ifname \<noteq> Null" "label \<noteq> Null" "ifNameToIndex (nk_native nk) ifname = Num ix"
    "\<not> truthy (nk_create nk [])"
  shows "fst (address nk (Str ''delete'') family ifname Null label) ! 1 = Send [hdr_bytes 16 21 1 0 0]"
proof -
  define opts where "opts = [(''type'', Num 21), (''flags'', Num 1), (''family'', fam), (''addr'', Null), (''ifname'', ifname), (''label'', label)]"
  have o: "has_own opts k = (k \<in> {''type'', ''flags'', ''family'', ''addr'', ''ifname'', ''label''})" for k
    by (auto simp: has_own_def opts_def)
  have g: "obj_get opts ''type'' = Num 21" "obj_get opts ''flags'' = Num 1" "obj_get opts ''family'' = fam"
    "obj_get opts ''addr'' = Null" "obj_get opts ''ifname'' = ifname" by (simp_all add: opts_def)
  have j: "js_or NLM_F_REQUEST 1 = 1" by code_simp
  obtain h i where hi: "addr_info opts (Num ix) = Return (h, i)" "is_hdr h" "meta_get h ''_type'' = Num 21"
    "meta_get h ''_flags'' = Num 1" "meta_get h ''_seq'' = Num 0" "meta_get h ''_pid'' = Num 0"
    using addr_info_value [OF g(1,2,3) _ _ _ _ _ assms(1), of ix] o j by auto
  have sent: "netlinkAddrCommand nk 0 opts cb = act_seq (emit (Send [hdr_bytes 16 21 1 0 0]))
      (let (err, bufs) = nk_reply nk 0 [hdr_bytes 16 21 1 0 0] in if truthy err then cb err [] else cb err bufs)" for cb
    using nl_send_framed [OF hi(2-6), of "hdr_bytes 16 21 1 0 0" "[]" nk 0 cb]
    by (simp add: netlinkAddrCommand_def Let_def o g assms(4) hi(1) is_error_def [of "Num ix"])
  have fn: "family_number family = Some fam"
  proof -
    have "rtc ''AF_UNSPEC'' = Undef" by code_simp
    then show ?thesis using assms(1) by (auto simp: address_families_def family_number_def)
  qed
  have "(''delete'', 21, 1) \<in> set address_operations" by (simp add: address_operations_def)
  from address_opts_operations [OF this, of Null label fam ifname] have "address_opts (Str ''delete'') fam ifname Null label = AddrCommand opts"
    using assms(3) by (simp add: opts_def)
  then show ?thesis using assms(2,5) by (simp add: address_def fn sent Let_def)
qed

end
