(* ===== verification/IpFlush.thy ===== *)
theory IpFlush
  imports IpAddress
begin

text \<open>
  The loop of \<open>flush\<close> in \<open>ip/addr.js\<close> with the replies in any order. The loop sends the messages one after
  the other; the function it gives to each of them only counts \<open>keysToGo\<close> down, and the one that reaches
  zero answers. JavaScript runs the loop to its end before any reply is handled.
\<close>

section \<open>Sending one message\<close>

text \<open>
  What a command does before its continuation: it sends a message, on whose reply the continuation runs
  later, it runs the continuation at once, or it throws.
\<close>

datatype started = Sent msgreq | Answered | Failed

definition addr_start :: "netkit \<Rightarrow> nat \<Rightarrow> props \<Rightarrow> started" where
  "addr_start nk n opts =
     (case netlinkAddrCommand nk n opts (\<lambda>err bufs. user_callback [err]) of
        (Send m # es, _) \<Rightarrow> Sent m
      | (_, Return u) \<Rightarrow> Answered
      | _ \<Rightarrow> Failed)"

definition delete_opts :: "props \<Rightarrow> jsval \<Rightarrow> props run" where
  "delete_opts opts d =
     run_bind (run_bind (get_prop d ''event'') (\<lambda>ev. get_prop ev ''address'')) (\<lambda>a. Return (obj_set ''addr'' a opts))"

section \<open>The machine\<close>

record flush_state =
  fs_todo :: "jsval list"    \<comment> \<open>the data the loop has not reached\<close>
  fs_next :: nat             \<comment> \<open>the number of the next message\<close>
  fs_pending :: "nat set"    \<comment> \<open>the messages without a reply\<close>
  fs_keysToGo :: nat
  fs_events :: "ip_event list"

definition flush_init :: "jsval list \<Rightarrow> nat \<Rightarrow> flush_state" where
  "flush_init ds n = \<lparr>fs_todo = ds, fs_next = n, fs_pending = {}, fs_keysToGo = length ds, fs_events = []\<rparr>"

text \<open>The function given to every command: \<open>if (--keysToGo === 0) onComplete()\<close>.\<close>

definition count_down :: "flush_state \<Rightarrow> flush_state" where
  "count_down s =
     s\<lparr>fs_keysToGo := fs_keysToGo s - 1,
       fs_events := fs_events s @ (if fs_keysToGo s - 1 = 0 then [Close, Callback [Null]] else [])\<rparr>"

inductive flush_step :: "netkit \<Rightarrow> props \<Rightarrow> flush_state \<Rightarrow> flush_state \<Rightarrow> bool" for nk opts where
  send: "\<lbrakk>fs_todo s = d # ds; delete_opts opts d = Return o1; addr_start nk (fs_next s) o1 = Sent m\<rbrakk> \<Longrightarrow>
    flush_step nk opts s (s\<lparr>fs_todo := ds, fs_next := Suc (fs_next s), fs_pending := insert (fs_next s) (fs_pending s),
      fs_events := fs_events s @ [Send m]\<rparr>)"
| refused: "\<lbrakk>fs_todo s = d # ds; delete_opts opts d = Return o1; addr_start nk (fs_next s) o1 = Answered\<rbrakk> \<Longrightarrow>
    flush_step nk opts s (count_down (s\<lparr>fs_todo := ds, fs_next := Suc (fs_next s)\<rparr>))"
| reply: "\<lbrakk>fs_todo s = []; k \<in> fs_pending s\<rbrakk> \<Longrightarrow>
    flush_step nk opts s (count_down (s\<lparr>fs_pending := fs_pending s - {k}\<rparr>))"

inductive_cases flush_stepE: "flush_step nk opts s t"

abbreviation "flush_run nk opts \<equiv> rtranclp (flush_step nk opts)"

section \<open>The invariant\<close>

text \<open>
  Every message without a reply and every address not yet reached is still counted, and the caller was
  answered exactly when nothing is left to count.
\<close>

definition answers_of :: "ip_event list \<Rightarrow> nat" where
  "answers_of es = length (filter is_callback es)"

definition flush_inv :: "flush_state \<Rightarrow> bool" where
  "flush_inv s \<longleftrightarrow>
     finite (fs_pending s) \<and> (\<forall>k \<in> fs_pending s. k < fs_next s) \<and>
     fs_keysToGo s = length (fs_todo s) + card (fs_pending s) \<and>
     answers_of (fs_events s) = (if fs_keysToGo s = 0 then 1 else 0)"

lemma count_down_sel [simp]:
  "fs_todo (count_down s) = fs_todo s" "fs_next (count_down s) = fs_next s" "fs_pending (count_down s) = fs_pending s"
  "fs_keysToGo (count_down s) = fs_keysToGo s - 1"
  by (simp_all add: count_down_def)

lemma answers_count_down:
  "answers_of (fs_events (count_down s)) = answers_of (fs_events s) + (if fs_keysToGo s - 1 = 0 then 1 else 0)"
  by (simp add: count_down_def answers_of_def)

lemma flush_inv_init: "ds \<noteq> [] \<Longrightarrow> flush_inv (flush_init ds n)"
  by (simp add: flush_inv_def flush_init_def answers_of_def)

lemma flush_inv_step:
  assumes "flush_step nk opts s t" "flush_inv s"
  shows "flush_inv t"
  using assms
proof (induction rule: flush_step.induct)
  case (send s d ds o1 m)
  then have "fs_next s \<notin> fs_pending s" by (auto simp: flush_inv_def)
  with send show ?case by (auto simp: flush_inv_def answers_of_def)
next
  case (refused s d ds o1)
  then show ?case by (auto simp: flush_inv_def answers_count_down)
next
  case (reply s k)
  then have "0 < card (fs_pending s)" by (auto simp: flush_inv_def card_gt_0_iff)
  with reply show ?case by (auto simp: flush_inv_def answers_count_down)
qed

lemma flush_inv_run: "flush_run nk opts s t \<Longrightarrow> flush_inv s \<Longrightarrow> flush_inv t"
  by (induction rule: rtranclp_induct) (auto intro: flush_inv_step)

section \<open>Progress and termination\<close>

text \<open>No run is longer than two steps for each address.\<close>

definition flush_measure :: "flush_state \<Rightarrow> nat" where
  "flush_measure s = 2 * length (fs_todo s) + card (fs_pending s)"

lemma flush_measure_step: "flush_step nk opts s t \<Longrightarrow> flush_inv s \<Longrightarrow> flush_measure t < flush_measure s"
proof (induction rule: flush_step.induct)
  case (send s d ds o1 m)
  then show ?case using card_insert_le_m1 [of "Suc (card (fs_pending s))"] card_insert_if [of "fs_pending s" "fs_next s"]
    by (auto simp: flush_inv_def flush_measure_def)
next
  case (reply s k)
  then have "0 < card (fs_pending s)" by (auto simp: flush_inv_def card_gt_0_iff)
  with reply show ?case by (auto simp: flush_inv_def flush_measure_def)
qed (simp add: flush_measure_def)

text \<open>Addresses whose command does not throw.\<close>

definition deletable :: "netkit \<Rightarrow> props \<Rightarrow> jsval \<Rightarrow> bool" where
  "deletable nk opts d \<longleftrightarrow> (\<exists>o1. delete_opts opts d = Return o1 \<and> (\<forall>n. addr_start nk n o1 \<noteq> Failed))"

lemma flush_progress:
  assumes "flush_inv s" "\<forall>d \<in> set (fs_todo s). deletable nk opts d" "\<nexists>t. flush_step nk opts s t"
  shows "fs_todo s = []" "fs_pending s = {}"
proof -
  show todo: "fs_todo s = []"
  proof (cases "fs_todo s")
    case (Cons d ds)
    then obtain o1 where "delete_opts opts d = Return o1" "addr_start nk (fs_next s) o1 \<noteq> Failed"
      using assms(2) by (auto simp: deletable_def)
    then show ?thesis using assms(3) flush_step.send [OF Cons] flush_step.refused [OF Cons]
      by (cases "addr_start nk (fs_next s) o1") blast+
  qed
  show "fs_pending s = {}" using assms(3) flush_step.reply [OF todo] by blast
qed

lemma flush_todo_run:
  "flush_run nk opts s t \<Longrightarrow> set (fs_todo t) \<subseteq> set (fs_todo s)"
  by (induction rule: rtranclp_induct) (auto elim!: flush_stepE)

lemma flush_length:
  "(flush_step nk opts ^^ k) s t \<Longrightarrow> flush_inv s \<Longrightarrow> flush_inv t \<and> k + flush_measure t \<le> flush_measure s"
proof (induction k arbitrary: t)
  case (Suc k)
  then obtain u where u: "(flush_step nk opts ^^ k) s u" "flush_step nk opts u t" by auto
  have "flush_inv u" "k + flush_measure u \<le> flush_measure s" using Suc.IH [OF u(1)] Suc.prems(2) by simp_all
  then show ?case using flush_inv_step [OF u(2)] flush_measure_step [OF u(2)] by simp
qed simp

text \<open>Every run can be continued to its end, and no run goes on for ever.\<close>

lemma flush_continues:
  assumes "flush_inv s"
  shows "\<exists>t. flush_run nk opts s t \<and> (\<nexists>u. flush_step nk opts t u)"
  using assms
proof (induction "flush_measure s" arbitrary: s rule: less_induct)
  case less
  show ?case
  proof (cases "\<exists>t. flush_step nk opts s t")
    case True
    then obtain t where t: "flush_step nk opts s t" by blast
    with less(1) [OF flush_measure_step [OF t less(2)] flush_inv_step [OF t less(2)]] show ?thesis
      by (meson converse_rtranclp_into_rtranclp)
  qed blast
qed

text \<open>
  C6. Flushing at least one address, where no command throws: whatever the order in which the replies arrive,
  no run is longer than two steps for each address; in every state on the way the invariant of the counter
  holds; and a run has come to its end exactly when the caller was answered, once.
\<close>

theorem flush_answers_any_order:
  assumes "ds \<noteq> []" "\<forall>d \<in> set ds. deletable nk opts d"
  shows "(\<forall>k t. (flush_step nk opts ^^ k) (flush_init ds n) t \<longrightarrow> k \<le> 2 * length ds) \<and>
    (\<forall>t. flush_run nk opts (flush_init ds n) t \<longrightarrow>
       flush_inv t \<and> answers_of (fs_events t) \<le> 1 \<and>
       ((\<nexists>u. flush_step nk opts t u) \<longleftrightarrow> answers_of (fs_events t) = 1) \<and>
       (\<exists>u. flush_run nk opts t u \<and> answers_of (fs_events u) = 1))"
proof (intro conjI allI impI)
  note i = flush_inv_init [OF assms(1), of n]
  show "k \<le> 2 * length ds" if "(flush_step nk opts ^^ k) (flush_init ds n) t" for k t
    using flush_length [OF that i] by (simp add: flush_measure_def flush_init_def)
  fix t assume r: "flush_run nk opts (flush_init ds n) t"
  show t: "flush_inv t" by (rule flush_inv_run [OF r i])
  then show "answers_of (fs_events t) \<le> 1" by (simp add: flush_inv_def)
  have stuck: "answers_of (fs_events u) = 1" if "flush_run nk opts (flush_init ds n) u" "\<nexists>v. flush_step nk opts u v" for u
  proof -
    have "\<forall>d \<in> set (fs_todo u). deletable nk opts d" using flush_todo_run [OF that(1)] assms(2) by (auto simp: flush_init_def)
    from flush_progress [OF flush_inv_run [OF that(1) i] this that(2)] flush_inv_run [OF that(1) i] show ?thesis
      by (simp add: flush_inv_def)
  qed
  show "(\<nexists>u. flush_step nk opts t u) \<longleftrightarrow> answers_of (fs_events t) = 1"
  proof
    assume "answers_of (fs_events t) = 1"
    then have "fs_todo t = []" "fs_pending t = {}" using t by (auto simp: flush_inv_def split: if_splits)
    then show "\<nexists>u. flush_step nk opts t u" by (auto elim!: flush_stepE)
  qed (rule stuck [OF r])
  show "\<exists>u. flush_run nk opts t u \<and> answers_of (fs_events u) = 1"
    using flush_continues [OF t, of nk opts] stuck rtranclp_trans [OF r] by blast
qed

section \<open>An example\<close>

definition example_opts :: props where
  "example_opts = [(''type'', rtc ''RTM_DELADDR''), (''flags'', Num NLM_F_REQUEST), (''family'', Num 2), (''ifname'', Str ''eth0''), (''label'', Null)]"

definition example_data :: jsval where
  "example_data = Obj [(''event'', Obj [(''address'', Str ''10.0.0.7/24'')])]"

definition example_delete :: props where
  "example_delete = example_opts @ [(''addr'', Str ''10.0.0.7/24'')]"

definition example_message :: bytes where
  "example_message = hdr_bytes 40 21 1 0 0 @ ifaddr_bytes 2 24 3 @ rtattr_enc (Suc 0, [10, 0, 0, 7]) @ rtattr_enc (2, [10, 0, 0, 7])"

lemma example_delete_opts: "delete_opts example_opts example_data = Return example_delete"
  by code_simp

text \<open>An address the addon cannot read is not sent.\<close>

definition wrong_data :: jsval where
  "wrong_data = Obj [(''event'', Obj [(''address'', Str ''somewhere'')])]"

lemma wrong_delete_opts: "delete_opts example_opts wrong_data = Return (example_opts @ [(''addr'', Str ''somewhere'')])"
  by code_simp

definition flush_netkit :: netkit where
  "flush_netkit = address_netkit\<lparr>nk_native := (nk_native address_netkit)\<lparr>toAddress := \<lambda>a f.
     if a = Str ''10.0.0.7/24'' then toAddress (nk_native address_netkit) a f else ErrorObj ''Invalid address''\<rparr>\<rparr>"

lemma example_sent: "addr_start flush_netkit n example_delete = Sent [example_message]"
proof -
  have c: "rtc ''RTM_DELADDR'' = Num 21" "js_or NLM_F_REQUEST 1 = 1" by code_simp+
  have a: "isaddress ''10.0.0.7/24'' = Str (if False then ''inet6'' else ''inet'')" by code_simp
  have l: "length (rtattr_enc (k, [10, 0, 0, 7])) = 8" for k by (simp add: rtattr_enc_def pad4_def)
  have "netlinkAddrCommand flush_netkit n example_delete (\<lambda>err bufs. user_callback [err]) =
      act_seq (emit (Send [example_message])) (let (err, bufs) = nk_reply flush_netkit n [example_message] in user_callback [err])" for n
    using netlinkAddrCommand_sent [of example_delete 21 1 "Num 2" "Str ''inet''" 2 flush_netkit 3 "''10.0.0.7/24''" False
        "Obj [(''bytes'', Buf [10, 0, 0, 7]), (''mask'', Num 24)]" "[10, 0, 0, 7]" 24 None "[]" _ example_message n "\<lambda>err bufs. user_callback [err]"]
      c a by (simp add: example_delete_def example_opts_def has_own_def obj_get_def address_families_def address_netkit_def flush_netkit_def
          is_error_def l example_message_def)
  then show ?thesis by (simp add: addr_start_def split_def)
qed

lemma example_refused: "addr_start flush_netkit n (example_opts @ [(''addr'', Str ''somewhere'')]) = Answered"
  by code_simp

lemma example_deletable: "deletable flush_netkit example_opts example_data" "deletable flush_netkit example_opts wrong_data"
  by (simp_all add: deletable_def example_delete_opts wrong_delete_opts example_sent example_refused)

lemma flush_answers_any_order_witness:
  "(\<nexists>t. (flush_step flush_netkit example_opts ^^ 7) (flush_init [example_data, wrong_data, example_data] 2) t) \<and>
   (\<exists>u. flush_run flush_netkit example_opts (flush_init [example_data, wrong_data, example_data] 2) u \<and>
      answers_of (fs_events u) = 1 \<and> (\<nexists>v. flush_step flush_netkit example_opts u v))"
proof -
  have d: "\<forall>d \<in> set [example_data, wrong_data, example_data]. deletable flush_netkit example_opts d" by (simp add: example_deletable)
  note f = flush_answers_any_order [OF _ d, of 2]
  have bound: "k \<le> 6" if "(flush_step flush_netkit example_opts ^^ k) (flush_init [example_data, wrong_data, example_data] 2) t" for k t
    using f that by fastforce
  have "\<nexists>t. (flush_step flush_netkit example_opts ^^ 7) (flush_init [example_data, wrong_data, example_data] 2) t"
    using bound [of 7] by fastforce
  moreover obtain u where "flush_run flush_netkit example_opts (flush_init [example_data, wrong_data, example_data] 2) u"
    "answers_of (fs_events u) = 1"
    using f by blast
  ultimately show ?thesis using f by blast
qed

section \<open>The order of the replies does not matter\<close>

lemma nl_send_started:
  assumes "nl_send nk n h bufs (\<lambda>err bufs. user_callback [err]) = (Send m # es, r)"
  shows "nl_send nk n h bufs cb =
    act_seq (emit (Send m)) (let (err, bytes) = nk_reply nk n m in if truthy err then cb err [] else cb err bytes)"
  using assms
  by (cases "sendNetlinkCommand h bufs")
    (auto simp: nl_send_def act_throw_def act_bind_def act_run_def act_seq_def emit_def split: run.splits)

lemma addr_start_Sent:
  assumes "addr_start nk n opts = Sent m"
  shows "netlinkAddrCommand nk n opts cb =
    act_seq (emit (Send m)) (let (err, bytes) = nk_reply nk n m in if truthy err then cb err [] else cb err bytes)"
proof -
  let ?cb = "\<lambda>err bufs. user_callback [err]"
  obtain es r where s: "netlinkAddrCommand nk n opts ?cb = (Send m # es, r)"
    using assms by (auto simp: addr_start_def split: prod.splits list.splits ip_event.splits run.splits)
  have cb: "fst (user_callback args) \<noteq> Send m # es" "fst (act_seq (user_callback args) x) \<noteq> Send m # es"
    for args and x :: "unit act" by (simp_all add: user_callback_def)
  have cbs: "user_callback args = (Send m # es, r) \<longleftrightarrow> False" "act_seq (user_callback args) x = (Send m # es, r) \<longleftrightarrow> False"
    for args and x :: "unit act" using cb [of args] by (metis fst_conv)+
  have th: "act_bind (act_run r1) f = (Send m # es, r) \<longleftrightarrow> (\<exists>x. r1 = Return x \<and> f x = (Send m # es, r))"
    for r1 :: "'x run" and f :: "'x \<Rightarrow> unit act"
    by (cases r1) (auto simp: act_bind_def act_run_def)
  show ?thesis
    using s
    by (cases "obj_get opts ''addr''")
      (auto simp: netlinkAddrCommand_def Let_def cbs th nl_send_started split: if_splits sum.splits)
qed

text \<open>A command that is refused runs its continuation at once and does nothing else.\<close>

lemma nl_send_not_answered:
  "nl_send nk n h bufs (\<lambda>err bs. user_callback [err]) = (es, Return ()) \<Longrightarrow> \<exists>m es'. es = Send m # es'"
  by (cases "sendNetlinkCommand h bufs")
    (auto simp: nl_send_def act_throw_def act_bind_def act_run_def act_seq_def emit_def split: run.splits)

lemma addr_start_Answered:
  assumes "addr_start nk n opts = Answered"
  shows "\<exists>err bufs. \<forall>cb. netlinkAddrCommand nk n opts cb = cb err bufs"
proof -
  let ?cb = "\<lambda>err bufs. user_callback [err]"
  obtain es where es: "netlinkAddrCommand nk n opts ?cb = (es, Return ())" "\<And>m es'. es \<noteq> Send m # es'"
    using assms by (auto simp: addr_start_def split: prod.splits list.splits ip_event.splits run.splits)
  have no_send: "nl_send nk n h bufs ?cb = (es, Return ()) \<longleftrightarrow> False" for h bufs
    using nl_send_not_answered es(2) by blast
  have th: "act_bind (act_run r1) f = (es, Return ()) \<longleftrightarrow> (\<exists>x. r1 = Return x \<and> f x = (es, Return ()))"
    for r1 :: "'x run" and f :: "'x \<Rightarrow> unit act"
    by (cases r1) (auto simp: act_bind_def act_run_def)
  have seq: "act_seq (user_callback args) m = (es, Return ()) \<longleftrightarrow> es = Callback args # fst m \<and> snd m = Return ()" for args m
    by (auto simp: act_seq_def act_bind_def user_callback_def prod_eq_iff split: prod.splits)
  have outcome: "snd (act_bind (act_run r1) f) = Return () \<longleftrightarrow> (\<exists>x. r1 = Return x \<and> snd (f x) = Return ())"
    for r1 :: "'x run" and f :: "'x \<Rightarrow> unit act"
    by (cases r1) (auto simp: act_bind_def act_run_def)
  show ?thesis
    using es(1) unfolding netlinkAddrCommand_def Let_def
    by (cases "obj_get opts ''addr''") (auto simp: th no_send seq outcome act_throw_def split: if_splits sum.splits)
qed

text \<open>The messages of the loop, from the message number \<open>n\<close> on: those of the addresses that are not refused.\<close>

fun flush_sends :: "netkit \<Rightarrow> props \<Rightarrow> nat \<Rightarrow> jsval list \<Rightarrow> msgreq list" where
  "flush_sends nk opts n [] = []"
| "flush_sends nk opts n (d # ds) =
     (case delete_opts opts d of
        Return o1 \<Rightarrow> (case addr_start nk n o1 of Sent m \<Rightarrow> [m] | _ \<Rightarrow> [])
      | _ \<Rightarrow> []) @ flush_sends nk opts (Suc n) ds"

lemma flush_loop_events:
  assumes "\<forall>d \<in> set ds. deletable nk opts d" "length ds \<le> k"
  shows "flush_loop nk opts n ds k =
    (map Send (flush_sends nk opts n ds) @ (if ds \<noteq> [] \<and> k = length ds then [Close, Callback [Null]] else []), Return ())"
  using assms
proof (induction ds arbitrary: n k)
  case Nil
  then show ?case by (simp add: act_return_def)
next
  case (Cons d ds)
  obtain o1 where o1: "delete_opts opts d = Return o1" "addr_start nk n o1 \<noteq> Failed"
    using Cons.prems(1) by (auto simp: deletable_def)
  obtain a where a: "run_bind (get_prop d ''event'') (\<lambda>ev. get_prop ev ''address'') = Return a" "o1 = obj_set ''addr'' a opts"
    using o1(1) by (auto simp: delete_opts_def simp del: run_bind_eq_Return_iff dest!: run_bind_eq_Return_iff [THEN iffD1])
  let ?count = "if k - 1 = 0 then act_seq (emit Close) (user_callback [Null]) else act_return ()"
  have "netlinkAddrCommand nk n o1 (\<lambda>err bufs. ?count) =
    act_seq (case addr_start nk n o1 of Sent m \<Rightarrow> emit (Send m) | _ \<Rightarrow> act_return ()) ?count"
  proof (cases "addr_start nk n o1")
    case (Sent m)
    then show ?thesis by (simp add: addr_start_Sent split: prod.split)
  next
    case Answered
    then show ?thesis using addr_start_Answered [OF Answered] by auto
  qed (use o1(2) in simp)
  then have "flush_loop nk opts n (d # ds) k =
    act_seq (act_seq (case addr_start nk n o1 of Sent m \<Rightarrow> emit (Send m) | _ \<Rightarrow> act_return ()) ?count) (flush_loop nk opts (Suc n) ds (k - 1))"
    by (simp only: flush_loop.simps a(1) act_bind_simps a(2))
  moreover have "flush_loop nk opts (Suc n) ds (k - 1) =
    (map Send (flush_sends nk opts (Suc n) ds) @ (if ds \<noteq> [] \<and> k - 1 = length ds then [Close, Callback [Null]] else []), Return ())"
    using Cons.prems by (intro Cons.IH) simp_all
  moreover have "k - 1 = 0 \<longleftrightarrow> ds = [] \<and> k = 1" using Cons.prems(2) by (cases ds) auto
  ultimately show ?case using Cons.prems(2) o1
    by (cases ds; cases k; cases "addr_start nk n o1") (auto simp: act_seq_def act_bind_def emit_def user_callback_def act_return_def)
qed

lemma flush_events:
  assumes "flush_run nk opts (flush_init ds n) t" "ds \<noteq> []"
  shows "\<exists>ms. flush_sends nk opts n ds = ms @ flush_sends nk opts (fs_next t) (fs_todo t) \<and>
    fs_events t = map Send ms @ (if fs_keysToGo t = 0 then [Close, Callback [Null]] else [])"
  using assms(1)
proof (induction rule: rtranclp_induct)
  case base
  then show ?case using assms(2) by (simp add: flush_init_def)
next
  case (step s t)
  have inv: "flush_inv s" by (rule flush_inv_run [OF step.hyps(1) flush_inv_init [OF assms(2)]])
  obtain ms where IH: "flush_sends nk opts n ds = ms @ flush_sends nk opts (fs_next s) (fs_todo s)"
    "fs_events s = map Send ms @ (if fs_keysToGo s = 0 then [Close, Callback [Null]] else [])" using step.IH by blast
  from step.hyps(2) show ?case
  proof (cases rule: flush_step.cases)
    case (send d ds o1 m)
    moreover have "fs_keysToGo s \<noteq> 0" using inv send(2) by (simp add: flush_inv_def)
    ultimately show ?thesis using IH by (intro exI [of _ "ms @ [m]"]) simp
  next
    case (refused d ds o1)
    moreover have "fs_keysToGo s \<noteq> 0" using inv refused(2) by (simp add: flush_inv_def)
    ultimately show ?thesis using IH by (intro exI [of _ ms]) (simp add: count_down_def)
  next
    case (reply k)
    then have "fs_keysToGo s \<noteq> 0" using inv by (auto simp: flush_inv_def card_gt_0_iff)
    then show ?thesis using IH by (intro exI [of _ ms]) (simp add: reply count_down_def)
  qed
qed

text \<open>
  C7. Flushing at least one address, where no command throws, looks the same from outside for all orders of the
  replies, addresses that are refused included: at the end of every run the events are those of the loop of
  the model, which takes the replies in the order of the messages; and these are the messages of the addresses
  that were not refused, the close and one answer.
\<close>

theorem flush_order_irrelevant:
  assumes "ds \<noteq> []" "\<forall>d \<in> set ds. deletable nk opts d"
    and "flush_run nk opts (flush_init ds n) t" "\<nexists>u. flush_step nk opts t u"
  shows "flush_loop nk opts n ds (length ds) = (fs_events t, Return ()) \<and>
    fs_events t = map Send (flush_sends nk opts n ds) @ [Close, Callback [Null]]"
proof -
  obtain ms where e: "flush_sends nk opts n ds = ms @ flush_sends nk opts (fs_next t) (fs_todo t)"
    "fs_events t = map Send ms @ (if fs_keysToGo t = 0 then [Close, Callback [Null]] else [])"
    using flush_events [OF assms(3,1)] by blast
  have inv: "flush_inv t" by (rule flush_inv_run [OF assms(3) flush_inv_init [OF assms(1)]])
  have "\<forall>d \<in> set (fs_todo t). deletable nk opts d" using flush_todo_run [OF assms(3)] assms(2) by (auto simp: flush_init_def)
  from flush_progress [OF inv this assms(4)] have "fs_todo t = []" "fs_keysToGo t = 0" using inv by (simp_all add: flush_inv_def)
  with e show ?thesis using flush_loop_events [OF assms(2) order_refl] assms(1) by simp
qed

lemma flush_order_irrelevant_witness:
  "\<exists>t. flush_run flush_netkit example_opts (flush_init [example_data, wrong_data, example_data] 2) t \<and>
    flush_loop flush_netkit example_opts 2 [example_data, wrong_data, example_data] 3 = (fs_events t, Return ()) \<and>
    fs_events t = [Send [example_message], Send [example_message], Close, Callback [Null]]"
proof -
  let ?ds = "[example_data, wrong_data, example_data]"
  have d: "\<forall>d \<in> set ?ds. deletable flush_netkit example_opts d" by (simp add: example_deletable)
  obtain t where t: "flush_run flush_netkit example_opts (flush_init ?ds 2) t" "\<nexists>u. flush_step flush_netkit example_opts t u"
    using flush_continues [OF flush_inv_init [of ?ds 2]] by blast
  have "flush_sends flush_netkit example_opts 2 ?ds = [[example_message], [example_message]]"
    by (simp add: example_delete_opts wrong_delete_opts example_sent example_refused)
  moreover have "flush_loop flush_netkit example_opts 2 ?ds (length ?ds) = (fs_events t, Return ()) \<and>
      fs_events t = map Send (flush_sends flush_netkit example_opts 2 ?ds) @ [Close, Callback [Null]]"
    by (rule flush_order_irrelevant [OF _ d t]) simp
  ultimately show ?thesis using t(1) by (intro exI [of _ t]) (simp add: numeral_3_eq_3 del: flush_loop.simps flush_sends.simps)
qed

end
