(* ===== verification/IpReport.thy ===== *)
theory IpReport
  imports IpCommand
begin

text \<open>
  An inquiry from end to end: the messages of the kernel through the packing, the framing, the attribute
  walk, the link handler and the filters to the objects the caller gets.
\<close>

text \<open>A message of the kernel about a link with a name, a hardware address and flags.\<close>

definition link_message :: "string \<times> bytes \<times> int \<Rightarrow> bytes \<Rightarrow> bool" where
  "link_message d m \<longleftrightarrow>
     (case d of (ifname, mac, if_flags) \<Rightarrow>
        0 \<le> if_flags \<and> if_flags < 2 ^ 32 \<and> list_all (\<lambda>c. of_char c < (128 :: nat)) ifname \<and> length ifname < 1000 \<and> length mac < 1000 \<and>
        (\<exists>h f s p fam pad ty ind chg payload.
           is_hdr h \<and> meta_get h ''_type'' = Num 16 \<and> meta_get h ''_flags'' = Num f \<and> meta_get h ''_seq'' = Num s \<and> meta_get h ''_pid'' = Num p \<and>
           pack ifinfomsg_fmt (map Num [fam, pad, ty, ind, if_flags, chg]) = Return (Some payload) \<and>
           frame_message h [Some payload, Some (rtattr_enc (3, bytes_of_string ifname @ [0])), Some (rtattr_enc (1, mac))] = Return m))"

lemma link_message_parsed:
  assumes "link_message d m"
  shows "returns (parseRtattributes (Buf m))"
    "parseAttributes nb filters links (Buf m) = Return (apply_filters filters (link_data nb d))"
proof -
  obtain ifname mac fl where d: "d = (ifname, mac, fl)" by (cases d)
  obtain h f s p fam pad ty ind chg payload where
    h: "is_hdr h" "meta_get h ''_type'' = Num 16" "meta_get h ''_flags'' = Num f" "meta_get h ''_seq'' = Num s" "meta_get h ''_pid'' = Num p"
    and m: "pack ifinfomsg_fmt (map Num [fam, pad, ty, ind, fl, chg]) = Return (Some payload)"
      "frame_message h [Some payload, Some (rtattr_enc (3, bytes_of_string ifname @ [0])), Some (rtattr_enc (1, mac))] = Return m"
    and b: "0 \<le> fl" "fl < 2 ^ 32" "list_all (\<lambda>c. of_char c < (128 :: nat)) ifname" "length ifname < 1000" "length mac < 1000"
    using assms unfolding link_message_def d prod.case by blast
  from newLink_parsed [OF h b, of fam pad ty ind chg nb links] m
  show "returns (parseRtattributes (Buf m))"
    "parseAttributes nb filters links (Buf m) = Return (apply_filters filters (link_data nb d))"
    unfolding d by auto
qed

lemma link_messages_parsed:
  assumes "list_all2 link_message ls ms"
  shows "\<exists>links. parse_links ms = Return links"
    "parse_bufs nk filters links ms = Return (filter (\<lambda>d. d \<noteq> Undef) (map (\<lambda>l. apply_filters filters (link_data (nk_native nk) l)) ls))"
proof -
  show "\<exists>links. parse_links ms = Return links"
    using assms
  proof (induction rule: list_all2_induct)
    case (Cons l ls m ms)
    then show ?case using link_message_parsed(1) [OF Cons(1)] by (auto simp: parse_links_def returns_iff)
  qed (simp add: parse_links_def)
  have "run_map (\<lambda>b. parseAttributes (nk_native nk) filters links (Buf b)) ms =
    Return (map (\<lambda>l. apply_filters filters (link_data (nk_native nk) l)) ls)"
    using assms by (induction rule: list_all2_induct) (simp_all add: link_message_parsed(2))
  then show "parse_bufs nk filters links ms = Return (filter (\<lambda>d. d \<noteq> Undef) (map (\<lambda>l. apply_filters filters (link_data (nk_native nk) l)) ls))"
    by (simp add: parse_bufs_def)
qed

text \<open>
  C9. Asking for the links: one dump on a fresh socket, which is closed, and then the caller gets, in the
  order of the messages of the kernel, the name, the index, the hardware address and the flags of every
  link that passes the filter.
\<close>

theorem getLinks_reports:
  assumes "\<not> truthy (nk_create nk [])" "nk_reply nk 0 [dump_message RTM_GETLINK] = (e, ms)" "\<not> truthy e"
    and "list_all2 link_message ls ms"
  shows "getLinks nk filter_spec =
    ([Create [], Send [dump_message RTM_GETLINK], Close,
      Callback [Null, Arr (filter (\<lambda>d. d \<noteq> Undef)
        (map (\<lambda>l. apply_filters (if filter_spec \<noteq> Null then filter_spec else Obj []) (link_data (nk_native nk) l)) ls))]], Return ())"
proof -
  obtain links where "parse_links ms = Return links" using link_messages_parsed(1) [OF assms(4)] by blast
  then show ?thesis using assms(1-3) link_messages_parsed(2) [OF assms(4), of nk _ Null]
    by (intro prod_eqI) (simp_all add: getLinks_def sendInquiry_def getlink_command user_callback_def Let_def)
qed

lemma getLinks_reports_witness:
  "\<exists>m. getLinks (quiet_netkit\<lparr>nk_reply := \<lambda>n r. (Null, [m])\<rparr>) Null =
    ([Create [], Send [dump_message RTM_GETLINK], Close,
      Callback [Null, Arr [link_data (nk_native quiet_netkit) (''eth0'', [0, 26, 43, 255, 16, 9], 0x1003)]]], Return ())"
proof -
  obtain h0 where h0: "is_hdr h0" "meta_get h0 ''_flags'' = Num NLM_F_REQUEST" "meta_get h0 ''_seq'' = Num 0" "meta_get h0 ''_pid'' = Num 0"
    using buildHdr_value by blast
  let ?h = "meta_set ''_type'' (Num 16) h0"
  have h: "is_hdr ?h" "meta_get ?h ''_type'' = Num 16" "meta_get ?h ''_flags'' = Num NLM_F_REQUEST" "meta_get ?h ''_seq'' = Num 0"
    "meta_get ?h ''_pid'' = Num 0" using h0 by (simp_all add: is_hdr_set)
  obtain payload m where m: "pack ifinfomsg_fmt (map Num [0, 0, 1, 3, 0x1003, 0]) = Return (Some payload)"
    "frame_message ?h [Some payload, Some (rtattr_enc (3, bytes_of_string ''eth0'' @ [0])), Some (rtattr_enc (1, [0, 26, 43, 255, 16, 9]))] = Return m"
    using newLink_parsed [OF h, of "0x1003" "''eth0''" "[0, 26, 43, 255, 16, 9]" 0 0 1 3 0 "nk_native quiet_netkit" Null] by auto
  have "link_message (''eth0'', [0, 26, 43, 255, 16, 9], 0x1003) m"
    unfolding link_message_def prod.case using h m by (intro conjI exI) simp_all
  moreover have "apply_filters (Obj []) (link_data nb l) = link_data nb l" "link_data nb l \<noteq> Undef" for nb l
    by (auto simp: apply_filters_def link_data_def filter_props_def Let_def split: prod.splits)
  ultimately show ?thesis
    using getLinks_reports [of "quiet_netkit\<lparr>nk_reply := \<lambda>n r. (Null, [m])\<rparr>" Null "[m]" "[(''eth0'', [0, 26, 43, 255, 16, 9], 0x1003)]" Null]
    by (intro exI [of _ m]) simp
qed

end
