(* ===== verification/IpObjects.thy ===== *)
theory IpObjects
  imports IpParse
begin

text \<open>
  Messages about addresses and neighbours from end to end: from the framed message of the kernel to the object
  \<open>parseAttributes\<close> of \<open>ip/ipparse.js\<close> reports.
\<close>

section \<open>Interfaces\<close>

text \<open>
  The links the caller asked for before, as far as they are looked at: the index and the name of each.
\<close>

definition is_link :: "int \<times> string \<Rightarrow> jsval \<Rightarrow> bool" where
  "is_link e l \<longleftrightarrow>
     (\<exists>ps pl. l = Obj ps \<and> obj_get ps ''payload'' = Obj pl \<and> obj_get pl ''_if_index'' = Num (fst e) \<and>
        obj_get ps ''ifname'' = Str (snd e))"

lemma find_link_known:
  assumes "list_all2 is_link tab ls" "map_of tab index = Some nm" "index \<noteq> 0"
  shows "\<exists>l. find_link ls (Num index) = Return l \<and> get_prop l ''ifname'' = Return (Str nm)"
  using assms(1,2)
proof (induction rule: list_all2_induct)
  case (Cons e tab l ls)
  then obtain ps pl where l: "l = Obj ps" "obj_get ps ''payload'' = Obj pl" "obj_get pl ''_if_index'' = Num (fst e)"
    "obj_get ps ''ifname'' = Str (snd e)" by (auto simp: is_link_def)
  have "find_link (l # ls) (Num index) = (if fst e = index then Return l else find_link ls (Num index))"
    unfolding find_link.simps l get_prop.simps run_bind.simps using assms(3) by simp
  with Cons l show ?case by (cases e) (auto split: if_splits)
qed simp

text \<open>The names of bits, lowest first.\<close>

definition bit_names :: "(nat \<times> string) list \<Rightarrow> int \<Rightarrow> string" where
  "bit_names tab f = join_with '','' (map snd (filter (\<lambda>(i, nm). bit f i) tab))"

lemma getFlags_bit_names:
  assumes "flags = map (\<lambda>(i, nm). (2 ^ i, nm)) tab" "list_all (\<lambda>(i, nm). i < 31 \<and> nm \<noteq> []) tab"
  shows "getFlags flags (Num f) = bit_names tab f"
proof -
  have "[] \<notin> snd ` set flags" using assms by (auto simp: list_all_iff)
  moreover have "map snd (filter (\<lambda>(k, nm). js_and f k \<noteq> 0) flags) = map snd (filter (\<lambda>(i, nm). bit f i) tab)"
    using assms(2) unfolding assms(1)
    by (induction tab) (use js_and_pow2 [of _ f] in auto)
  ultimately show ?thesis by (simp add: getFlags_def num_or_0_def flags_loop_join bit_names_def)
qed

text \<open>Every message type that has its payload size right is parsed to its attributes and its payload.\<close>

lemma parse_message:
  assumes "t \<in> {16, 17, 18, 20, 21, 22, 24, 25, 26, 28}" "rt_family t = Some (keys, fmt)"
    "is_hdr h" "meta_get h ''_type'' = Num t" "meta_get h ''_flags'' = Num f" "meta_get h ''_seq'' = Num s" "meta_get h ''_pid'' = Num p"
    "count_sum (scan_fmt fmt) = length vs" "list_all rtattr_ok as" "length (concat (map rtattr_enc as)) < 100000"
    "attrs = obj_set ''operation'' (getRtmTypeName t)
        (obj_set ''payload'' (unpack_result (map fe_key (scan_fmt fmt)) (map Num (norm_elems (scan_fmt fmt) vs)))
          (fold (rt_upd keys) as []))"
  shows "\<exists>payload m. pack fmt (map Num vs) = Return (Some payload) \<and>
    frame_message h (Some payload # map (\<lambda>a. Some (rtattr_enc a)) as) = Return m \<and> parseRtattributes (Buf m) = Return attrs"
  unfolding assms(11) by (rule parse_framed [OF assms(1-9)]) (use assms(10) in simp)

lemma parseAttributes_eq:
  assumes "parseRtattributes buf = Return attrs" "obj_get attrs ''operation'' = Str op1" "handler (''packageInfo'' @ drop 3 op1) = Some hd1"
    "hd1 nb attrs links = Return v"
  shows "parseAttributes nb filters links buf = Return (apply_filters filters v)"
  using assms by (simp add: parseAttributes_def)

lemma rtattr_enc_length: "length (rtattr_enc (t, d)) \<le> length d + 8"
  by (simp add: rtattr_enc_def pad4_def)

section \<open>Addresses\<close>

definition scope_names :: "(int \<times> string) list" where
  "scope_names = [(0, ''global''), (200, ''local''), (253, ''link''), (254, ''host''), (255, ''nowhere'')]"

text \<open>The object that is reported for an address.\<close>

definition address_object :: "string \<Rightarrow> string \<Rightarrow> int \<Rightarrow> string \<Rightarrow> int \<Rightarrow> int \<Rightarrow> int \<Rightarrow> string option \<Rightarrow> jsval" where
  "address_object op1 ifname index addr plen fam scope label =
     Obj [(''ifname'', Str ifname), (''ifnum'', Num index),
          (''event'', Obj
             ([(''name'', Str op1), (''address'', Str (addr @ ''/'' @ show_int plen)),
               (''family'', Str (if fam = 2 then ''inet'' else ''inet6'')),
               (''scope'', case map_of scope_names scope of Some s \<Rightarrow> Str s | None \<Rightarrow> Num scope)]
              @ (case label of Some l \<Rightarrow> [(''label'', Str l)] | None \<Rightarrow> [])))]"

text \<open>
  C31. A message about a new or a deleted address, with the address and, for IPv4, the label (with its NUL) as
  attributes, becomes the event with the name of the interface that has the index of the message among the
  links, the text the addon makes of the bytes of the address, the length of the prefix, the family and the
  name of the scope, and passes the filters or not.
\<close>

theorem address_event:
  assumes "(t, op1) \<in> {(20, ''newAddress''), (21, ''delAddress'')}"
    and "is_hdr h" "meta_get h ''_type'' = Num t" "meta_get h ''_flags'' = Num f" "meta_get h ''_seq'' = Num s" "meta_get h ''_pid'' = Num p"
    and "fam \<in> {2, 10}" "0 \<le> plen" "plen < 256" "0 \<le> scope" "scope < 256" "0 < index" "index < 2 ^ 31"
    and "length addr < 1000" "fromAddress nb (Arr (map (\<lambda>x. Num (uint x)) addr)) (Num fam) = Obj ans" "obj_get ans ''address'' = Str text1" "obj_get ans ''family'' = Num fam"
    and "list_all2 is_link tab ls" "map_of tab index = Some ifname"
    and "case label of Some l \<Rightarrow> l \<noteq> [] \<and> length l < 1000 \<and> list_all (\<lambda>c. of_char c < (128 :: nat)) l | None \<Rightarrow> True"
  shows "\<exists>payload m. pack ifaddrmsg_fmt (map Num [fam, plen, fl, scope, index]) = Return (Some payload) \<and>
    frame_message h (Some payload # Some (rtattr_enc (1, addr)) #
      (case label of Some l \<Rightarrow> [Some (rtattr_enc (3, bytes_of_string l @ [0]))] | None \<Rightarrow> [])) = Return m \<and>
    (\<forall>filters. parseAttributes nb filters (Arr ls) (Buf m) =
       Return (apply_filters filters (address_object op1 ifname index text1 plen fam scope label)))"
proof -
  let ?as = "(1, addr) # (case label of Some l \<Rightarrow> [(3, bytes_of_string l @ [0])] | None \<Rightarrow> [])"
  let ?vs = "[fam, plen, fl, scope, index]"
  define attrs where "attrs = obj_set ''operation'' (getRtmTypeName t)
        (obj_set ''payload'' (unpack_result (map fe_key (scan_fmt ifaddrmsg_fmt)) (map Num (norm_elems (scan_fmt ifaddrmsg_fmt) ?vs)))
          (fold (rt_upd addr_info_attr_name_map) ?as []))"
  have t: "t = 20 \<and> op1 = ''newAddress'' \<or> t = 21 \<and> op1 = ''delAddress''" using assms(1) by simp
  have ok: "list_all rtattr_ok ?as" using assms(14,20) by (auto simp: rtattr_ok_def split: option.splits)
  have len: "length (concat (map rtattr_enc ?as)) < 100000"
    using rtattr_enc_length [of 1 addr] rtattr_enc_length [of 3 "bytes_of_string (the label) @ [0]"] assms(14,20)
    by (auto split: option.splits)
  obtain payload m where pm: "pack ifaddrmsg_fmt (map Num ?vs) = Return (Some payload)"
    "frame_message h (Some payload # map (\<lambda>a. Some (rtattr_enc a)) ?as) = Return m" "parseRtattributes (Buf m) = Return attrs"
    using parse_message [of t addr_info_attr_name_map ifaddrmsg_fmt h f s p ?vs ?as, OF _ _ assms(2-6) _ ok len attrs_def] t
    by (auto simp: rt_family_def scan_ifaddrmsg)
  have keys: "addr_info_attr_name_map ! Suc 0 = ''address''" "addr_info_attr_name_map ! 3 = ''label''"
    "length addr_info_attr_name_map = 9" "is_text_key ''label''" "\<not> is_text_key ''address''"
    "getRtmTypeName 20 = Str ''newAddress''" "getRtmTypeName 21 = Str ''delAddress''"
    by code_simp+
  have fields: "obj_get attrs ''operation'' = Str op1" "obj_get attrs ''address'' = Buf addr"
    "obj_get attrs ''label'' = (case label of Some l \<Rightarrow> Str l | None \<Rightarrow> Undef)"
    using t assms(20) by (auto simp: attrs_def keys rt_upd_def ascii_bytes_of_string split: option.splits)
  have clamp: "clamp_el (unsigned_el (Suc 0)) fam = fam" "clamp_el (unsigned_el (Suc 0)) plen = plen"
    "clamp_el (unsigned_el (Suc 0)) scope = scope" "clamp_el (unsigned_el 4) index = index"
    using assms(7-13) by (auto intro!: clamp_el_id simp: unsigned_el_def)
  have pl: "payload_prop attrs ''_family'' = Return (Num fam)" "payload_prop attrs ''_index'' = Return (Num index)"
    "payload_prop attrs ''_prefix_len'' = Return (Num plen)" "payload_prop attrs ''_scope'' = Return (Num scope)"
    by (simp_all add: payload_prop_def attrs_def unpack_result_def scan_ifaddrmsg clamp)
  obtain l where l: "find_link ls (Num index) = Return l" "get_prop l ''ifname'' = Return (Str ifname)"
    using find_link_known [OF assms(18,19)] assms(12) by auto
  have scope: "getScope (Num scope) = (case map_of scope_names scope of Some s \<Rightarrow> Str s | None \<Rightarrow> Num scope)"
    by (simp add: getScope_def lookup_num_def scope_names_def)
  have fam: "getFamily (Num fam) = Str (if fam = 2 then ''inet'' else ''inet6'')" by (simp add: getFamily_def loose_eq_num_def)
  have h1: "handler (''packageInfo'' @ drop 3 op1) = Some packageInfoAddress" using t by (auto simp: handler_def)
  have "packageInfoAddress nb attrs (Arr ls) = Return (address_object op1 ifname index text1 plen fam scope label)"
    using assms(20) by (cases label)
      (simp_all add: packageInfoAddress_def fields attr_array_Buf pl assms(15-17) getLinkFromIndex_def l scope fam Let_def address_object_def)
  from parseAttributes_eq [OF pm(3) fields(1) h1 this] pm(1,2) show ?thesis by (cases label) auto
qed

lemma address_event_witness:
  "\<exists>m. parseAttributes \<lparr>fromAddress = \<lambda>a f. Obj [(''address'', Str ''10.0.0.7''), (''family'', f)], toAddress = \<lambda>a f. Undef, ifNameToIndex = \<lambda>s. Undef\<rparr>
      Undef (Arr [Obj [(''payload'', Obj [(''_if_index'', Num 1)]), (''ifname'', Str ''lo'')],
                  Obj [(''payload'', Obj [(''_if_index'', Num 2)]), (''ifname'', Str ''eth0'')]]) (Buf m) =
    Return (Obj [(''ifname'', Str ''eth0''), (''ifnum'', Num 2),
      (''event'', Obj [(''name'', Str ''newAddress''), (''address'', Str ''10.0.0.7/24''), (''family'', Str ''inet''),
                       (''scope'', Str ''link''), (''label'', Str ''eth0:1'')])])"
proof -
  obtain h where h: "is_hdr h" "meta_get h ''_flags'' = Num NLM_F_REQUEST" "meta_get h ''_seq'' = Num 0" "meta_get h ''_pid'' = Num 0"
    using buildHdr_value by blast
  let ?nb = "\<lparr>fromAddress = \<lambda>a f. Obj [(''address'', Str ''10.0.0.7''), (''family'', f)], toAddress = \<lambda>a f. Undef, ifNameToIndex = \<lambda>s. Undef\<rparr>"
  let ?ls = "[Obj [(''payload'', Obj [(''_if_index'', Num 1)]), (''ifname'', Str ''lo'')],
              Obj [(''payload'', Obj [(''_if_index'', Num 2)]), (''ifname'', Str ''eth0'')]]"
  obtain m where "parseAttributes ?nb Undef (Arr ?ls) (Buf m) =
      Return (apply_filters Undef (address_object ''newAddress'' ''eth0'' 2 ''10.0.0.7'' 24 2 253 (Some ''eth0:1'')))"
    using address_event [of 20 "''newAddress''" "meta_set ''_type'' (Num 20) h" NLM_F_REQUEST 0 0 2 24 253 2 "[10, 0, 0, 7]" ?nb
        "[(''address'', Str ''10.0.0.7''), (''family'', Num 2)]" "''10.0.0.7''" "[(1, ''lo''), (2, ''eth0'')]" ?ls "''eth0''"
        "Some ''eth0:1''" 0] h
    by (auto simp: is_hdr_set is_link_def)
  moreover have "show_int 24 = ''24''" by code_simp
  ultimately show ?thesis by (intro exI [of _ m]) (simp add: apply_filters_def address_object_def scope_names_def)
qed

section \<open>Neighbours\<close>

definition neigh_state_names :: "(nat \<times> string) list" where
  "neigh_state_names =
     [(0, ''incomplete''), (1, ''reachable''), (2, ''stale''), (3, ''delay''), (4, ''probe''), (5, ''failed''), (6, ''noarp''),
      (7, ''permanent'')]"

definition neigh_flag_names :: "(nat \<times> string) list" where
  "neigh_flag_names = [(0, ''use''), (1, ''self''), (2, ''master''), (3, ''proxy''), (7, ''router'')]"

lemma neigh_names:
  "getFlags neigh_states (Num f) = bit_names neigh_state_names f" "getFlags neigh_flags (Num f) = bit_names neigh_flag_names f"
  by (rule getFlags_bit_names; simp add: neigh_states_def neigh_state_names_def neigh_flags_def neigh_flag_names_def)+

lemma noarp_iff: "bit_names neigh_state_names st = ''noarp'' \<longleftrightarrow> st mod 256 = 64"
proof -
  have "bit (st mod 256) i \<longleftrightarrow> bit st i" if "i < 8" for i
    using that bit_take_bit_iff [of 8 st i] by (simp add: take_bit_eq_mod)
  then have "bit_names neigh_state_names st = bit_names neigh_state_names (st mod 256)"
    by (simp add: bit_names_def neigh_state_names_def)
  moreover have "list_all (\<lambda>k. bit_names neigh_state_names (int k) = ''noarp'' \<longleftrightarrow> k = 64) [0..<256]" by code_simp
  then have "bit_names neigh_state_names (int (nat (st mod 256))) = ''noarp'' \<longleftrightarrow> nat (st mod 256) = 64"
    unfolding list_all_iff by (rule bspec) (simp add: nat_less_iff)
  ultimately show ?thesis by auto
qed

definition neighbor_object :: "string \<Rightarrow> int \<Rightarrow> string \<Rightarrow> bytes \<Rightarrow> int \<Rightarrow> int \<Rightarrow> jsval" where
  "neighbor_object ifname index addr mac st flags =
     Obj [(''ifname'', Str ifname), (''ifnum'', Num index),
          (''event'', Obj
             ([(''destination'', Str addr), (''lladdr'', Str (mac_text mac)), (''state'', Str (bit_names neigh_state_names st))]
              @ (if flags \<noteq> 0 then [(''flags'', Str (bit_names neigh_flag_names flags))] else [])))]"

text \<open>
  C32. A message about a new neighbour becomes the event with the name of its interface, the text the addon
  makes of its address, the printed hardware address and the names of the bits of its state and its flags; but
  when the state is \<open>noarp\<close> alone, it is passed over.
\<close>

theorem neighbor_event:
  assumes "is_hdr h" "meta_get h ''_type'' = Num 28" "meta_get h ''_flags'' = Num f" "meta_get h ''_seq'' = Num s" "meta_get h ''_pid'' = Num p"
    and "fam \<in> {2, 10}" "0 < index" "index < 2 ^ 31" "0 \<le> st" "st < 2 ^ 16" "0 \<le> flags" "flags < 256"
    and "length addr < 1000" "length mac < 1000"
    and "fromAddress nb (Arr (map (\<lambda>x. Num (uint x)) addr)) (Num fam) = Obj ans" "obj_get ans ''address'' = Str text1"
    and "list_all2 is_link tab ls" "map_of tab index = Some ifname"
  shows "\<exists>payload m. pack ndmsg_fmt (map Num [fam, pad1, pad2, index, st, flags, ty]) = Return (Some payload) \<and>
    frame_message h [Some payload, Some (rtattr_enc (1, addr)), Some (rtattr_enc (2, mac))] = Return m \<and>
    (\<forall>filters. parseAttributes nb filters (Arr ls) (Buf m) =
       Return (if st mod 256 = 64 then Undef else apply_filters filters (neighbor_object ifname index text1 mac st flags)))"
proof -
  let ?as = "[(1, addr), (2, mac)]" and ?vs = "[fam, pad1, pad2, index, st, flags, ty]"
  define attrs where "attrs = obj_set ''operation'' (getRtmTypeName 28)
        (obj_set ''payload'' (unpack_result (map fe_key (scan_fmt ndmsg_fmt)) (map Num (norm_elems (scan_fmt ndmsg_fmt) ?vs)))
          (fold (rt_upd neigh_info_attr_name_map) ?as []))"
  have ok: "list_all rtattr_ok ?as" using assms(13,14) by (simp add: rtattr_ok_def)
  have len: "length (concat (map rtattr_enc ?as)) < 100000"
    using rtattr_enc_length [of 1 addr] rtattr_enc_length [of 2 mac] assms(13,14) by simp
  obtain payload m where pm: "pack ndmsg_fmt (map Num ?vs) = Return (Some payload)"
    "frame_message h (Some payload # map (\<lambda>a. Some (rtattr_enc a)) ?as) = Return m" "parseRtattributes (Buf m) = Return attrs"
    using parse_message [of 28 neigh_info_attr_name_map ndmsg_fmt h f s p ?vs ?as, OF _ _ assms(1-5) _ ok len attrs_def]
    by (auto simp: rt_family_def scan_ndmsg)
  have keys: "neigh_info_attr_name_map ! Suc 0 = ''dst''" "neigh_info_attr_name_map ! 2 = ''lladdr''"
    "length neigh_info_attr_name_map = 10" "\<not> is_text_key ''dst''" "\<not> is_text_key ''lladdr''" "getRtmTypeName 28 = Str ''newNeighbor''"
    by code_simp+
  have fields: "obj_get attrs ''operation'' = Str ''newNeighbor''" "obj_get attrs ''dst'' = Buf addr" "obj_get attrs ''lladdr'' = Buf mac"
    by (simp_all add: attrs_def keys rt_upd_def)
  have clamp: "clamp_el (unsigned_el (Suc 0)) fam = fam" "clamp_el (unsigned_el 4) index = index"
    "clamp_el (unsigned_el 2) st = st" "clamp_el (unsigned_el (Suc 0)) flags = flags"
    using assms(6-12) by (auto intro!: clamp_el_id simp: unsigned_el_def)
  have pl: "payload_prop attrs ''_family'' = Return (Num fam)" "payload_prop attrs ''_ifindex'' = Return (Num index)"
    "payload_prop attrs ''_state'' = Return (Num st)" "payload_prop attrs ''_flags'' = Return (Num flags)"
    by (simp_all add: payload_prop_def attrs_def unpack_result_def scan_ndmsg clamp)
  obtain l where l: "find_link ls (Num index) = Return l" "get_prop l ''ifname'' = Return (Str ifname)"
    using find_link_known [OF assms(17,18)] assms(7) by auto
  have h1: "handler (''packageInfo'' @ drop 3 ''newNeighbor'') = Some packageInfoNeighbor" by (simp add: handler_def)
  have "packageInfoNeighbor nb attrs (Arr ls) =
      Return (if st mod 256 = 64 then Undef else neighbor_object ifname index text1 mac st flags)"
    by (simp add: packageInfoNeighbor_def fields attr_array_Buf address_of_def pl assms(15,16) getLinkFromIndex_def l Let_def
        neigh_names noarp_iff getBufferAsHexAddr_text neighbor_object_def)
  from parseAttributes_eq [OF pm(3) fields(1) h1 this] pm(1,2) show ?thesis by (auto simp: apply_filters_def)
qed

lemma neighbor_event_witness:
  "\<exists>m. parseAttributes \<lparr>fromAddress = \<lambda>a f. Obj [(''address'', Str ''10.0.0.9''), (''family'', f)], toAddress = \<lambda>a f. Undef, ifNameToIndex = \<lambda>s. Undef\<rparr>
      Undef (Arr [Obj [(''payload'', Obj [(''_if_index'', Num 2)]), (''ifname'', Str ''eth0'')]]) (Buf m) =
    Return (Obj [(''ifname'', Str ''eth0''), (''ifnum'', Num 2),
      (''event'', Obj [(''destination'', Str ''10.0.0.9''), (''lladdr'', Str (mac_text [2, 0, 0, 0, 0, 1])),
                       (''state'', Str ''reachable,permanent''), (''flags'', Str ''router'')])])"
proof -
  obtain h where h: "is_hdr h" "meta_get h ''_flags'' = Num NLM_F_REQUEST" "meta_get h ''_seq'' = Num 0" "meta_get h ''_pid'' = Num 0"
    using buildHdr_value by blast
  let ?nb = "\<lparr>fromAddress = \<lambda>a f. Obj [(''address'', Str ''10.0.0.9''), (''family'', f)], toAddress = \<lambda>a f. Undef, ifNameToIndex = \<lambda>s. Undef\<rparr>"
  let ?ls = "[Obj [(''payload'', Obj [(''_if_index'', Num 2)]), (''ifname'', Str ''eth0'')]]"
  obtain m where "parseAttributes ?nb Undef (Arr ?ls) (Buf m) =
      Return (apply_filters Undef (neighbor_object ''eth0'' 2 ''10.0.0.9'' [2, 0, 0, 0, 0, 1] 130 128))"
    using neighbor_event [of "meta_set ''_type'' (Num 28) h" NLM_F_REQUEST 0 0 2 2 130 128 "[10, 0, 0, 9]" "[2, 0, 0, 0, 0, 1]" ?nb
        "[(''address'', Str ''10.0.0.9''), (''family'', Num 2)]" "''10.0.0.9''" "[(2, ''eth0'')]" ?ls "''eth0''" 0 0 0] h
    by (auto simp: is_hdr_set is_link_def)
  moreover have "bit_names neigh_state_names 130 = ''reachable,permanent''" "bit_names neigh_flag_names 128 = ''router''"
    by code_simp+
  ultimately show ?thesis by (intro exI [of _ m]) (simp add: apply_filters_def neighbor_object_def)
qed

end
