(* ===== verification/IpRoute.thy ===== *)
theory IpRoute
  imports IpNeighbor
begin

text \<open>\<open>ip/route.js\<close>: the routing table.\<close>

section \<open>netlinkRouteCommand\<close>

definition route_info :: "props \<Rightarrow> (meta \<times> meta) run" where
  "route_info opts =
     run_bind buildHdr (\<lambda>h0.
       let h1 = meta_set ''_type'' (rtc ''RTM_GETLINK'') (meta_set ''_flags'' (Num NLM_F_REQUEST) h0) in
     run_bind buildRtmsg (\<lambda>r0.
     run_bind (or_opt opts ''flags'' ''_flags'' (set_opt opts ''type'' ''_type'' h1)) (\<lambda>h2.
     run_bind (or_opt opts ''family'' ''_family'' r0) (\<lambda>r1.
       Return (set_opt opts ''family'' ''family'' h2,
         meta_set ''_flags'' (Num 0x80000000) (meta_set ''_type'' (Num 1) (meta_set ''_scope'' (Num 0)
           (meta_set ''_protocol'' (Num 0x03) (meta_set ''_table'' (Num 0xFE) (meta_set ''_tos'' (Num 0)
             (meta_set ''_src_len'' (Num 0) (meta_set ''_dst_len'' (Num 0) r1))))))))))))"

text \<open>The variable \<open>family\<close> keeps its initial value, so every address is converted as one of IPv4.\<close>

definition route_family :: int where
  "route_family = (let family = ''inet'' in if family = ''inet'' then AF_INET else AF_INET6)"

text \<open>One of the options \<open>inetdest\<close>, \<open>inetsrc\<close> and \<open>gateway\<close>, if it is there.\<close>

definition route_address ::
  "netkit \<Rightarrow> props \<Rightarrow> string \<Rightarrow> string \<Rightarrow> bytes option list \<Rightarrow> (jsval \<Rightarrow> unit act) \<Rightarrow> (bytes option list \<Rightarrow> unit act) \<Rightarrow> unit act" where
  "route_address nk opts k attr bufs failed next_step =
     (if has_own opts k then
        (case resolve nk (obj_get opts k) route_family of
           Inl err \<Rightarrow> failed err
         | Inr addr \<Rightarrow>
             act_bind (act_run (address_attribute (map_of route_attributes attr) addr)) (\<lambda>a. next_step (bufs @ [a])))
      else next_step bufs)"

definition netlinkRouteCommand :: "netkit \<Rightarrow> nat \<Rightarrow> props \<Rightarrow> (jsval \<Rightarrow> bytes list \<Rightarrow> unit act) \<Rightarrow> unit act" where
  "netlinkRouteCommand nk n opts cb =
     (let ifndex = (if has_own opts ''ifname'' then ifNameToIndex (nk_native nk) (obj_get opts ''ifname'') else Undef) in
      if is_error ifndex then cb ifndex []
      else
        act_bind (act_run (route_info opts)) (\<lambda>(nl_hdr, rt_msg).
        act_bind (act_run (meta_pack rt_msg)) (\<lambda>b.
          route_address nk opts ''inetdest'' ''RTA_DST'' [b] (\<lambda>err. cb err []) (\<lambda>bufs1.
          route_address nk opts ''inetsrc'' ''RTA_SRC'' bufs1 (\<lambda>err. cb err []) (\<lambda>bufs2.
          route_address nk opts ''gateway'' ''RTA_GATEWAY'' bufs2 (\<lambda>err. cb err []) (\<lambda>bufs3.
            nl_send nk n nl_hdr bufs3 cb))))))"

section \<open>route\<close>

definition route_opts :: "jsval \<Rightarrow> int \<Rightarrow> jsval \<Rightarrow> jsval \<Rightarrow> jsval \<Rightarrow> operation_kind" where
  "route_opts operation family ifname inetdest inetsrc =
     (let opts = (\<lambda>type flags. Command
            ([(''type'', rtc type), (''flags'', Num flags), (''family'', Num family)] @
             (if inetsrc = Null \<and> inetdest \<noteq> Null then [(''gateway'', inetdest)]
              else [(''inetdest'', inetdest), (''inetsrc'', inetsrc)]) @ [(''ifname'', ifname)]))
      in
      if \<not> truthy operation \<or> operation = Str ''show'' then
        Inquiry [(''type'', rtc ''RTM_GETROUTE''), (''flags'', Num dump_flags)]
      else if operation = Str ''add'' then
        opts ''RTM_NEWROUTE'' (js_or (js_or (js_or NLM_F_REQUEST NLM_F_CREATE) NLM_F_EXCL) NLM_F_ACK)
      else if operation = Str ''change'' then
        opts ''RTM_NEWROUTE'' (js_or (js_or NLM_F_REQUEST NLM_F_REPLACE) NLM_F_ACK)
      else if operation = Str ''replace'' then
        opts ''RTM_NEWROUTE'' (js_or (js_or (js_or NLM_F_REQUEST NLM_F_CREATE) NLM_F_REPLACE) NLM_F_ACK)
      else if operation = Str ''delete'' then
        opts ''RTM_DELROUTE'' (js_or NLM_F_REQUEST NLM_F_ACK)
      else Unsupported)"

definition route :: "netkit \<Rightarrow> jsval \<Rightarrow> jsval \<Rightarrow> jsval \<Rightarrow> jsval \<Rightarrow> unit act" where
  "route nk operation ifname inetdest inetsrc =
     act_bind (act_run (dest_family inetdest)) (\<lambda>f.
       case f of
         Inl err \<Rightarrow> user_callback [err]
       | Inr family \<Rightarrow>
           (case route_opts operation family ifname inetdest inetsrc of
              Inquiry opts \<Rightarrow> sendInquiry nk Null (Some opts) user_callback
            | Command opts \<Rightarrow> run_command netlinkRouteCommand nk opts
            | Refused args \<Rightarrow> user_callback args
            | Unsupported \<Rightarrow> act_return ()))"

section \<open>Answers\<close>

lemma hands_over_route_address:
  "(\<And>err. hands_over cb (failed err)) \<Longrightarrow> (\<And>bufs. hands_over cb (next_step bufs)) \<Longrightarrow>
    hands_over cb (route_address nk opts k attr bufs failed next_step)"
  by (auto simp: route_address_def intro!: hands_over_run_bind split: sum.split)

interpretation route_command: handing_over netlinkRouteCommand
  by unfold_locales
    (auto simp: netlinkRouteCommand_def Let_def intro!: hands_over_route_address hands_over_intros split: prod.split)

lemma neighbor_answers:
  assumes "\<And>family. neighbor_opts operation family ifname inetdest lladdr \<noteq> Unsupported"
  shows "counts is_callback 1 (neighbor nk operation ifname inetdest lladdr)"
  using assms inquiry_answers neigh.run_command_answers
  by (auto simp: neighbor_def split: sum.splits operation_kind.splits)

lemma route_answers:
  assumes "\<And>family. route_opts operation family ifname inetdest inetsrc \<noteq> Unsupported"
  shows "counts is_callback 1 (route nk operation ifname inetdest inetsrc)"
  using assms inquiry_answers route_command.run_command_answers
  by (auto simp: route_def split: sum.splits operation_kind.splits)

text \<open>
  C11. Every supported operation on links, neighbours and routes, whatever the other arguments and the
  answers of the socket and the addon are, calls its caller back exactly once when it runs to its end.
\<close>

theorem commands_answer_once:
  "(\<forall>op \<in> {Undef, Null, Str ''show'', Str ''up'', Str ''down'', Str ''set''}. counts is_callback 1 (link nk op ifname attrs)) \<and>
   (\<forall>op \<in> {Undef, Null, Str ''show'', Str ''add'', Str ''change'', Str ''replace'', Str ''delete''}.
      counts is_callback 1 (neighbor nk op ifname inetdest lladdr) \<and> counts is_callback 1 (route nk op ifname inetdest inetsrc))"
proof (intro conjI ballI)
  fix op
  assume "op \<in> {Undef, Null, Str ''show'', Str ''up'', Str ''down'', Str ''set''}"
  then show "counts is_callback 1 (link nk op ifname attrs)"
    by (intro link_answers) (auto simp: link_opts_def Let_def split: option.splits jsval.splits)
next
  fix op
  assume op: "op \<in> {Undef, Null, Str ''show'', Str ''add'', Str ''change'', Str ''replace'', Str ''delete''}"
  show "counts is_callback 1 (neighbor nk op ifname inetdest lladdr)"
    by (intro neighbor_answers) (use op in \<open>auto simp: neighbor_opts_def Let_def\<close>)
  show "counts is_callback 1 (route nk op ifname inetdest inetsrc)"
    by (intro route_answers) (use op in \<open>auto simp: route_opts_def Let_def\<close>)
qed

lemma commands_answer_once_witness:
  "counts is_callback 1 (route quiet_netkit (Str ''add'') (Str ''eth0'') (Str ''10.0.0.1'') Null) \<and>
   length (filter is_callback (fst (link quiet_netkit (Str ''set'') (Str ''eth0'') None))) = 1"
proof -
  have "counts is_callback 1 (route quiet_netkit (Str ''add'') (Str ''eth0'') (Str ''10.0.0.1'') Null)"
    "counts is_callback 1 (link quiet_netkit (Str ''set'') (Str ''eth0'') None)"
    using commands_answer_once [of quiet_netkit "Str ''eth0''" None "Str ''10.0.0.1''" Undef Null] by simp_all
  moreover have "snd (link quiet_netkit (Str ''set'') (Str ''eth0'') None) = Return ()"
    by (simp add: link_def link_opts_def Let_def user_callback_def)
  ultimately show ?thesis by (simp add: counts_def)
qed

section \<open>Requests\<close>

definition rtmsg_bytes :: "int \<Rightarrow> bytes" where
  "rtmsg_bytes family = le_bytes 1 (clamp_el (unsigned_el 1) family) @ [0, 0, 0, 0xFE, 3, 0, 1, 0, 0, 0, 0x80]"

lemma length_rtmsg_bytes [simp]: "length (rtmsg_bytes f) = 12"
  by (simp add: rtmsg_bytes_def)

lemma buildRtmsg_value:
  "\<exists>r. buildRtmsg = Return r \<and> m_format r = rtmsg_fmt \<and> m_keylist r = [''_family'', ''_dst_len'', ''_src_len'', ''_tos'',
      ''_table'', ''_protocol'', ''_scope'', ''_type'', ''_flags''] \<and> meta_get r ''_family'' = Num 0"
  by (simp add: buildRtmsg_def metaObject_def scan_rtmsg calcLength_def toValArray_def map_filter_def zero_fields_def)

lemma route_info_value:
  assumes "obj_get opts ''type'' = Num t" "obj_get opts ''flags'' = Num f" "obj_get opts ''family'' = Num a"
    "has_own opts ''type''" "has_own opts ''flags''" "has_own opts ''family''"
  shows "\<exists>h i. route_info opts = Return (h, i) \<and> is_hdr h \<and> meta_get h ''_type'' = Num t \<and>
    meta_get h ''_flags'' = Num (js_or NLM_F_REQUEST f) \<and> meta_get h ''_seq'' = Num 0 \<and> meta_get h ''_pid'' = Num 0 \<and>
    meta_pack i = Return (Some (rtmsg_bytes (js_or 0 a)))"
proof -
  obtain h where h: "buildHdr = Return h" "is_hdr h" "meta_get h ''_seq'' = Num 0" "meta_get h ''_pid'' = Num 0"
    using buildHdr_value by blast
  obtain r where r: "buildRtmsg = Return r" "m_format r = rtmsg_fmt" "m_keylist r = [''_family'', ''_dst_len'', ''_src_len'', ''_tos'',
      ''_table'', ''_protocol'', ''_scope'', ''_type'', ''_flags'']" "meta_get r ''_family'' = Num 0"
    using buildRtmsg_value by blast
  let ?h = "meta_set ''family'' (Num a) (meta_set ''_flags'' (Num (js_or NLM_F_REQUEST f)) (meta_set ''_type'' (Num t)
      (meta_set ''_type'' (Num 18) (meta_set ''_flags'' (Num NLM_F_REQUEST) h))))"
  let ?r = "meta_set ''_flags'' (Num 0x80000000) (meta_set ''_type'' (Num 1) (meta_set ''_scope'' (Num 0)
           (meta_set ''_protocol'' (Num 0x03) (meta_set ''_table'' (Num 0xFE) (meta_set ''_tos'' (Num 0)
             (meta_set ''_src_len'' (Num 0) (meta_set ''_dst_len'' (Num 0) (meta_set ''_family'' (Num (js_or 0 a)) r))))))))"
  have c: "rtc ''RTM_GETLINK'' = Num 18" by code_simp
  have "route_info opts = Return (?h, ?r)"
    using assms by (simp add: route_info_def h(1) r(1,4) Let_def set_opt_def or_opt_def or_field_def bit_operand_def c)
  moreover have "meta_pack ?r = Return (Some (rtmsg_bytes (js_or 0 a)))"
  proof -
    have z: "word_of_int (clamp_el (unsigned_el (Suc 0)) 0) = (0 :: byte)" "word_of_int (clamp_el (unsigned_el (Suc 0)) 254) = (254 :: byte)"
      "word_of_int (clamp_el (unsigned_el (Suc 0)) 3) = (3 :: byte)" "word_of_int (clamp_el (unsigned_el (Suc 0)) 1) = (1 :: byte)"
      "le_bytes 4 (clamp_el (unsigned_el 4) 0x80000000) = [0, 0, 0, 0x80]" by code_simp+
    have "all_nums ?r" by (simp add: all_nums_def num_of_def r)
    then have "meta_pack ?r = Return (Some (enc_elems (fmt_be (m_format ?r)) (scan_fmt (m_format ?r)) (meta_nums ?r)))"
      by (rule meta_pack_nums) (simp_all add: r scan_rtmsg)
    then show ?thesis by (simp add: r meta_nums_def num_of_def scan_rtmsg rtmsg_bytes_def z)
  qed
  moreover have "is_hdr ?h" using h by (simp add: is_hdr_set)
  ultimately show ?thesis using h by - (rule exI [of _ ?h], rule exI [of _ ?r], simp)
qed

text \<open>The operations and their message types and flags.\<close>

definition route_operations :: "(string \<times> int \<times> int) list" where
  "route_operations = [(''add'', 24, 0x605), (''change'', 24, 0x105), (''replace'', 24, 0x505), (''delete'', 25, 5)]"

lemma route_opts_operations:
  assumes "(op, t, f) \<in> set route_operations" "dest \<noteq> Null"
  shows "route_opts (Str op) family ifname dest Null =
    Command [(''type'', Num t), (''flags'', Num f), (''family'', Num family), (''gateway'', dest), (''ifname'', ifname)]"
proof -
  have c: "rtc ''RTM_NEWROUTE'' = Num 24" "rtc ''RTM_DELROUTE'' = Num 25"
    "js_or (js_or (js_or NLM_F_REQUEST NLM_F_CREATE) NLM_F_EXCL) NLM_F_ACK = 0x605"
    "js_or (js_or NLM_F_REQUEST NLM_F_REPLACE) NLM_F_ACK = 0x105"
    "js_or (js_or (js_or NLM_F_REQUEST NLM_F_CREATE) NLM_F_REPLACE) NLM_F_ACK = 0x505"
    "js_or NLM_F_REQUEST NLM_F_ACK = 5" by code_simp+
  from assms show ?thesis by (auto simp: route_operations_def route_opts_def Let_def c)
qed

text \<open>
  C17. Changing the default route: without a source the destination is the gateway of a route to everywhere
  in the main table. One message with the number and the flags of the operation, the family of the text,
  the fixed fields of the route and the gateway as its only attribute, without the interface, though its
  name was resolved. The gateway is always converted as an IPv4 address: what the addon refuses as such,
  every IPv6 address among it, is not sent at all.
\<close>

theorem route_gateway_requests:
  fixes nk s
  defines "ans \<equiv> toAddress (nk_native nk) (Str s) (Num AF_INET)"
  assumes "(op, t, f) \<in> set route_operations" "\<not> is_error (ifNameToIndex (nk_native nk) ifname)" "\<not> truthy (nk_create nk [])"
    "isaddress s = Str (if v6 then ''inet6'' else ''inet'')" "length b < 65532"
    "is_error ans \<or> get_prop ans ''bytes'' = Return (Buf b)"
    "msg = hdr_bytes (28 + int (length (rtattr_enc (5, b)))) t f 0 0 @ rtmsg_bytes (if v6 then 10 else 2) @ rtattr_enc (5, b)"
  shows "route nk (Str op) ifname (Str s) Null =
    (if is_error ans then ([Create [], Callback [ans], Close], Return ())
     else ([Create [], Send [msg], Callback (kernel_answer nk msg), Close], Return ()))"
proof -
  define opts where "opts = [(''type'', Num t), (''flags'', Num f), (''family'', Num (if v6 then 10 else 2)), (''gateway'', Str s),
    (''ifname'', ifname)]"
  have o: "has_own opts k = (k \<in> {''type'', ''flags'', ''family'', ''gateway'', ''ifname''})" for k
    by (auto simp: has_own_def opts_def)
  have g: "obj_get opts ''gateway'' = Str s" "obj_get opts ''ifname'' = ifname" "route_family = AF_INET"
    by (simp_all add: opts_def route_family_def)
  have f: "js_or NLM_F_REQUEST f = f"
  proof -
    have "list_all (\<lambda>(op, t, f). js_or NLM_F_REQUEST f = f) route_operations" by code_simp
    then show ?thesis using assms(2) by (auto simp: list_all_iff)
  qed
  have j: "js_or 0 (if v6 then 10 else 2) = (if v6 then 10 else 2)"
  proof -
    have "js_or 0 10 = 10" "js_or 0 2 = 2" by code_simp+
    then show ?thesis by simp
  qed
  obtain h i where hi: "route_info opts = Return (h, i)" "is_hdr h" "meta_get h ''_type'' = Num t" "meta_get h ''_flags'' = Num f"
    "meta_get h ''_seq'' = Num 0" "meta_get h ''_pid'' = Num 0" "meta_pack i = Return (Some (rtmsg_bytes (if v6 then 10 else 2)))"
    using route_info_value [of opts t f "if v6 then 10 else 2"] o f j by (auto simp: opts_def)
  have n: "map_of route_attributes ''RTA_GATEWAY'' = Some (int 5)" by code_simp
  have m: "msg = hdr_bytes (16 + int (length (concat [rtmsg_bytes (if v6 then 10 else 2), rtattr_enc (5, b)]))) t f 0 0 @
      concat [rtmsg_bytes (if v6 then 10 else 2), rtattr_enc (5, b)]"
    using assms(8) by (simp add: algebra_simps)
  have refused: "netlinkRouteCommand nk 0 opts cb = cb ans []" if "is_error ans" for cb
    using that hi(7) assms(3)
    by (simp add: netlinkRouteCommand_def Let_def o g hi(1) route_address_def resolve_def ans_def [symmetric])
  have sent: "netlinkRouteCommand nk 0 opts cb =
      act_seq (emit (Send [msg])) (let (err, bufs) = nk_reply nk 0 [msg] in if truthy err then cb err [] else cb err bufs)"
    if ok: "\<not> is_error ans" for cb
  proof -
    have "address_attribute (Some (int 5)) ans = Return (Some (rtattr_enc (5, b)))"
      using ok assms(6,7) by (intro address_attribute_value) auto
    then have "netlinkRouteCommand nk 0 opts cb = nl_send nk 0 h (map Some [rtmsg_bytes (if v6 then 10 else 2), rtattr_enc (5, b)]) cb"
      using ok hi(7) assms(3)
      by (simp add: netlinkRouteCommand_def Let_def o g hi(1) route_address_def resolve_def n ans_def [symmetric])
    then show ?thesis by (simp only: nl_send_framed [OF hi(2-6) m])
  qed
  have "route nk (Str op) ifname (Str s) Null = run_command netlinkRouteCommand nk opts"
    by (simp add: route_def dest_family_text [OF assms(5)] route_opts_operations [OF assms(2)] opts_def)
  then show ?thesis
    using run_command_refused [of nk netlinkRouteCommand opts ans] run_command_sent [of nk netlinkRouteCommand opts msg]
      assms(4) refused sent truthy_error [of ans] by auto
qed

definition gateway_netkit :: netkit where
  "gateway_netkit = quiet_netkit\<lparr>nk_native := (nk_native quiet_netkit)\<lparr>toAddress := \<lambda>a f. Obj [(''bytes'', Buf [10, 0, 0, 1])]\<rparr>\<rparr>"

lemma route_gateway_requests_witness:
  "route gateway_netkit (Str ''add'') (Str ''eth0'') (Str ''10.0.0.1'') Null =
    ([Create [], Send [hdr_bytes 36 24 0x605 0 0 @ rtmsg_bytes 2 @ [8, 0, 5, 0, 10, 0, 0, 1]], Callback [], Close], Return ())"
proof -
  have m: "(''add'', 24, 0x605) \<in> set route_operations" by (simp add: route_operations_def)
  have a: "isaddress ''10.0.0.1'' = Str (if False then ''inet6'' else ''inet'')" by code_simp
  have r: "rtattr_enc (5, [10, 0, 0, 1]) = [8, 0, 5, 0, 10, 0, 0, 1]" by code_simp
  show ?thesis
    using route_gateway_requests [OF m, of gateway_netkit "Str ''eth0''" "''10.0.0.1''" False "[10, 0, 0, 1]" _] a
    by (simp add: is_error_def gateway_netkit_def kernel_answer_def r)
qed

end
