(* ===== verification/IpEvents.thy ===== *)
theory IpEvents
  imports IpCommand
begin

text \<open>\<open>ip/netevent.js\<close>: subscribing to changes of links, addresses, routes and neighbours.\<close>

section \<open>Subscriptions\<close>

definition group_bits :: "string list \<Rightarrow> int" where
  "group_bits names = (case names of [] \<Rightarrow> 0 | g # gs \<Rightarrow> foldl (\<lambda>acc g. js_or acc (make_group (rtc g))) (make_group (rtc g)) gs)"

definition event_groups :: "jsval \<Rightarrow> string list option" where
  "event_groups event_type =
     (if \<not> truthy event_type \<or> event_type = Str ''all'' then
        Some [''RTNLGRP_LINK'', ''RTN_GRP_IPV4_IFADDR'', ''RTN_GRP_IPV6_IFADDR'', ''RTNLGRP_IPV6_PREFIX'',
              ''RTNLGRP_IPV4_ROUTE'', ''RTN_GRP_IPV6_ROUTE'', ''RTNLGRP_IPV4_MROUTE'', ''RTNLGRP_IPV6_MROUTE'',
              ''RTN_GRP_NEIGH'', ''RTNLGRP_IPV4_NETCONF'', ''RTNLGRP_IPV6_NETCONF'']
      else if event_type = Str ''link'' then Some [''RTNLGRP_IPV4_LINK'']
      else if event_type = Str ''address'' then Some [''RTN_GRP_IPV4_IFADDR'', ''RTN_GRP_IPV6_IFADDR'']
      else if event_type = Str ''route'' then Some [''RTNLGRP_IPV4_ROUTE'', ''RTN_GRP_IPV6_ROUTE'']
      else if event_type = Str ''neigh'' then Some [''RTN_GRP_NEIGH'', ''RTNLGRP_IPV4_NETCONF'', ''RTNLGRP_IPV6_NETCONF'']
      else None)"

section \<open>onNetworkChange\<close>

text \<open>
  What the handler given to \<open>onRecv\<close> does with one message; \<open>recvs\<close> are the messages that arrive.
\<close>

definition on_event :: "netkit \<Rightarrow> jsval \<Rightarrow> jsval list \<Rightarrow> jsval \<times> bytes list \<Rightarrow> unit act" where
  "on_event nk ifname links r =
     (if truthy (fst r) then user_callback [fst r, Null]
      else
        let filters = Obj (if truthy ifname then [(''ifname'', ifname)] else []) in
        act_bind (act_run (parseAttributes (nk_native nk) filters (Arr links)
            (case snd r of [] \<Rightarrow> Undef | b # bs \<Rightarrow> Buf b))) (\<lambda>mObject.
          if mObject \<noteq> Undef then user_callback [Null, mObject] else act_return ()))"

fun on_events :: "netkit \<Rightarrow> jsval \<Rightarrow> jsval list \<Rightarrow> (jsval \<times> bytes list) list \<Rightarrow> unit act" where
  "on_events nk ifname links [] = act_return ()"
| "on_events nk ifname links (r # rs) = act_seq (on_event nk ifname links r) (on_events nk ifname links rs)"

definition onNetworkChange :: "netkit \<Rightarrow> jsval \<Rightarrow> jsval \<Rightarrow> (jsval \<times> bytes list) list \<Rightarrow> unit act" where
  "onNetworkChange nk ifname event_type recvs =
     (case event_groups event_type of
        None \<Rightarrow> act_return ()
      | Some gs \<Rightarrow>
          (let sock_opts = [(''subscriptions'', Num (group_bits gs))]; err = nk_create nk sock_opts in
           act_seq (emit (Create sock_opts))
          (act_seq (if truthy err then user_callback [err] else act_return ())
            (netlinkInfoCommand nk 0 getlink_command_opts (\<lambda>err bufs.
               if truthy err then user_callback [err, Null]
               else act_bind (act_run (parse_links bufs)) (\<lambda>links. on_events nk ifname links recvs))))))"

section \<open>Which groups are subscribed\<close>

lemma rtc_groups:
  "rtc ''RTN_GRP_IPV4_IFADDR'' = Num 5" "rtc ''RTN_GRP_IPV6_IFADDR'' = Num 9" "rtc ''RTN_GRP_IPV6_ROUTE'' = Num 11"
  "rtc ''RTN_GRP_NEIGH'' = Num 3" "rtc ''RTNLGRP_LINK'' = Undef" "rtc ''RTNLGRP_IPV4_LINK'' = Undef" "rtc ''RTNLGRP_IPV6_PREFIX'' = Undef"
  "rtc ''RTNLGRP_IPV4_ROUTE'' = Undef" "rtc ''RTNLGRP_IPV4_MROUTE'' = Undef" "rtc ''RTNLGRP_IPV6_MROUTE'' = Undef"
  "rtc ''RTNLGRP_IPV4_NETCONF'' = Undef" "rtc ''RTNLGRP_IPV6_NETCONF'' = Undef"
  by (simp_all add: rtc_def obj_get_def rt_consts_def rt_device_consts_def rt_route_consts_def rt_group_consts_def rt_message_consts_def)

lemma group_bits_values:
  "group_bits [''RTNLGRP_IPV4_LINK''] = 1" "group_bits [''RTN_GRP_IPV4_IFADDR'', ''RTN_GRP_IPV6_IFADDR''] = 272"
  "group_bits [''RTNLGRP_IPV4_ROUTE'', ''RTN_GRP_IPV6_ROUTE''] = 1025"
  "group_bits [''RTN_GRP_NEIGH'', ''RTNLGRP_IPV4_NETCONF'', ''RTNLGRP_IPV6_NETCONF''] = 5"
  "group_bits [''RTNLGRP_LINK'', ''RTN_GRP_IPV4_IFADDR'', ''RTN_GRP_IPV6_IFADDR'', ''RTNLGRP_IPV6_PREFIX'',
      ''RTNLGRP_IPV4_ROUTE'', ''RTN_GRP_IPV6_ROUTE'', ''RTNLGRP_IPV4_MROUTE'', ''RTNLGRP_IPV6_MROUTE'',
      ''RTN_GRP_NEIGH'', ''RTNLGRP_IPV4_NETCONF'', ''RTNLGRP_IPV6_NETCONF''] = 1301"
  by (simp only: group_bits_def list.case foldl_Cons foldl_Nil rtc_groups, code_simp)+

text \<open>The kinds of event and the bits of the groups they subscribe to.\<close>

definition subscriptions :: "(jsval \<times> int) list" where
  "subscriptions =
     [(Undef, 1301), (Str ''all'', 1301), (Str ''link'', 1), (Str ''address'', 272), (Str ''route'', 1025), (Str ''neigh'', 5)]"

lemma subscribed_groups: "(event_type, n) \<in> set subscriptions \<Longrightarrow> \<exists>gs. event_groups event_type = Some gs \<and> group_bits gs = n"
  unfolding subscriptions_def by (auto simp: event_groups_def group_bits_values)

text \<open>
  What the caller gets of one delivery: an error, or the event of the first message if it passes the filter. Other
  messages of the same delivery are dropped.
\<close>

definition reported :: "netkit \<Rightarrow> jsval \<Rightarrow> jsval list \<Rightarrow> jsval \<times> bytes list \<Rightarrow> jsval list list \<Rightarrow> bool" where
  "reported nk ifname links r calls \<longleftrightarrow>
     (case r of
        (err, bufs) \<Rightarrow>
          if truthy err then calls = [[err, Null]]
          else if bufs = [] then calls = []
          else
            \<exists>ev. parseAttributes (nk_native nk) (Obj (if truthy ifname then [(''ifname'', ifname)] else [])) (Arr links) (Buf (hd bufs)) = Return ev \<and>
              calls = (if ev = Undef then [] else [[Null, ev]]))"

lemma on_event_reported: "reported nk ifname links r calls \<Longrightarrow> on_event nk ifname links r = (map Callback calls, Return ())"
  by (cases r; cases "snd r")
    (auto simp: reported_def on_event_def Let_def user_callback_def act_return_def emit_def parseAttributes_def [of _ _ _ Undef]
      parseRtattributes_def [of Undef] is_buf_def buf_of_def split: if_splits)

lemma on_events_reported:
  "list_all2 (reported nk ifname links) recvs callss \<Longrightarrow> on_events nk ifname links recvs = (map Callback (concat callss), Return ())"
proof (induction rule: list_all2_induct)
  case (Cons r rs c cs)
  then show ?case by (simp add: on_event_reported act_seq_def act_bind_def)
qed (simp add: act_return_def)

text \<open>
  C18. Watching the network: the socket is created with the bits of the groups, the links are asked for, and
  then the caller gets, in the order of the deliveries, the errors and the event of the first message of every
  other delivery, if it passes the filter, as long as no message makes the parser throw or hang. Further
  messages in one delivery are dropped. None of the names with the prefix \<open>RTNLGRP\<close> is a constant of \<open>rt\<close>,
  and \<open>make_group\<close> of \<open>undefined\<close> is 1: so changes of IPv4 routes (64), of prefixes and of multicast routes are
  never subscribed to, and changes of links (1) come with everything but \<open>address\<close>.
\<close>

theorem network_changes:
  assumes "(event_type, n) \<in> set subscriptions" "\<not> truthy (nk_create nk [(''subscriptions'', Num n)])"
    and "nk_reply nk 0 [dump_message RTM_GETLINK] = (e0, bufs)" "\<not> truthy e0" "parse_links bufs = Return links"
    and "list_all2 (reported nk ifname links) recvs callss"
  shows "onNetworkChange nk ifname event_type recvs =
    ([Create [(''subscriptions'', Num n)], Send [dump_message RTM_GETLINK]] @ map Callback (concat callss), Return ())"
proof -
  obtain gs where "event_groups event_type = Some gs" "group_bits gs = n" using subscribed_groups [OF assms(1)] by blast
  then show ?thesis using assms(2-5) on_events_reported [OF assms(6)]
    by (intro prod_eqI) (simp_all add: onNetworkChange_def Let_def getlink_command)
qed

lemma network_changes_witness:
  "\<exists>m1 m2. onNetworkChange quiet_netkit (Str ''eth0'') (Str ''link'')
      [(Null, [m1, m2]), (ErrorObj ''overrun'', []), (Null, [m2]), (Null, [[1, 2, 3]])] =
    ([Create [(''subscriptions'', Num 1)], Send [dump_message RTM_GETLINK],
      Callback [Null, link_data (nk_native quiet_netkit) (''eth0'', [0, 26, 43, 255, 16, 9], 3)],
      Callback [ErrorObj ''overrun'', Null]], Return ())"
proof -
  obtain h where h: "is_hdr h" "meta_get h ''_flags'' = Num NLM_F_REQUEST" "meta_get h ''_seq'' = Num 0" "meta_get h ''_pid'' = Num 0"
    using buildHdr_value by blast
  let ?h = "meta_set ''_type'' (Num 16) h" and ?mac = "[0, 26, 43, 255, 16, 9]" and ?filter = "Obj [(''ifname'', Str ''eth0'')]"
  have h: "is_hdr ?h" "meta_get ?h ''_type'' = Num 16" "meta_get ?h ''_flags'' = Num NLM_F_REQUEST" "meta_get ?h ''_seq'' = Num 0"
    "meta_get ?h ''_pid'' = Num 0" using h by (simp_all add: is_hdr_set)
  have msg: "\<exists>m. parseAttributes (nk_native quiet_netkit) ?filter (Arr []) (Buf m) =
      Return (apply_filters ?filter (link_data (nk_native quiet_netkit) (nm, ?mac, 3)))"
    if "list_all (\<lambda>c. of_char c < (128 :: nat)) nm" "length nm < 1000" for nm
    using newLink_parsed [OF h, of 3 nm ?mac 0 0 1 3 0 "nk_native quiet_netkit" "Arr []"] that by auto
  obtain m1 m2 where m: "parseAttributes (nk_native quiet_netkit) ?filter (Arr []) (Buf m1) = Return (link_data (nk_native quiet_netkit) (''eth0'', ?mac, 3))"
    "parseAttributes (nk_native quiet_netkit) ?filter (Arr []) (Buf m2) = Return Undef"
    using msg [of "''eth0''"] msg [of "''lo''"]
    by (auto simp: apply_filters_def link_data_def filter_props_def obj_props_def Let_def)
  have "parseAttributes (nk_native quiet_netkit) ?filter (Arr []) (Buf [1, 2, 3]) = Return Undef"
    by (simp add: parseAttributes_def parseRtattributes_def buf_of_def)
  moreover have "link_data nb d \<noteq> Undef" for nb d by (cases d) (simp add: link_data_def)
  ultimately have "list_all2 (reported quiet_netkit (Str ''eth0'') [])
      [(Null, [m1, m2]), (ErrorObj ''overrun'', []), (Null, [m2]), (Null, [[1, 2, 3]])]
      [[[Null, link_data (nk_native quiet_netkit) (''eth0'', ?mac, 3)]], [[ErrorObj ''overrun'', Null]], [], []]"
    by (simp add: reported_def m)
  from network_changes [of "Str ''link''" 1 quiet_netkit Null "[]" "[]", OF _ _ _ _ _ this]
  show ?thesis by (intro exI [of _ m1] exI [of _ m2]) (simp add: subscriptions_def parse_links_def)
qed

end
