(* ===== verification/Peg.thy ===== *)
theory Peg
  imports JsString "HOL-Library.Char_ord" "HOL-Library.List_Lexorder"
begin

text \<open>
  The run-time part of \<open>nf/node-netfilter.js\<close>, the parser that PEG.js 0.8 generated from the rule
  grammar: position, furthest failure and the syntax error built from it, and the shapes of code the
  generator emits for literals, character classes, sequences, ordered choice, options and repetition.

  A parse function works on the closure variables: the input, which never changes, and a record of those
  that do. It returns \<open>peg$FAILED\<close> (\<open>None\<close>) or a value, or its actions throw.
  Two judgements carry the proofs about the grammar: \<open>peg_spec\<close>, a partial-correctness triple that
  relates the value to the text consumed, with the position invariant and the absence of divergence built
  in; and \<open>peg_yields\<close>, that a given text is consumed and gives a given value.
\<close>

section \<open>State\<close>

record peg_state =
  currPos :: nat
  maxFailPos :: nat
  maxFailExpected :: "string list"
  payload_len :: int

definition peg_init :: peg_state where
  "peg_init = \<lparr>currPos = 0, maxFailPos = 0, maxFailExpected = [], payload_len = 0\<rparr>"

type_synonym 'a peg = "string \<Rightarrow> peg_state \<Rightarrow> ('a option \<times> peg_state) run"

definition quoted :: "string \<Rightarrow> string" where
  "quoted s = CHR 0x22 # s @ [CHR 0x22]"

definition peg_fail :: "string \<Rightarrow> peg_state \<Rightarrow> peg_state" where
  "peg_fail expected st =
     (if currPos st < maxFailPos st then st
      else
        let st' = (if currPos st > maxFailPos st
                   then st\<lparr>maxFailPos := currPos st, maxFailExpected := []\<rparr> else st)
        in st'\<lparr>maxFailExpected := maxFailExpected st' @ [expected]\<rparr>)"

section \<open>Generated code\<close>

definition peg_literal :: "string \<Rightarrow> string peg" where
  "peg_literal s inp st =
     (if take (length s) (drop (currPos st) inp) = s
      then Return (Some s, st\<lparr>currPos := currPos st + length s\<rparr>)
      else Return (None, peg_fail (quoted s) st))"

definition peg_class :: "(char \<Rightarrow> bool) \<Rightarrow> string \<Rightarrow> char peg" where
  "peg_class P description inp st =
     (if currPos st < length inp \<and> P (inp ! currPos st)
      then Return (Some (inp ! currPos st), st\<lparr>currPos := currPos st + 1\<rparr>)
      else Return (None, peg_fail description st))"

text \<open>A sequence goes back to its start when one of its parts fails.\<close>

definition peg_bind :: "'a peg \<Rightarrow> ('a \<Rightarrow> 'b peg) \<Rightarrow> 'b peg" where
  "peg_bind p f inp st =
     run_bind (p inp st) (\<lambda>(r, st').
       case r of
         None \<Rightarrow> Return (None, st'\<lparr>currPos := currPos st\<rparr>)
       | Some x \<Rightarrow>
           run_bind (f x inp st') (\<lambda>(r', st'').
             case r' of
               None \<Rightarrow> Return (None, st''\<lparr>currPos := currPos st\<rparr>)
             | Some y \<Rightarrow> Return (Some y, st'')))"

text \<open>The action at the end of a sequence; it may throw, and may assign \<open>payload_len\<close>.\<close>

definition peg_return :: "'a \<Rightarrow> 'a peg" where
  "peg_return x inp st = Return (Some x, st)"

definition peg_run :: "'a run \<Rightarrow> 'a peg" where
  "peg_run r inp st = run_bind r (\<lambda>x. Return (Some x, st))"

definition peg_set_payload_len :: "int \<Rightarrow> 'a \<Rightarrow> 'a peg" where
  "peg_set_payload_len n x inp st = Return (Some x, st\<lparr>payload_len := n\<rparr>)"

definition peg_with_payload_len :: "(int \<Rightarrow> 'a) \<Rightarrow> 'a peg" where
  "peg_with_payload_len f inp st = Return (Some (f (payload_len st)), st)"

definition peg_alt :: "'a peg \<Rightarrow> 'a peg \<Rightarrow> 'a peg" where
  "peg_alt p q inp st =
     run_bind (p inp st) (\<lambda>(r, st'). case r of None \<Rightarrow> q inp st' | Some x \<Rightarrow> Return (Some x, st'))"

text \<open>\<open>p?\<close>: failure becomes \<open>null\<close>, here \<open>Some None\<close>.\<close>

definition peg_opt :: "'a peg \<Rightarrow> 'a option peg" where
  "peg_opt p inp st = run_bind (p inp st) (\<lambda>(r, st'). Return (Some r, st'))"

text \<open>
  \<open>while (s !== peg$FAILED) { a.push(s); s = p(); }\<close>. Each turn of a loop that goes on consumes input, so
  one turn more than there are characters left is never reached (\<open>peg_spec_many\<close>).
\<close>

fun peg_many :: "nat \<Rightarrow> 'a peg \<Rightarrow> 'a list peg" where
  "peg_many 0 p inp st = Diverge"
| "peg_many (Suc n) p inp st =
     run_bind (p inp st) (\<lambda>(r, st').
       case r of
         None \<Rightarrow> Return (Some [], st')
       | Some x \<Rightarrow> run_bind (peg_many n p inp st') (\<lambda>(xs, st''). Return (map_option ((#) x) xs, st'')))"

definition peg_star :: "'a peg \<Rightarrow> 'a list peg" where
  "peg_star p inp st = peg_many (Suc (length inp - currPos st)) p inp st"

definition peg_plus :: "'a peg \<Rightarrow> 'a list peg" where
  "peg_plus p inp st =
     run_bind (peg_star p inp st) (\<lambda>(r, st'). Return (if r = Some [] then None else r, st'))"

section \<open>Syntax errors\<close>

text \<open>Line and column of a position: \<open>advance\<close> from the start of the input.\<close>

fun advance :: "string \<Rightarrow> nat \<times> nat \<times> bool \<Rightarrow> nat \<times> nat \<times> bool" where
  "advance [] d = d"
| "advance (ch # cs) (line, column, seenCR) =
     advance cs
       (if ch = CHR ''\<newline>'' then ((if \<not> seenCR then line + 1 else line), 1, False)
        else if ch = CHR 0x0D then (line + 1, 1, True)
        else (line, column + 1, False))"

definition computePosDetails :: "string \<Rightarrow> nat \<Rightarrow> nat \<times> nat" where
  "computePosDetails inp pos = (case advance (take pos inp) (1, 1, False) of (line, column, seenCR) \<Rightarrow> (line, column))"

text \<open>
  \<open>cleanupExpected\<close> sorts by description and removes neighbours that are the same object; each
  description belongs to one object of the parser.
\<close>

definition cleanupExpected :: "string list \<Rightarrow> string list" where
  "cleanupExpected expected = remdups_adj (sort expected)"

definition hex_upper :: "char \<Rightarrow> string" where
  "hex_upper ch = toUpperCase (nat_to_radix 16 (of_char ch))"

definition stringEscape :: "char \<Rightarrow> string" where
  "stringEscape ch =
     (let n = of_char ch :: nat; bs = CHR 0x5C in
      if n = 0x5C then [bs, bs]
      else if n = 0x22 then [bs, CHR 0x22]
      else if n = 8 then [bs, CHR ''b'']
      else if n = 9 then [bs, CHR ''t'']
      else if n = 10 then [bs, CHR ''n'']
      else if n = 12 then [bs, CHR ''f'']
      else if n = 13 then [bs, CHR ''r'']
      else if n \<le> 0x0F then [bs] @ ''x0'' @ hex_upper ch
      else if n \<le> 0x1F \<or> 0x80 \<le> n then [bs] @ ''x'' @ hex_upper ch
      else [ch])"

definition buildMessage :: "string list \<Rightarrow> char option \<Rightarrow> string" where
  "buildMessage expected found =
     (let expectedDesc =
            (if length expected > 1 then join_with '', '' (butlast expected) @ '' or '' @ last expected
             else case expected of [] \<Rightarrow> ''undefined'' | d # ds \<Rightarrow> d);
          foundDesc = (case found of Some ch \<Rightarrow> quoted (stringEscape ch) | None \<Rightarrow> ''end of input'')
      in ''Expected '' @ expectedDesc @ '' but '' @ foundDesc @ '' found.'')"

definition buildException :: "string \<Rightarrow> string list \<Rightarrow> nat \<Rightarrow> js_error" where
  "buildException inp expected pos =
     (let (line, column) = computePosDetails inp pos;
          found = (if pos < length inp then Some (inp ! pos) else None);
          expected' = cleanupExpected expected
      in SyntaxError (buildMessage expected' found) expected' found pos line column)"

text \<open>
  The end of \<open>parse\<close>: the value counts only when the whole input was consumed, otherwise the error is
  about the furthest position where something was expected.
\<close>

definition peg_parse :: "'a peg \<Rightarrow> string \<Rightarrow> 'a run" where
  "peg_parse p inp =
     run_bind (p inp peg_init) (\<lambda>(r, st).
       let st' = (if r \<noteq> None \<and> currPos st < length inp then peg_fail ''end of input'' st else st) in
       case r of
         Some x \<Rightarrow> if currPos st = length inp then Return x
                   else Throw (buildException inp (maxFailExpected st') (maxFailPos st'))
       | None \<Rightarrow> Throw (buildException inp (maxFailExpected st') (maxFailPos st')))"

section \<open>Partial correctness\<close>

definition peg_inv :: "string \<Rightarrow> peg_state \<Rightarrow> bool" where
  "peg_inv inp st \<longleftrightarrow>
     currPos st \<le> length inp \<and> maxFailPos st \<le> length inp \<and> (maxFailPos st > 0 \<longrightarrow> maxFailExpected st \<noteq> [])"

text \<open>
  \<open>peg_post E V inp st r\<close>: the outcome \<open>r\<close> of a parse function started in \<open>st\<close> either consumed a text
  that \<open>V\<close> relates to the value and to what follows, or failed at the position where it started, with something expected
  there or later, or threw one of the errors of \<open>E\<close>.
\<close>

fun peg_post :: "js_error set \<Rightarrow> ('a \<Rightarrow> string \<Rightarrow> string \<Rightarrow> bool) \<Rightarrow> string \<Rightarrow> peg_state \<Rightarrow> ('a option \<times> peg_state) run \<Rightarrow> bool" where
  "peg_post E V inp st (Return (Some x, st')) \<longleftrightarrow>
     peg_inv inp st' \<and> (\<exists>s. drop (currPos st) inp = s @ drop (currPos st') inp \<and>
       currPos st' = currPos st + length s \<and> V x s (drop (currPos st') inp))"
| "peg_post E V inp st (Return (None, st')) \<longleftrightarrow>
     peg_inv inp st' \<and> currPos st' = currPos st \<and> currPos st \<le> maxFailPos st' \<and> maxFailExpected st' \<noteq> []"
| "peg_post E V inp st (Throw e) \<longleftrightarrow> e \<in> E"
| "peg_post E V inp st Diverge \<longleftrightarrow> False"

definition peg_spec :: "js_error set \<Rightarrow> ('a \<Rightarrow> string \<Rightarrow> string \<Rightarrow> bool) \<Rightarrow> 'a peg \<Rightarrow> bool" where
  "peg_spec E V p \<longleftrightarrow> (\<forall>inp st. peg_inv inp st \<longrightarrow> peg_post E V inp st (p inp st))"

named_theorems peg_intros \<open>rules of peg_spec\<close>

lemma peg_specI: "(\<And>inp st. peg_inv inp st \<Longrightarrow> peg_post E V inp st (p inp st)) \<Longrightarrow> peg_spec E V p"
  by (simp add: peg_spec_def)

lemma peg_specD: "peg_spec E V p \<Longrightarrow> peg_inv inp st \<Longrightarrow> peg_post E V inp st (p inp st)"
  by (simp add: peg_spec_def)

lemma peg_post_mono:
  "peg_post E V inp st r \<Longrightarrow> (\<And>x s t. V x s t \<Longrightarrow> W x s t) \<Longrightarrow> peg_post E W inp st r"
  by (induction E V inp st r rule: peg_post.induct) auto

lemma peg_post_elim:
  assumes "peg_post E V inp st r"
  obtains x st' s where "r = Return (Some x, st')" "peg_inv inp st'"
      "drop (currPos st) inp = s @ drop (currPos st') inp" "currPos st' = currPos st + length s" "V x s (drop (currPos st') inp)"
    | st' where "r = Return (None, st')" "peg_inv inp st'" "currPos st' = currPos st"
      "currPos st \<le> maxFailPos st'" "maxFailExpected st' \<noteq> []"
    | e where "r = Throw e" "e \<in> E"
  using assms by (cases "(E, V, inp, st, r)" rule: peg_post.cases) auto

lemma peg_spec_weaken: "peg_spec E V p \<Longrightarrow> (\<And>x s t. V x s t \<Longrightarrow> W x s t) \<Longrightarrow> peg_spec E W p"
  unfolding peg_spec_def using peg_post_mono by blast

lemma peg_fail_post:
  "peg_inv inp st \<Longrightarrow> peg_post E V inp st (Return (None, peg_fail d st))"
  by (auto simp: peg_inv_def peg_fail_def Let_def)

lemma peg_spec_literal [peg_intros]: "(\<And>t. V s s t) \<Longrightarrow> peg_spec E V (peg_literal s)"
proof (rule peg_specI)
  fix inp and st :: peg_state
  assume V: "\<And>t. V s s t" and inv: "peg_inv inp st"
  show "peg_post E V inp st (peg_literal s inp st)"
  proof (cases "take (length s) (drop (currPos st) inp) = s")
    case True
    then have "drop (currPos st) inp = s @ drop (currPos st + length s) inp"
      by (metis append_take_drop_id drop_drop add.commute)
    moreover from True have "currPos st + length s \<le> length inp"
      using inv by (metis add.commute drop_drop length_append length_drop peg_inv_def
          calculation diff_add_inverse2 le_diff_conv2 le_add1)
    ultimately show ?thesis using True V inv
      by (auto simp: peg_literal_def peg_inv_def intro!: exI [of _ s])
  next
    case False
    then show ?thesis using peg_fail_post [OF inv] by (simp add: peg_literal_def)
  qed
qed

lemma peg_spec_class [peg_intros]: "(\<And>c t. P c \<Longrightarrow> V c [c] t) \<Longrightarrow> peg_spec E V (peg_class P d)"
proof (rule peg_specI)
  fix inp and st :: peg_state
  assume V: "\<And>c t. P c \<Longrightarrow> V c [c] t" and inv: "peg_inv inp st"
  show "peg_post E V inp st (peg_class P d inp st)"
  proof (cases "currPos st < length inp \<and> P (inp ! currPos st)")
    case True
    then have "drop (currPos st) inp = [inp ! currPos st] @ drop (currPos st + 1) inp"
      by (simp add: Cons_nth_drop_Suc)
    with True V inv show ?thesis
      by (auto simp: peg_class_def peg_inv_def intro!: exI [of _ "[inp ! currPos st]"])
  next
    case False
    then show ?thesis using peg_fail_post [OF inv] by (auto simp: peg_class_def)
  qed
qed

lemma peg_spec_return [peg_intros]: "(\<And>t. V x [] t) \<Longrightarrow> peg_spec E V (peg_return x)"
  by (auto simp: peg_spec_def peg_return_def)

lemma peg_spec_run [peg_intros]:
  "(\<And>x t. r = Return x \<Longrightarrow> V x [] t) \<Longrightarrow> (\<And>e. r = Throw e \<Longrightarrow> e \<in> E) \<Longrightarrow> r \<noteq> Diverge \<Longrightarrow> peg_spec E V (peg_run r)"
  by (cases r) (auto simp: peg_spec_def peg_run_def)

lemma peg_spec_set_payload_len [peg_intros]: "(\<And>t. V x [] t) \<Longrightarrow> peg_spec E V (peg_set_payload_len n x)"
  by (auto simp: peg_spec_def peg_set_payload_len_def peg_inv_def)

lemma peg_spec_with_payload_len [peg_intros]:
  "(\<And>n t. V (f n) [] t) \<Longrightarrow> peg_spec E V (peg_with_payload_len f)"
  by (auto simp: peg_spec_def peg_with_payload_len_def)

lemma peg_inv_reset: "peg_inv inp st' \<Longrightarrow> n \<le> currPos st' \<Longrightarrow> peg_inv inp (st'\<lparr>currPos := n\<rparr>)"
  by (simp add: peg_inv_def)

lemma peg_spec_bind:
  assumes p: "peg_spec E V p"
    and f: "\<And>x s t. V x s t \<Longrightarrow> peg_spec E (\<lambda>y s' t'. t = s' @ t' \<longrightarrow> W y (s @ s') t') (f x)"
  shows "peg_spec E W (peg_bind p f)"
proof (rule peg_specI)
  fix inp and st :: peg_state
  assume inv: "peg_inv inp st"
  from peg_specD [OF p inv] show "peg_post E W inp st (peg_bind p f inp st)"
  proof (cases rule: peg_post_elim)
    case (1 x st' s)
    from peg_specD [OF f [OF 1(5)] 1(2)] show ?thesis
      by (cases rule: peg_post_elim) (auto simp: peg_bind_def 1 intro: peg_inv_reset)
  qed (auto simp: peg_bind_def intro: peg_inv_reset)
qed

lemma peg_spec_alt:
  assumes p: "peg_spec E V p" and q: "peg_spec E V q"
  shows "peg_spec E V (peg_alt p q)"
proof (rule peg_specI)
  fix inp and st :: peg_state
  assume inv: "peg_inv inp st"
  from peg_specD [OF p inv] show "peg_post E V inp st (peg_alt p q inp st)"
  proof (cases rule: peg_post_elim)
    case (2 st')
    from peg_specD [OF q 2(2)] show ?thesis
      by (cases rule: peg_post_elim) (auto simp: peg_alt_def 2)
  qed (auto simp: peg_alt_def)
qed

lemma peg_spec_opt:
  assumes p: "peg_spec E (\<lambda>x. V (Some x)) p" and N: "\<And>t. V None [] t"
  shows "peg_spec E V (peg_opt p)"
proof (rule peg_specI)
  fix inp and st :: peg_state
  assume inv: "peg_inv inp st"
  from peg_specD [OF p inv] show "peg_post E V inp st (peg_opt p inp st)"
    by (cases rule: peg_post_elim) (auto simp: peg_opt_def N)
qed

text \<open>
  The contract of a rule that is repeated: it consumes something whenever it succeeds. The loop then ends,
  and its values stand for consecutive pieces of the text.
\<close>

fun pieces :: "('a \<Rightarrow> string \<Rightarrow> string \<Rightarrow> bool) \<Rightarrow> 'a list \<Rightarrow> string \<Rightarrow> string \<Rightarrow> bool" where
  "pieces V [] s t \<longleftrightarrow> s = []"
| "pieces V (x # xs) s t \<longleftrightarrow> (\<exists>s1 s2. s = s1 @ s2 \<and> V x s1 (s2 @ t) \<and> pieces V xs s2 t)"

lemma pieces_Cons: "V x s (s' @ t) \<Longrightarrow> pieces V xs s' t \<Longrightarrow> pieces V (x # xs) (s @ s') t"
  by auto

locale consuming_rule =
  fixes E :: "js_error set" and V :: "'a \<Rightarrow> string \<Rightarrow> string \<Rightarrow> bool" and p :: "'a peg"
  assumes spec: "peg_spec E V p" and consumes: "V x s t \<Longrightarrow> s \<noteq> []"
begin

lemma many_post:
  "peg_inv inp st \<Longrightarrow> length inp - currPos st < n \<Longrightarrow>
     peg_post E (pieces V) inp st (peg_many n p inp st) \<and>
     (\<forall>st'. peg_many n p inp st = Return (Some [], st') \<longrightarrow> currPos st \<le> maxFailPos st' \<and> maxFailExpected st' \<noteq> []) \<and>
     (\<forall>st'. peg_many n p inp st \<noteq> Return (None, st'))"
proof (induction n arbitrary: st)
  case (Suc n)
  from peg_specD [OF spec Suc.prems(1)] show ?case
  proof (cases rule: peg_post_elim)
    case (1 x st' s)
    have "s \<noteq> []" using consumes 1 by blast
    moreover have "currPos st' \<le> length inp" using 1(2) by (simp add: peg_inv_def)
    ultimately have "length inp - currPos st' < n"
      using Suc.prems(2) 1(4) by (cases s) auto
    note ih = Suc.IH [OF 1(2) this]
    from ih [THEN conjunct1] show ?thesis
    proof (cases rule: peg_post_elim)
      case (1 xs st'' s')
      then show ?thesis using \<open>V x s (drop (currPos st') inp)\<close> \<open>drop (currPos st) inp = s @ drop (currPos st') inp\<close>
        \<open>p inp st = Return (Some x, st')\<close> \<open>currPos st' = currPos st + length s\<close>
        by (auto simp del: pieces.simps intro!: exI [of _ "s @ s'"] pieces_Cons)
    qed (use ih 1 in auto)
  qed auto
qed simp

lemma star: "peg_spec E (pieces V) (peg_star p)"
  using many_post by (fastforce simp: peg_spec_def peg_star_def intro: peg_post_mono)

lemma plus: "peg_spec E (\<lambda>xs s t. pieces V xs s t \<and> xs \<noteq> []) (peg_plus p)"
proof (rule peg_specI)
  fix inp and st :: peg_state
  assume inv: "peg_inv inp st"
  have *: "length inp - currPos st < Suc (length inp - currPos st)" by simp
  note m = many_post [OF inv *]
  from m [THEN conjunct1] show "peg_post E (\<lambda>xs s t. pieces V xs s t \<and> xs \<noteq> []) inp st (peg_plus p inp st)"
    by (cases rule: peg_post_elim) (use m in \<open>auto simp: peg_plus_def peg_star_def\<close>)
qed

end

section \<open>Consuming a given text\<close>

text \<open>
  \<open>peg_yields n p s t x n'\<close>: in front of \<open>s @ t\<close>, with \<open>payload_len\<close> equal to \<open>n\<close>, the rule consumes \<open>s\<close>
  and returns \<open>x\<close>. \<open>peg_rejects p t\<close>: in front of \<open>t\<close> it fails and nothing but the record of the
  furthest failure changes.
\<close>

definition peg_yields :: "int \<Rightarrow> 'a peg \<Rightarrow> string \<Rightarrow> string \<Rightarrow> 'a \<Rightarrow> int \<Rightarrow> bool" where
  "peg_yields n p s t x n' \<longleftrightarrow>
     (\<forall>inp st. drop (currPos st) inp = s @ t \<longrightarrow> payload_len st = n \<longrightarrow>
        (\<exists>st'. p inp st = Return (Some x, st') \<and> currPos st' = currPos st + length s \<and> payload_len st' = n'))"

definition peg_rejects :: "'a peg \<Rightarrow> string \<Rightarrow> bool" where
  "peg_rejects p t \<longleftrightarrow>
     (\<forall>inp st. drop (currPos st) inp = t \<longrightarrow>
        (\<exists>st'. p inp st = Return (None, st') \<and> currPos st' = currPos st \<and> payload_len st' = payload_len st))"

lemma yieldsD:
  "peg_yields n p s t x n' \<Longrightarrow> drop (currPos st) inp = s @ t \<Longrightarrow> payload_len st = n \<Longrightarrow>
     \<exists>st'. p inp st = Return (Some x, st') \<and> currPos st' = currPos st + length s \<and> payload_len st' = n'"
  by (simp add: peg_yields_def)

lemma rejectsD:
  "peg_rejects p t \<Longrightarrow> drop (currPos st) inp = t \<Longrightarrow>
     \<exists>st'. p inp st = Return (None, st') \<and> currPos st' = currPos st \<and> payload_len st' = payload_len st"
  by (simp add: peg_rejects_def)

named_theorems peg_text \<open>rules of peg_yields and peg_rejects\<close>

lemma drop_app: "drop n inp = s @ t \<Longrightarrow> drop (n + length s) inp = t"
  by (metis append_eq_conv_conj drop_drop add.commute)

lemma peg_fail_simps [simp]: "currPos (peg_fail d st) = currPos st" "payload_len (peg_fail d st) = payload_len st"
  by (simp_all add: peg_fail_def Let_def)

lemma yields_literal [peg_text]: "peg_yields n (peg_literal s) s t s n"
  by (auto simp: peg_yields_def peg_literal_def)

lemma yields_class [peg_text]: "P c \<Longrightarrow> peg_yields n (peg_class P d) [c] t c n"
  by (auto simp: peg_yields_def peg_class_def nth_via_drop intro: ccontr)

lemma yields_return [peg_text]: "peg_yields n (peg_return x) [] t x n"
  by (auto simp: peg_yields_def peg_return_def)

lemma yields_run [peg_text]: "r = Return x \<Longrightarrow> peg_yields n (peg_run r) [] t x n"
  by (auto simp: peg_yields_def peg_run_def)

lemma yields_set_payload_len [peg_text]: "peg_yields n (peg_set_payload_len n' x) [] t x n'"
  by (auto simp: peg_yields_def peg_set_payload_len_def)

lemma yields_with_payload_len [peg_text]: "peg_yields n (peg_with_payload_len f) [] t (f n) n"
  by (auto simp: peg_yields_def peg_with_payload_len_def)

lemma yields_bind:
  assumes p: "peg_yields n p s1 (s2 @ t) x n1" and f: "peg_yields n1 (f x) s2 t y n2"
  shows "peg_yields n (peg_bind p f) (s1 @ s2) t y n2"
  unfolding peg_yields_def
proof (intro allI impI)
  fix inp and st :: peg_state
  assume d: "drop (currPos st) inp = (s1 @ s2) @ t" and n: "payload_len st = n"
  then obtain st1 where 1: "p inp st = Return (Some x, st1)" "currPos st1 = currPos st + length s1" "payload_len st1 = n1"
    using yieldsD [OF p, of st inp] by auto
  have d1: "drop (currPos st1) inp = s2 @ t" using d 1 by (simp add: drop_app)
  obtain st2 where "f x inp st1 = Return (Some y, st2)" "currPos st2 = currPos st1 + length s2" "payload_len st2 = n2"
    using yieldsD [OF f d1 1(3)] by blast
  with 1 show "\<exists>st'. peg_bind p f inp st = Return (Some y, st') \<and> currPos st' = currPos st + length (s1 @ s2) \<and> payload_len st' = n2"
    by (auto simp: peg_bind_def)
qed

lemma yields_bind_last:
  "peg_yields n p s t x n1 \<Longrightarrow> peg_yields n1 (f x) [] t y n2 \<Longrightarrow> peg_yields n (peg_bind p f) s t y n2"
  using yields_bind [of n p s "[]" t x n1 f y n2] by simp

lemma yields_alt_first: "peg_yields n p s t x n' \<Longrightarrow> peg_yields n (peg_alt p q) s t x n'"
  by (fastforce simp: peg_yields_def peg_alt_def)

lemma yields_alt_second:
  assumes p: "peg_rejects p (s @ t)" and q: "peg_yields n q s t x n'"
  shows "peg_yields n (peg_alt p q) s t x n'"
  unfolding peg_yields_def
proof (intro allI impI)
  fix inp and st :: peg_state
  assume d: "drop (currPos st) inp = s @ t" and n: "payload_len st = n"
  with p obtain st1 where 1: "p inp st = Return (None, st1)" "currPos st1 = currPos st" "payload_len st1 = payload_len st"
    by (auto simp: peg_rejects_def)
  with q d n have "\<exists>st'. q inp st1 = Return (Some x, st') \<and> currPos st' = currPos st1 + length s \<and> payload_len st' = n'"
    unfolding peg_yields_def by metis
  with 1 show "\<exists>st'. peg_alt p q inp st = Return (Some x, st') \<and> currPos st' = currPos st + length s \<and> payload_len st' = n'"
    by (auto simp: peg_alt_def)
qed

lemma yields_opt_Some: "peg_yields n p s t x n' \<Longrightarrow> peg_yields n (peg_opt p) s t (Some x) n'"
  by (fastforce simp: peg_yields_def peg_opt_def)

lemma yields_opt_None: "peg_rejects p t \<Longrightarrow> peg_yields n (peg_opt p) [] t None n"
  by (fastforce simp: peg_yields_def peg_rejects_def peg_opt_def)

lemma peg_many_mono:
  "peg_many m p inp st = Return r \<Longrightarrow> m \<le> m' \<Longrightarrow> peg_many m' p inp st = Return r"
proof (induction m arbitrary: st r m')
  case (Suc m)
  then obtain k where k: "m' = Suc k" "m \<le> k" by (cases m') auto
  from Suc.prems(1) show ?case using Suc.IH [OF _ k(2)]
    by (auto simp: k(1) split: option.splits) blast+
qed simp

lemma yields_star_Nil: "peg_rejects p t \<Longrightarrow> peg_yields n (peg_star p) [] t [] n"
  by (fastforce simp: peg_yields_def peg_rejects_def peg_star_def)

lemma yields_star_Cons:
  assumes p: "peg_yields n p s1 (s2 @ t) x n1" and "s1 \<noteq> []"
    and ps: "peg_yields n1 (peg_star p) s2 t xs n2"
  shows "peg_yields n (peg_star p) (s1 @ s2) t (x # xs) n2"
  unfolding peg_yields_def
proof (intro allI impI)
  fix inp and st :: peg_state
  assume d: "drop (currPos st) inp = (s1 @ s2) @ t" and n: "payload_len st = n"
  then obtain st1 where 1: "p inp st = Return (Some x, st1)" "currPos st1 = currPos st + length s1" "payload_len st1 = n1"
    using yieldsD [OF p, of st inp] by auto
  have d1: "drop (currPos st1) inp = s2 @ t" using d 1 by (simp add: drop_app)
  obtain st2 where 2: "peg_star p inp st1 = Return (Some xs, st2)" "currPos st2 = currPos st1 + length s2" "payload_len st2 = n2"
    using yieldsD [OF ps d1 1(3)] by blast
  have "length (drop (currPos st) inp) = length s1 + length s2 + length t" using d by simp
  then have "Suc (length inp - currPos st1) \<le> length inp - currPos st"
    using \<open>s1 \<noteq> []\<close> 1(2) by (cases s1) auto
  with 2(1) have "peg_many (length inp - currPos st) p inp st1 = Return (Some xs, st2)"
    unfolding peg_star_def by (rule peg_many_mono)
  with 1 2 show "\<exists>st'. peg_star p inp st = Return (Some (x # xs), st') \<and> currPos st' = currPos st + length (s1 @ s2) \<and> payload_len st' = n2"
    by (auto simp: peg_star_def)
qed

lemma yields_plus:
  assumes p: "peg_yields n (peg_star p) s t xs n'" and "xs \<noteq> []"
  shows "peg_yields n (peg_plus p) s t xs n'"
  unfolding peg_yields_def
proof (intro allI impI)
  fix inp and st :: peg_state
  assume "drop (currPos st) inp = s @ t" "payload_len st = n"
  from yieldsD [OF p this] show "\<exists>st'. peg_plus p inp st = Return (Some xs, st') \<and> currPos st' = currPos st + length s \<and> payload_len st' = n'"
    using \<open>xs \<noteq> []\<close> by (auto simp: peg_plus_def)
qed

lemma rejects_literal [peg_text]: "take (length s) t \<noteq> s \<Longrightarrow> peg_rejects (peg_literal s) t"
  by (auto simp: peg_rejects_def peg_literal_def)

lemma rejects_class [peg_text]: "(t \<noteq> [] \<Longrightarrow> \<not> P (hd t)) \<Longrightarrow> peg_rejects (peg_class P d) t"
  by (auto simp: peg_rejects_def peg_class_def hd_drop_conv_nth)

lemma rejects_bind: "peg_rejects p t \<Longrightarrow> peg_rejects (peg_bind p f) t"
  by (fastforce simp: peg_rejects_def peg_bind_def)

lemma rejects_bind_second:
  assumes p: "\<And>n. peg_yields n p s t x n" and f: "peg_rejects (f x) t"
  shows "peg_rejects (peg_bind p f) (s @ t)"
  unfolding peg_rejects_def
proof (intro allI impI)
  fix inp and st :: peg_state
  assume d: "drop (currPos st) inp = s @ t"
  then obtain st1 where 1: "p inp st = Return (Some x, st1)" "currPos st1 = currPos st + length s" "payload_len st1 = payload_len st"
    using yieldsD [OF p d] by blast
  have d1: "drop (currPos st1) inp = t" using d 1 by (simp add: drop_app)
  obtain st2 where "f x inp st1 = Return (None, st2)" "payload_len st2 = payload_len st1"
    using rejectsD [OF f d1] by blast
  with 1 show "\<exists>st'. peg_bind p f inp st = Return (None, st') \<and> currPos st' = currPos st \<and> payload_len st' = payload_len st"
    by (auto simp: peg_bind_def)
qed

lemma rejects_alt:
  assumes p: "peg_rejects p t" and q: "peg_rejects q t"
  shows "peg_rejects (peg_alt p q) t"
  unfolding peg_rejects_def
proof (intro allI impI)
  fix inp and st :: peg_state
  assume d: "drop (currPos st) inp = t"
  with p obtain st1 where 1: "p inp st = Return (None, st1)" "currPos st1 = currPos st" "payload_len st1 = payload_len st"
    by (auto simp: peg_rejects_def)
  with q d have "\<exists>st'. q inp st1 = Return (None, st') \<and> currPos st' = currPos st1 \<and> payload_len st' = payload_len st1"
    unfolding peg_rejects_def by metis
  with 1 show "\<exists>st'. peg_alt p q inp st = Return (None, st') \<and> currPos st' = currPos st \<and> payload_len st' = payload_len st"
    by (auto simp: peg_alt_def)
qed

lemma rejects_plus: "peg_rejects p t \<Longrightarrow> peg_rejects (peg_plus p) t"
  by (fastforce simp: peg_rejects_def peg_plus_def peg_star_def)

text \<open>Repeated character classes take the longest run of characters of the class.\<close>

lemma yields_star_class:
  assumes "\<And>c. c \<in> set s \<Longrightarrow> P c" and t: "t \<noteq> [] \<Longrightarrow> \<not> P (hd t)"
  shows "peg_yields n (peg_star (peg_class P d)) s t s n"
  using assms(1)
proof (induction s)
  case Nil
  then show ?case by (intro yields_star_Nil rejects_class t)
next
  case (Cons c s)
  then show ?case
    using yields_star_Cons [of n "peg_class P d" "[c]" s t c n s n] by (simp add: yields_class)
qed

lemma yields_plus_class:
  "s \<noteq> [] \<Longrightarrow> (\<And>c. c \<in> set s \<Longrightarrow> P c) \<Longrightarrow> (t \<noteq> [] \<Longrightarrow> \<not> P (hd t)) \<Longrightarrow> peg_yields n (peg_plus (peg_class P d)) s t s n"
  by (intro yields_plus yields_star_class)

text \<open>The triple of such a loop: it also stops as late as possible.\<close>

definition run_of :: "(char \<Rightarrow> bool) \<Rightarrow> string \<Rightarrow> string \<Rightarrow> string \<Rightarrow> bool" where
  "run_of P x s t \<longleftrightarrow> x = s \<and> (\<forall>c \<in> set s. P c) \<and> (t \<noteq> [] \<longrightarrow> \<not> P (hd t))"

lemma class_consuming_rule: "consuming_rule E (\<lambda>c s t. s = [c]) (peg_class P d)"
  by unfold_locales (auto intro: peg_intros)

lemma peg_post_yields:
  assumes post: "peg_post E V inp st (p inp st)"
    and y: "peg_yields (payload_len st) p s t x n" and d: "drop (currPos st) inp = s @ t" and W: "W x s t"
  shows "peg_post E W inp st (p inp st)"
proof -
  obtain st' where 1: "p inp st = Return (Some x, st')" "currPos st' = currPos st + length s"
    using yieldsD [OF y d] by auto
  moreover have "drop (currPos st') inp = t" using 1 d by (simp add: drop_app)
  ultimately show ?thesis using post W d by auto
qed

lemma peg_spec_star_class: "peg_spec E (run_of P) (peg_star (peg_class P d))"
proof (rule peg_specI)
  fix inp and st :: peg_state
  assume inv: "peg_inv inp st"
  let ?s = "takeWhile P (drop (currPos st) inp)" and ?t = "dropWhile P (drop (currPos st) inp)"
  have t: "?t \<noteq> [] \<Longrightarrow> \<not> P (hd ?t)" by (rule hd_dropWhile)
  show "peg_post E (run_of P) inp st (peg_star (peg_class P d) inp st)"
  proof (rule peg_post_yields [where s = ?s and t = ?t])
    show "peg_post E (pieces (\<lambda>c s t. s = [c])) inp st (peg_star (peg_class P d) inp st)"
      by (rule peg_specD [OF consuming_rule.star [OF class_consuming_rule] inv])
    show "peg_yields (payload_len st) (peg_star (peg_class P d)) ?s ?t ?s (payload_len st)"
      by (rule yields_star_class) (use t in \<open>auto dest: set_takeWhileD\<close>)
    show "run_of P ?s ?s ?t" using t by (auto simp: run_of_def dest: set_takeWhileD)
  qed simp
qed

lemma peg_spec_plus_class: "peg_spec E (\<lambda>x s t. run_of P x s t \<and> s \<noteq> []) (peg_plus (peg_class P d))"
proof (rule peg_specI)
  fix inp and st :: peg_state
  assume inv: "peg_inv inp st"
  have p: "peg_post E (\<lambda>xs s t. pieces (\<lambda>c s t. s = [c]) xs s t \<and> xs \<noteq> []) inp st (peg_plus (peg_class P d) inp st)"
    by (rule peg_specD [OF consuming_rule.plus [OF class_consuming_rule] inv])
  from peg_specD [OF peg_spec_star_class [of E P d] inv]
  show "peg_post E (\<lambda>x s t. run_of P x s t \<and> s \<noteq> []) inp st (peg_plus (peg_class P d) inp st)"
  proof (cases rule: peg_post_elim)
    case (1 x st' s)
    then have "x = s" by (simp add: run_of_def)
    show ?thesis
    proof (cases "s = []")
      case True
      with p 1 \<open>x = s\<close> show ?thesis by (simp add: peg_plus_def)
    next
      case False
      with 1 \<open>x = s\<close> show ?thesis by (auto simp: peg_plus_def)
    qed
  qed (auto simp: peg_plus_def)
qed

text \<open>The two ways a complete parse can end.\<close>

lemma peg_parse_yields:
  assumes "peg_yields 0 p s [] x n" shows "peg_parse p s = Return x"
proof -
  have "drop (currPos peg_init) s = s @ []" "payload_len peg_init = 0" by (simp_all add: peg_init_def)
  from yieldsD [OF assms this] obtain st' where "p s peg_init = Return (Some x, st')" "currPos st' = length s"
    by (auto simp: peg_init_def)
  then show ?thesis by (simp add: peg_parse_def)
qed

lemma peg_init_inv [simp]: "peg_inv inp peg_init"
  by (simp add: peg_inv_def peg_init_def)

lemma peg_parse_Return:
  assumes "peg_spec E V p" "peg_parse p inp = Return x" shows "V x inp []"
  using peg_specD [OF assms(1) peg_init_inv [of inp]]
proof (cases rule: peg_post_elim)
  case (1 y st' s)
  with assms(2) have "y = x" "currPos st' = length inp"
    by (auto simp: peg_parse_def Let_def split: if_splits)
  with 1 show ?thesis by (simp add: peg_init_def)
qed (use assms(2) in \<open>auto simp: peg_parse_def\<close>)

end
