(* ===== verification/NfNetlink.thy ===== *)
theory NfNetlink
  imports NfAttributes
begin

text \<open>
  \<open>nl/nfnetlink.js\<close>, \<open>nf/nlnetfilter.js\<close> and \<open>nf/nfcommand.js\<close>: the messages of a netfilter command,
  wrapped in a batch where the command changes the kernel's state, the walk over the attributes of a
  reply, and the translation of a parsed command into message type, flags and family.
\<close>

section \<open>Constants\<close>

definition nf_subsys_consts :: "(string \<times> jsval) list" where
  "nf_subsys_consts =
    [(''NFNETLINK_V0'', Num 0), (''NFNL_SUBSYS_NONE'', Num 0), (''NFNL_SUBSYS_CTNETLINK'', Num 1),
     (''NFNL_SUBSYS_CTNETLINK_EXP'', Num 2), (''NFNL_SUBSYS_QUEUE'', Num 3), (''NFNL_SUBSYS_ULOG'', Num 4),
     (''NFNL_SUBSYS_OSF'', Num 5), (''NFNL_SUBSYS_IPSET'', Num 6), (''NFNL_SUBSYS_ACCT'', Num 7),
     (''NFNL_SUBSYS_CTNETLINK_TIMEOUT'', Num 8), (''NFNL_SUBSYS_CTHELPER'', Num 9),
     (''NFNL_SUBSYS_NFTABLES'', Num 10), (''NFNL_SUBSYS_NFT_COMPAT'', Num 11), (''NFNL_SUBSYS_COUNT'', Num 12)]"

definition nf_msg_consts :: "(string \<times> jsval) list" where
  "nf_msg_consts =
    [(''NFT_MSG_NEWTABLE'', Num 0), (''NFT_MSG_GETTABLE'', Num 1), (''NFT_MSG_DELTABLE'', Num 2),
     (''NFT_MSG_NEWCHAIN'', Num 3), (''NFT_MSG_GETCHAIN'', Num 4), (''NFT_MSG_DELCHAIN'', Num 5),
     (''NFT_MSG_NEWRULE'', Num 6), (''NFT_MSG_GETRULE'', Num 7), (''NFT_MSG_DELRULE'', Num 8),
     (''NFT_MSG_NEWSET'', Num 9), (''NFT_MSG_GETSET'', Num 10), (''NFT_MSG_DELSET'', Num 11),
     (''NFT_MSG_NEWSETELEM'', Num 12), (''NFT_MSG_GETSETELEM'', Num 13), (''NFT_MSG_DELSETELEM'', Num 14),
     (''NFT_MSG_NEWGEN'', Num 15), (''NFT_MSG_GETGEN'', Num 16)]"

text \<open>
  In \<open>NLA_TYPE_MASK: ~(this.NLA_F_NESTED | this.NLA_F_NET_BYTEORDER)\<close> the word \<open>this\<close> is the module's
  empty \<open>exports\<close>, so the mask is \<open>~0\<close>.
\<close>

definition nf_flags :: "(string \<times> int) list" where
  "nf_flags =
    [(''NFT_TABLE_F_ACTIVE'', 0), (''NFT_TABLE_F_DORMANT'', 0x01000000), (''NLA_F_NESTED'', js_shl 1 15),
     (''NLA_F_NET_BYTEORDER'', js_shl 1 14),
     (''NLA_TYPE_MASK'', NOT (js_or_val (obj_get module_this ''NLA_F_NESTED'') (obj_get module_this ''NLA_F_NET_BYTEORDER'')))]"

definition nf_family :: "(string \<times> int) list" where
  "nf_family =
    [(''NFPROTO_UNSPECL'', 0), (''NFPROTO_INET'', 1), (''NFPROTO_IPV4'', 2), (''NFPROTO_ARP'', 3),
     (''NFPROTO_BRIDGE'', 7), (''NFPROTO_IPV6'', 10), (''NFPROTO_DECNET'', 12)]"

definition nft_types_name_map :: "string list" where
  "nft_types_name_map =
    [''newtable'', ''gettable'', ''deltable'', ''newchain'', ''getchain'', ''delchain'', ''newrule'',
     ''getrule'', ''delrule'', ''newset'', ''getset'', ''delset'', ''newsetelem'', ''getsetelem'',
     ''delsetelem'', ''newgen'', ''getgen'']"

definition getNfTypeName :: "int \<Rightarrow> jsval" where
  "getNfTypeName type =
     (if 0 \<le> type \<and> nat type < length nft_types_name_map then Str (nft_types_name_map ! nat type) else Undef)"

fun nf_flags_loop :: "(string \<times> int) list \<Rightarrow> int \<Rightarrow> string \<Rightarrow> string" where
  "nf_flags_loop [] f flags_str = flags_str"
| "nf_flags_loop ((k, v) # tab) f flags_str =
     nf_flags_loop tab f
       (if f = v then (if flags_str \<noteq> [] then flags_str @ ''|'' else flags_str) @ k else flags_str)"

definition nf_getFlags :: "int \<Rightarrow> string" where
  "nf_getFlags f = nf_flags_loop nf_flags f []"

text \<open>\<open>get_family_str\<close>: the first name with this number.\<close>

definition get_family_str :: "jsval \<Rightarrow> jsval" where
  "get_family_str family =
     (case List.find (\<lambda>(k, v). strict_eq family (Num v)) nf_family of Some (k, v) \<Rightarrow> Str k | None \<Rightarrow> Undef)"

section \<open>Sending\<close>

definition nfgenmsg_fmt :: string where
  "nfgenmsg_fmt = ''<B(_family)B(_version)H(_resid)''"

definition buildNfgenmsg :: "meta run" where
  "buildNfgenmsg =
     run_bind (metaObject nfgenmsg_fmt False) (\<lambda>o1. Return (zero_fields [''_family'', ''_version'', ''_resid''] o1))"

definition unpackNfgenmsg :: "bytes \<Rightarrow> nat \<Rightarrow> jsval run" where
  "unpackNfgenmsg data pos = unpack nfgenmsg_fmt data pos"

definition addBatchMessages :: "msgreq \<Rightarrow> int \<Rightarrow> msgreq run" where
  "addBatchMessages msgreq batch =
     run_bind buildHdr (\<lambda>nl_hdr0.
       let nl_hdr = meta_set ''_flags'' (Num NLM_F_REQUEST) (meta_set ''_type'' (Num batch) nl_hdr0) in
     run_bind buildNfgenmsg (\<lambda>nf_hdr0.
       let nf_hdr = meta_set ''_resid'' (Num 10) (meta_set ''_version'' (Num 0) nf_hdr0) in
     run_bind (meta_pack nf_hdr) (\<lambda>b. addNetlinkMessageToReq msgreq nl_hdr [b])))"

text \<open>What the callback of a command gets: an error, or the request handed to the socket.\<close>

datatype nf_sent = NfErr string | NfSent msgreq

definition addCommandMessage :: "msgreq \<Rightarrow> jsval \<Rightarrow> nattr list \<Rightarrow> nf_sent run" where
  "addCommandMessage msgreq opts attrs =
     run_bind buildHdr (\<lambda>nl_hdr0.
       let nl_hdr = meta_set ''_flags'' (Num NLM_F_REQUEST) (meta_set ''_type'' (Num (js_shl 10 8)) nl_hdr0) in
     run_bind buildNfgenmsg (\<lambda>nf_hdr0.
       let nf_hdr = meta_set ''_version'' (Num 0) nf_hdr0 in
       case opts of
         Undef \<Rightarrow> Return (NfErr ''no options specified'')
       | Null \<Rightarrow> Throw TypeError
       | Obj ps \<Rightarrow>
           if map_of ps ''cmd'' = None then Return (NfErr ''no cmd option specified'')
           else if map_of ps ''type_flags'' = None then Return (NfErr ''no type option specified'')
           else if map_of ps ''family'' = None then Return (NfErr ''no family option specified'')
           else
             let nl_hdr' = meta_set ''_flags'' (Num (js_or NLM_F_REQUEST (num_or_0 (obj_get ps ''type_flags''))))
                             (meta_set ''_type'' (Num (js_or (js_shl 10 8) (num_or_0 (obj_get ps ''cmd'')))) nl_hdr);
                 nf_hdr' = meta_set ''_family'' (obj_get ps ''family'') nf_hdr
             in run_bind (meta_pack nf_hdr') (\<lambda>b.
                run_bind (addNetlinkMessageToReq msgreq nl_hdr' (writeAttributes attrs [b])) (\<lambda>req. Return (NfSent req)))
       | _ \<Rightarrow> Throw (NotModelled ''options that are not an object'')))"

text \<open>
  \<open>sendNetfilterCommand\<close>: unless the command only lists (\<open>NLM_F_MATCH\<close>), the command message stands
  between a begin and an end message.
\<close>

definition sendNetfilterCommand :: "props \<Rightarrow> nattr list \<Rightarrow> nf_sent run" where
  "sendNetfilterCommand opts attrs =
     (let batch = (js_and (num_or_0 (obj_get opts ''type_flags'')) NLM_F_MATCH = 0) in
      run_bind (if batch then addBatchMessages [] NLMSG_MIN_TYPE else Return []) (\<lambda>msgreq.
      run_bind (addCommandMessage msgreq (Obj opts) attrs) (\<lambda>r.
        case r of
          NfErr e \<Rightarrow> Return (NfErr e)
        | NfSent req \<Rightarrow>
            run_bind (if batch then addBatchMessages req NLMSG_MAX_TYPE else Return req) (\<lambda>req'. Return (NfSent req')))))"

section \<open>Commands\<close>

text \<open>
  Each of the setters changes the options and may report an error to the callback; it then returns, but
  \<open>build_command\<close> goes on. An unknown constant is \<open>undefined\<close>, and the option is set to that.
\<close>

definition nf_const :: "string \<Rightarrow> jsval" where
  "nf_const k = obj_get (nf_subsys_consts @ nf_msg_consts) k"

definition unsupported :: "jsval \<Rightarrow> string" where
  "unsupported command = to_string command @ '' command not supported: get, add, del, update''"

definition upper_type :: "props \<Rightarrow> string run" where
  "upper_type opts = (case obj_get opts ''type'' of Str t \<Rightarrow> Return (toUpperCase t) | _ \<Rightarrow> Throw TypeError)"

text \<open>The case \<open>del\<close> has no \<open>break\<close> and falls through to \<open>flush\<close>.\<close>

definition set_cmd :: "props \<Rightarrow> (props \<times> string option) run" where
  "set_cmd opts =
     run_bind (upper_type opts) (\<lambda>type.
       let command = obj_get opts ''command'';
           flush = (\<lambda>os. if type = ''TABLE'' then obj_set ''cmd'' (nf_const ''NFT_MSG_DELRULE'') os
                         else obj_set ''cmd'' (nf_const (''NFT_MSG_DEL'' @ type)) os)
       in Return
         (if command = Str ''get'' then (obj_set ''cmd'' (nf_const (''NFT_MSG_GET'' @ type)) opts, None)
          else if command = Str ''add'' then (obj_set ''cmd'' (nf_const (''NFT_MSG_NEW'' @ type)) opts, None)
          else if command = Str ''del'' then (flush (obj_set ''cmd'' (nf_const (''NFT_MSG_DEL'' @ type)) opts), None)
          else if command = Str ''flush'' then (flush opts, None)
          else if command = Str ''update'' then (obj_set ''cmd'' (nf_const (''NFT_MSG_NEW'' @ type)) opts, None)
          else if command = Str ''list'' then (obj_set ''cmd'' (nf_const (''NFT_MSG_GET'' @ type)) opts, None)
          else (opts, Some (unsupported command))))"

definition set_family :: "props \<Rightarrow> props \<times> string option" where
  "set_family opts =
     (let fam = obj_get opts ''family'' in
      if fam = Str ''ip'' then (obj_set ''family'' (Num 2) opts, None)
      else if fam = Str ''ip6'' then (obj_set ''family'' (Num 10) opts, None)
      else if fam = Str ''bridge'' then (obj_set ''family'' (Num 7) opts, None)
      else if fam = Str ''arp'' then (obj_set ''family'' (Num 3) opts, None)
      else if fam = Str ''unspec'' then (obj_set ''family'' (Num 0) opts, None)
      else (opts, Some (CHR 0x22 # ''Unknown family: ip, ip6, bridge, arp, unspec'')))"

definition set_type :: "props \<Rightarrow> props \<times> string option" where
  "set_type opts =
     (let command = obj_get opts ''command''; type = obj_get opts ''type'';
          put = (\<lambda>f. (obj_set ''type_flags'' (Num f) opts, None))
      in
      if command = Str ''get'' then
        (if type = Str ''table'' then put (js_or (js_or NLM_F_REQUEST NLM_F_ROOT) NLM_F_MATCH)
         else if type = Str ''rule'' then put (js_or (js_or NLM_F_REQUEST NLM_F_ROOT) NLM_F_MATCH)
         else put NLM_F_ACK)
      else if command = Str ''add'' then
        (if type = Str ''rule'' then put (js_or (js_or NLM_F_APPEND NLM_F_CREATE) NLM_F_ACK) else put NLM_F_ACK)
      else if command = Str ''del'' \<or> command = Str ''flush'' then put NLM_F_ACK
      else if command = Str ''update'' then put NLM_F_ACK
      else if command = Str ''list'' then
        (if type = Str ''table'' then put (js_or NLM_F_ROOT NLM_F_MATCH)
         else if type = Str ''rule'' then put (js_or (js_or NLM_F_REQUEST NLM_F_ROOT) NLM_F_MATCH)
         else (opts, None))
      else (opts, Some (unsupported command)))"

text \<open>The options after all three, and the errors reported on the way, before the final \<open>cb()\<close>.\<close>

definition build_command :: "props \<Rightarrow> (props \<times> string list) run" where
  "build_command opts =
     run_bind (set_cmd opts) (\<lambda>(o1, e1).
       let (o2, e2) = set_family o1; (o3, e3) = set_type o2
       in Return (o3, List.map_filter id [e1, e2, e3]))"

text \<open>
  \<open>command(cb)\<close> after parsing: the errors the user's callback gets from \<open>build_command\<close>, and then, in
  any case, the outcome of sending.
\<close>

definition nf_command :: "props \<Rightarrow> (string list \<times> nf_sent run) run" where
  "nf_command opts =
     run_bind (build_command opts) (\<lambda>(o1, errs).
       Return (errs,
         run_bind (newNfAttributes (obj_get o1 ''type'') (obj_get o1 ''params'')) (sendNetfilterCommand o1)))"

section \<open>Replies\<close>

text \<open>
  The body of the loop of \<open>nf.parseAttrs\<close>; \<open>start_keys\<close> is \<open>None\<close> when it is \<open>undefined\<close>. The
  attribute names are the keys of the table, indexed by the attribute number.
\<close>

definition nf_field_name :: "attr_table option \<Rightarrow> int \<Rightarrow> string run" where
  "nf_field_name start_keys v =
     (case start_keys of
        None \<Rightarrow> Throw TypeError
      | Some tab \<Rightarrow>
          if nat v < length tab then
            (let nm = fst (tab ! nat v) in
             case (split_nth CHR ''_'' nm 2, split_nth CHR ''_'' nm 1) of
               (Some fn, Some ft) \<Rightarrow>
                 if map_of tab (''NFTA_'' @ ft @ ''_SPEC'') = None then Throw TypeError
                 else Return (toLowerCase fn)
             | (Some fn, None) \<Rightarrow> Throw TypeError
             | _ \<Rightarrow> Throw TypeError)
          else Throw TypeError)"

definition nf_attr_body :: "attr_table option \<Rightarrow> bytes \<Rightarrow> nat \<Rightarrow> props \<Rightarrow> (nat \<times> props) run" where
  "nf_attr_body start_keys data index ret =
     run_bind (readUInt16LE data index) (\<lambda>len.
       let round_len = len + (if len mod 4 \<noteq> 0 then 4 - len mod 4 else 0) in
     run_bind (readUInt16LE data (index + 2)) (\<lambda>attr_type_val.
       let remaining = int (length data) - int index in
     run_bind (nf_field_name start_keys attr_type_val) (\<lambda>field_name.
       let attr_value =
             (if len = remaining then js_slice data (int index) (int index + 4)
              else js_slice data (int index + 4) (int index + round_len))
       in Return (nat (int index + round_len), obj_set field_name (Buf attr_value) ret))))"

definition nf_parseAttrs :: "bytes \<Rightarrow> nat \<Rightarrow> int \<Rightarrow> attr_table option \<Rightarrow> props run" where
  "nf_parseAttrs data start total_len start_keys =
     attr_loop (nf_attr_body start_keys data) (Suc (length data)) total_len start []"

text \<open>
  \<open>parseNfattributes\<close>. Only rules have their table of keys; \<open>NFT_MSG_DELGEN\<close> is not defined, and
  comparing with \<open>undefined\<close> is false.
\<close>

definition nf_kind :: "int \<Rightarrow> (attr_table option \<times> string) option" where
  "nf_kind type =
     (if 0 \<le> type \<and> type \<le> 2 then Some (None, ''table'')
      else if 3 \<le> type \<and> type \<le> 5 then Some (None, ''chain'')
      else if 6 \<le> type \<and> type \<le> 8 then Some (Some nft_rule_attributes, ''rule'')
      else if 9 \<le> type \<and> type \<le> 11 then Some (None, ''set'')
      else if 12 \<le> type \<and> type \<le> 14 then Some (None, ''setelem'')
      else None)"

definition parseNfattributes :: "bytes \<Rightarrow> props run" where
  "parseNfattributes data =
     (if length data < 16 then Return []
      else
        run_bind (readUInt32LE data 0) (\<lambda>total_len.
        if total_len \<noteq> int (length data) then Return []
        else run_bind (readUInt16LE data 4) (\<lambda>t.
          let type = js_and t 0x00FF in
          case nf_kind type of
            None \<Rightarrow> Return []
          | Some (keys, name) \<Rightarrow>
              run_bind (nf_parseAttrs data (16 + 4) total_len keys) (\<lambda>payload.
                Return (obj_set name (Obj payload) (obj_set ''operation'' (getNfTypeName type) []))))))"

text \<open>\<open>generateNetfilterResponse(bufs, attrs)\<close>: the loop over the received messages.\<close>

fun nf_response_loop :: "bytes list \<Rightarrow> jsval list \<Rightarrow> jsval run" where
  "nf_response_loop [] result_array = Return (Arr result_array)"
| "nf_response_loop (data # bufs) result_array =
     run_bind (readUInt16LE data 4) (\<lambda>t.
       let type = js_and t 0x00FF in
       if type = NLMSG_DONE then Return (Arr result_array)
       else if type = NLMSG_ERROR then Return (Obj [])
       else
         run_bind (unpackNfgenmsg data 16) (\<lambda>nfgenmsg.
         run_bind (readUInt32LE data 0) (\<lambda>total_len.
         run_bind (parseNfattributes data) (\<lambda>payload.
           let cur_result = Obj [(''genmsg'', nfgenmsg), (''payload'', Obj payload)] in
         run_bind (readUInt16LE data 6) (\<lambda>flags.
           if js_and flags NLM_F_MULTI \<noteq> 0 then nf_response_loop bufs (result_array @ [cur_result])
           else Return cur_result)))))"

definition generateNetfilterResponse :: "bytes list \<Rightarrow> jsval run" where
  "generateNetfilterResponse bufs = nf_response_loop bufs []"

section \<open>The batch\<close>

lemma scan_nfgenmsg:
  "scan_fmt nfgenmsg_fmt = [int_field FB ''_family'', int_field FB ''_version'', int_field FH ''_resid'']"
  by code_simp

definition nfgen_bytes :: "int \<Rightarrow> int \<Rightarrow> int \<Rightarrow> bytes" where
  "nfgen_bytes f v r =
     le_bytes 1 (clamp_el (unsigned_el 1) f) @ le_bytes 1 (clamp_el (unsigned_el 1) v) @ le_bytes 2 (clamp_el (unsigned_el 2) r)"

lemma length_nfgen_bytes [simp]: "length (nfgen_bytes f v r) = 4"
  by (simp add: nfgen_bytes_def)

lemma buildNfgenmsg_pack:
  "\<exists>o1. buildNfgenmsg = Return o1
    \<and> (\<forall>f r. meta_pack (meta_set ''_resid'' (Num r) (meta_set ''_version'' (Num 0) o1)) = Return (Some (nfgen_bytes 0 0 r))
        \<and> meta_pack (meta_set ''_family'' (Num f) (meta_set ''_version'' (Num 0) o1)) = Return (Some (nfgen_bytes f 0 0)))"
proof -
  have be: "fmt_be nfgenmsg_fmt = False" by (simp add: fmt_be_def nfgenmsg_fmt_def)
  obtain o1 where o1: "buildNfgenmsg = Return o1" "m_format o1 = nfgenmsg_fmt"
    "m_keylist o1 = [''_family'', ''_version'', ''_resid'']" "meta_get o1 ''_family'' = Num 0"
    "meta_get o1 ''_version'' = Num 0" "meta_get o1 ''_resid'' = Num 0"
    by (simp add: buildNfgenmsg_def metaObject_def scan_nfgenmsg calcLength_def toValArray_def map_filter_def zero_fields_def)
  have "meta_pack m = Return (Some (nfgen_bytes f v r))"
    if "m_format m = nfgenmsg_fmt" "m_keylist m = [''_family'', ''_version'', ''_resid'']" "meta_get m ''_family'' = Num f"
      "meta_get m ''_version'' = Num v" "meta_get m ''_resid'' = Num r" for m f v r
  proof -
    have "all_nums m" using that by (simp add: all_nums_def num_of_def)
    then have "meta_pack m = Return (Some (enc_elems (fmt_be (m_format m)) (scan_fmt (m_format m)) (meta_nums m)))"
      by (rule meta_pack_nums) (simp_all add: that scan_nfgenmsg)
    then show ?thesis by (simp add: that meta_nums_def num_of_def scan_nfgenmsg be nfgen_bytes_def)
  qed
  with o1 show ?thesis by (intro exI [of _ o1]) simp
qed

definition batch_msg :: "int \<Rightarrow> bytes" where
  "batch_msg t = hdr_bytes 20 t NLM_F_REQUEST 0 0 @ nfgen_bytes 0 0 10"

lemma framed:
  assumes "buildHdr = Return h"
  shows "addNetlinkMessageToReq req (meta_set ''_flags'' (Num f) (meta_set ''_type'' (Num t) h)) (map Some bs)
    = Return (req @ [hdr_bytes (16 + int (length (concat bs))) t f 0 0 @ concat bs])"
    "addNetlinkMessageToReq req
        (meta_set ''_flags'' (Num f) (meta_set ''_type'' (Num t) (meta_set ''_flags'' (Num f') (meta_set ''_type'' (Num t') h)))) (map Some bs)
    = Return (req @ [hdr_bytes (16 + int (length (concat bs))) t f 0 0 @ concat bs])"
proof -
  obtain h' where "buildHdr = Return h'" and h': "is_hdr h'" "meta_get h' ''_seq'' = Num 0" "meta_get h' ''_pid'' = Num 0"
    using buildHdr_value by blast
  with assms have "h' = h" by (metis run.inject(1))
  with h' have h: "is_hdr h" "meta_get h ''_seq'' = Num 0" "meta_get h ''_pid'' = Num 0" by auto
  show "addNetlinkMessageToReq req (meta_set ''_flags'' (Num f) (meta_set ''_type'' (Num t) h)) (map Some bs)
    = Return (req @ [hdr_bytes (16 + int (length (concat bs))) t f 0 0 @ concat bs])"
    using h by (subst addNetlinkMessageToReq_def, subst frame_message_eq) (simp_all add: is_hdr_set)
  show "addNetlinkMessageToReq req
        (meta_set ''_flags'' (Num f) (meta_set ''_type'' (Num t) (meta_set ''_flags'' (Num f') (meta_set ''_type'' (Num t') h)))) (map Some bs)
    = Return (req @ [hdr_bytes (16 + int (length (concat bs))) t f 0 0 @ concat bs])"
    using h by (subst addNetlinkMessageToReq_def, subst frame_message_eq) (simp_all add: is_hdr_set)
qed

lemma addBatchMessages_value: "addBatchMessages req t = Return (req @ [batch_msg t])"
proof -
  obtain h where h: "buildHdr = Return h" using buildHdr_value by blast
  obtain o1 where o1: "buildNfgenmsg = Return o1"
    "\<And>r. meta_pack (meta_set ''_resid'' (Num r) (meta_set ''_version'' (Num 0) o1)) = Return (Some (nfgen_bytes 0 0 r))"
    using buildNfgenmsg_pack by auto
  show ?thesis using framed(1) [OF h, of req NLM_F_REQUEST t "[nfgen_bytes 0 0 10]"]
    by (simp add: addBatchMessages_def h o1 batch_msg_def)
qed

lemma sendNetfilterCommand_value:
  assumes "map_of opts ''cmd'' = Some (Num c)" "map_of opts ''type_flags'' = Some (Num tf)" "map_of opts ''family'' = Some (Num fam)"
    "attrs = concat (map na_buffer arr)"
    "msg = hdr_bytes (20 + int (length attrs)) (js_or 2560 c) (js_or NLM_F_REQUEST tf) 0 0 @ nfgen_bytes fam 0 0 @ attrs"
  shows "sendNetfilterCommand opts arr = Return (NfSent
    (if js_and tf NLM_F_MATCH = 0 then [batch_msg NLMSG_MIN_TYPE, msg, batch_msg NLMSG_MAX_TYPE] else [msg]))"
proof -
  obtain h where h: "buildHdr = Return h" using buildHdr_value by blast
  obtain o1 where o1: "buildNfgenmsg = Return o1"
    "\<And>f. meta_pack (meta_set ''_family'' (Num f) (meta_set ''_version'' (Num 0) o1)) = Return (Some (nfgen_bytes f 0 0))"
    using buildNfgenmsg_pack by auto
  have g: "obj_get opts ''cmd'' = Num c" "obj_get opts ''type_flags'' = Num tf" "obj_get opts ''family'' = Num fam"
    using assms(1-3) by (simp_all add: obj_get_def)
  have s: "js_shl 10 8 = 2560" by (simp add: js_shl_def to_int32_def)
  have w: "writeAttributes arr [Some (nfgen_bytes fam 0 0)] = map Some (nfgen_bytes fam 0 0 # map na_buffer arr)"
    by (simp add: writeAttributes_def)
  have cmd: "addCommandMessage req (Obj opts) arr = Return (NfSent (req @ [msg]))" for req
    by (simp only: addCommandMessage_def h o1 run_bind.simps Let_def jsval.case assms(1-3) option.distinct if_False g
        num_or_0_def s w framed(2) [OF h]) (simp add: assms(4,5) add.commute)
  show ?thesis
    by (simp add: sendNetfilterCommand_def g num_or_0_def addBatchMessages_value cmd)
qed

text \<open>
  C23. The request of a netfilter command: one message with the packed family and the attribute buffers
  in order, its type carrying the subsystem in the high byte, and its length word counting all of it;
  when the command is no listing, it stands between the begin and the end message of a batch.
\<close>

theorem sendNetfilterCommand_request:
  assumes "map_of opts ''cmd'' = Some (Num c)" "map_of opts ''type_flags'' = Some (Num tf)" "map_of opts ''family'' = Some (Num fam)"
    "attrs = concat (map na_buffer arr)"
    "msg = hdr_bytes (20 + int (length attrs)) (js_or 2560 c) (js_or NLM_F_REQUEST tf) 0 0 @ nfgen_bytes fam 0 0 @ attrs"
  shows "sendNetfilterCommand opts arr = Return (NfSent
    (if js_and tf NLM_F_MATCH = 0 then [batch_msg NLMSG_MIN_TYPE, msg, batch_msg NLMSG_MAX_TYPE] else [msg]))"
  using assms by (rule sendNetfilterCommand_value)

lemma sendNetfilterCommand_request_witness:
  "sendNetfilterCommand [(''cmd'', Num 0), (''type_flags'', Num NLM_F_ACK), (''family'', Num 2)] []
    = Return (NfSent [batch_msg NLMSG_MIN_TYPE,
        hdr_bytes 20 (js_or 2560 0) (js_or NLM_F_REQUEST NLM_F_ACK) 0 0 @ nfgen_bytes 2 0 0, batch_msg NLMSG_MAX_TYPE])"
proof -
  have m: "js_and NLM_F_ACK NLM_F_MATCH = 0" by (simp add: js_and_def to_int32_def)
  show ?thesis
    using sendNetfilterCommand_request [of "[(''cmd'', Num 0), (''type_flags'', Num NLM_F_ACK), (''family'', Num 2)]" 0 NLM_F_ACK 2 "[]" "[]"] m
    by simp
qed

section \<open>From the words of a command to the message\<close>

definition nf_types :: "string list" where
  "nf_types = [''table'', ''chain'', ''rule'', ''set'', ''setelem'']"

text \<open>
  The message number of a command: types come in threes, and within them \<open>add\<close> and \<open>update\<close> mean
  the first, \<open>get\<close> and \<open>list\<close> the second, \<open>del\<close> and \<open>flush\<close> the third number; but for tables both
  \<open>flush\<close> and, by the missing \<open>break\<close>, \<open>del\<close> give the message that deletes rules, so that a table
  cannot be deleted.
\<close>

theorem set_cmd_number:
  "list_all (\<lambda>i. list_all (\<lambda>(command, off).
      run_bind (set_cmd [(''command'', Str command), (''type'', Str (nf_types ! i))]) (\<lambda>(os, e). Return (obj_get os ''cmd'', e))
        = Return (if i = 0 \<and> off = 2 then Num 8 else Num (3 * int i + off), None))
      [(''add'', 0), (''update'', 0), (''get'', 1), (''list'', 1), (''del'', 2), (''flush'', 2)]) [0..<5]"
  by code_simp

text \<open>
  A command word that is not supported: the callback gets the error, and the command is sent to the
  kernel interface all the same, where it fails a second time for want of a message number.
\<close>

theorem unsupported_command_sent:
  assumes "obj_get opts ''type'' = Str ty" "map_of opts ''cmd'' = None"
    "obj_get opts ''command'' \<notin> {Str ''get'', Str ''add'', Str ''del'', Str ''flush'', Str ''update'', Str ''list''}"
    "newNfAttributes (Str ty) (obj_get opts ''params'') = Return arr" "map_of opts ''type_flags'' = None"
  shows "\<exists>errs. nf_command opts = Return (unsupported (obj_get opts ''command'') # errs, Return (NfErr ''no cmd option specified''))"
proof -
  have c: "set_cmd opts = Return (opts, Some (unsupported (obj_get opts ''command'')))"
    using assms(1,3) by (simp add: set_cmd_def upper_type_def Let_def)
  obtain o2 e2 where f: "set_family opts = (o2, e2)" by (cases "set_family opts")
  have m2: "map_of o2 k = map_of opts k" if "k \<noteq> ''family''" for k
    using f that by (auto simp: set_family_def Let_def obj_set_def update_conv' split: if_splits)
  then have o2: "obj_get o2 k = obj_get opts k" if "k \<noteq> ''family''" for k
    using that by (simp add: obj_get_def)
  have t: "set_type o2 = (o2, Some (unsupported (obj_get opts ''command'')))"
    using assms(3) by (simp add: set_type_def Let_def o2)
  obtain errs where b: "build_command opts = Return (o2, unsupported (obj_get opts ''command'') # errs)"
    by (cases e2) (simp_all add: build_command_def c f t map_filter_def)
  obtain h where h: "buildHdr = Return h" using buildHdr_value by blast
  obtain n where n: "buildNfgenmsg = Return n" using buildNfgenmsg_pack by auto
  have "map_of o2 ''cmd'' = None" "obj_get o2 ''type_flags'' = Undef" "obj_get o2 ''type'' = Str ty"
      "obj_get o2 ''params'' = obj_get opts ''params''"
    using assms o2 m2 by (simp_all add: obj_get_def)
  then have "run_bind (newNfAttributes (obj_get o2 ''type'') (obj_get o2 ''params'')) (sendNetfilterCommand o2)
      = Return (NfErr ''no cmd option specified'')"
    using assms(4) by (simp add: sendNetfilterCommand_def num_or_0_def js_and_def to_int32_def addBatchMessages_value
        addCommandMessage_def h n)
  then show ?thesis by (simp add: nf_command_def b)
qed

lemma unsupported_command_sent_witness:
  "\<exists>errs. nf_command [(''command'', Str ''drop''), (''type'', Str ''table''), (''params'', Obj [(''name'', Str ''filter'')])]
    = Return (unsupported (Str ''drop'') # errs, Return (NfErr ''no cmd option specified''))"
proof -
  have "returns (newNfAttributes (Str ''table'') (Obj [(''name'', Str ''filter'')]))" by code_simp
  then obtain arr where arr: "newNfAttributes (Str ''table'') (Obj [(''name'', Str ''filter'')]) = Return arr"
    by (auto simp: returns_iff)
  have "\<exists>errs. nf_command [(''command'', Str ''drop''), (''type'', Str ''table''), (''params'', Obj [(''name'', Str ''filter'')])]
    = Return (unsupported (obj_get [(''command'', Str ''drop''), (''type'', Str ''table''), (''params'', Obj [(''name'', Str ''filter'')])] ''command'')
        # errs, Return (NfErr ''no cmd option specified''))"
    by (rule unsupported_command_sent [where ty = "''table''" and arr = arr]) (simp_all add: arr)
  then show ?thesis by simp
qed

section \<open>The attribute walk\<close>

lemma nf_field_name_not_Diverge [simp]: "nf_field_name ks v \<noteq> Diverge"
  by (auto simp: nf_field_name_def Let_def split: option.splits)

lemma nf_attr_body_Return:
  assumes "nf_attr_body ks d i s = Return (j, s')"
  shows "\<exists>l. readUInt16LE d i = Return l \<and> j = i + 4 * nat ((l + 3) div 4) \<and> i + 4 \<le> length d"
proof -
  from assms obtain l t where l: "readUInt16LE d i = Return l" and t: "readUInt16LE d (i + 2) = Return t"
    and j: "j = nat (int i + (l + (if l mod 4 \<noteq> 0 then 4 - l mod 4 else 0)))"
    by (auto simp: nf_attr_body_def Let_def)
  have "i + 2 + 2 \<le> length d" using t readUInt16LE_returns_iff by blast
  moreover have "l + (if l mod 4 \<noteq> 0 then 4 - l mod 4 else 0) = 4 * ((l + 3) div 4)" by presburger
  moreover have "0 \<le> l" using readUInt16LE_range [OF l] by simp
  ultimately show ?thesis using l j by (auto simp: nat_add_distrib)
qed

interpretation nf_body: attr_body "nf_attr_body start_keys data" "length data" for start_keys data
proof unfold_locales
  fix i j :: nat and s s' :: props
  assume "nf_attr_body start_keys data i s = Return (j, s')"
  then show "i < length data \<and> i \<le> j" using nf_attr_body_Return by fastforce
next
  fix i j :: nat and s s' t :: props
  assume "nf_attr_body start_keys data i s = Return (j, s')"
  then obtain l ty fn where "readUInt16LE data i = Return l" "readUInt16LE data (i + 2) = Return ty"
    "nf_field_name start_keys ty = Return fn" "j = nat (int i + (l + (if l mod 4 \<noteq> 0 then 4 - l mod 4 else 0)))"
    by (auto simp: nf_attr_body_def Let_def)
  then show "\<exists>s''. nf_attr_body start_keys data i t = Return (j, s'')" by (simp add: nf_attr_body_def Let_def)
qed (simp add: nf_attr_body_def Let_def)

text \<open>What the walk stores for one attribute of a rule; a last attribute without padding is special.\<close>

definition nf_rule_name :: "nat \<Rightarrow> string" where
  "nf_rule_name t = toLowerCase (the (split_nth CHR ''_'' (fst (nft_rule_attributes ! t)) 2))"

definition nf_upd :: "bool \<Rightarrow> nat \<times> bytes \<Rightarrow> props \<Rightarrow> props" where
  "nf_upd is_last a ret =
     obj_set (nf_rule_name (fst a))
       (Buf (if is_last \<and> pad4 (length (snd a)) = 0 then take 4 (rtattr_enc a)
             else snd a @ replicate (pad4 (length (snd a))) 0)) ret"

definition nf_rule_attr_ok :: "nat \<times> bytes \<Rightarrow> bool" where
  "nf_rule_attr_ok a \<longleftrightarrow> rtattr_ok a \<and> fst a < 9"

lemma nf_rule_field_name: "t < 9 \<Longrightarrow> nf_field_name (Some nft_rule_attributes) (int t) = Return (nf_rule_name t)"
proof -
  have "list_all (\<lambda>t. nf_field_name (Some nft_rule_attributes) (int t) = Return (nf_rule_name t)) [0..<9]" by code_simp
  moreover assume "t < 9"
  then have "t \<in> set [0..<9]" by (simp only: set_upt atLeastLessThan_iff) simp
  ultimately show ?thesis unfolding list_all_iff by (rule bspec)
qed

lemma pad_up: "x + (if x mod 4 \<noteq> 0 then 4 - x mod 4 else 0) = 4 * ((x + 3) div 4)" for x :: int
  by (cases "x mod 4 = 0"; simp; presburger)

lemma nf_step:
  assumes "nf_rule_attr_ok a"
  shows "nf_attr_body (Some nft_rule_attributes) (pre @ rtattr_enc a @ post) (length pre) s
    = Return (length pre + length (rtattr_enc a), nf_upd (post = []) a s)"
proof -
  obtain t d where a: "a = (t, d)" by (cases a)
  define p where "p = replicate (pad4 (length d)) (0::byte)"
  have ok: "int t < 65536" "4 + int (length d) < 65536" "t < 9" using assms by (auto simp: nf_rule_attr_ok_def rtattr_ok_def a)
  have enc: "rtattr_enc a = le_bytes 2 (4 + int (length d)) @ le_bytes 2 (int t) @ d @ p"
    by (simp add: rtattr_enc_def a p_def)
  have 1: "readUInt16LE (pre @ rtattr_enc a @ post) (length pre) = Return (4 + int (length d))"
    unfolding enc append_assoc using ok by (intro readUInt16LE_at) auto
  have 2: "readUInt16LE (pre @ rtattr_enc a @ post) (length pre + 2) = Return (int t)"
    using readUInt16LE_at [of "pre @ le_bytes 2 (4 + int (length d))" "length pre + 2" "int t" "(d @ p) @ post"] ok
    by (simp add: enc)
  have len: "length (rtattr_enc a) = 4 + length d + length p" by (simp add: enc)
  have "4 + int (length d) + (if (4 + int (length d)) mod 4 \<noteq> 0 then 4 - (4 + int (length d)) mod 4 else 0)
      = int (4 + length d) + (4 * ((int (4 + length d) + 3) div 4) - int (4 + length d))"
    using pad_up [of "4 + int (length d)"] by simp
  also have "\<dots> = int (length (rtattr_enc a))" unfolding round_up_4 by (simp add: len p_def)
  finally have rl: "4 + int (length d) + (if (4 + int (length d)) mod 4 \<noteq> 0 then 4 - (4 + int (length d)) mod 4 else 0)
      = int (length (rtattr_enc a))" .
  have rem: "4 + int (length d) = int (length (pre @ rtattr_enc a @ post)) - int (length pre) \<longleftrightarrow> post = [] \<and> pad4 (length d) = 0"
    by (cases post) (auto simp: len p_def)
  have v1: "js_slice (pre @ rtattr_enc a @ post) (int (length pre)) (int (length pre) + 4) = take 4 (rtattr_enc a)"
    using js_slice_middle [of pre "length pre" "take 4 (rtattr_enc a)" "length pre + 4" "drop 4 (rtattr_enc a) @ post"]
    by (simp add: len flip: append_assoc)
  have v2: "js_slice (pre @ rtattr_enc a @ post) (int (length pre) + 4) (int (length pre) + int (length (rtattr_enc a))) = d @ p"
    using js_slice_middle [of "pre @ le_bytes 2 (4 + int (length d)) @ le_bytes 2 (int t)" "length pre + 4" "d @ p"
        "length pre + length (rtattr_enc a)" post] by (simp add: enc add.left_commute)
  show ?thesis
    unfolding nf_attr_body_def 1 2 run_bind.simps Let_def nf_rule_field_name [OF ok(3)] rl rem v1 v2
    by (auto simp: nf_upd_def a p_def)
qed

interpretation nf_stream: attr_stream "nf_attr_body (Some nft_rule_attributes)" rtattr_enc nf_upd nf_rule_attr_ok
proof unfold_locales
  fix a :: "nat \<times> bytes"
  show "rtattr_enc a \<noteq> []" using length_rtattr_enc [of a] by auto
qed (rule nf_step)

text \<open>
  C33. The attributes of a rule, encoded one after the other, are read back under the names of the rule
  table, each with its padding, except that a last attribute whose data needs no padding is replaced by
  its own header of four bytes.
\<close>

theorem nf_parseAttrs_rule:
  assumes "list_all nf_rule_attr_ok as"
  shows "nf_parseAttrs (pre @ concat (map rtattr_enc as)) (length pre)
      (int (length (pre @ concat (map rtattr_enc as)))) (Some nft_rule_attributes) = Return (fold_last nf_upd as [])"
proof -
  have "length as < Suc (length (pre @ concat (map rtattr_enc as)))"
    using length_attrs [of as] by simp
  then show ?thesis unfolding nf_parseAttrs_def by (rule nf_stream.decode [OF assms])
qed

lemma nf_parseAttrs_rule_witness:
  "nf_parseAttrs ([1, 2] @ concat (map rtattr_enc [(1, [102, 0]), (3, [0, 0, 0, 7])])) (length [1, 2 :: byte])
      (int (length ([1, 2] @ concat (map rtattr_enc [(1, [102, 0]), (3, [0, 0, 0, 7])])))) (Some nft_rule_attributes)
    = Return (fold_last nf_upd [(1, [102, 0]), (3, [0, 0, 0, 7])] [])"
  by (rule nf_parseAttrs_rule) (simp add: nf_rule_attr_ok_def rtattr_ok_def)

text \<open>
  C34. The walk over a reply does not end exactly when it reaches a header of length zero that its table
  of names knows.
\<close>

theorem nf_parseAttrs_diverges_iff:
  "nf_parseAttrs data index total_len start_keys = Diverge \<longleftrightarrow>
     (\<exists>k ty fn. walk (nf_attr_body start_keys data) index k \<and> int k < total_len
        \<and> readUInt16LE data k = Return 0 \<and> readUInt16LE data (k + 2) = Return ty \<and> nf_field_name start_keys ty = Return fn)"
proof -
  have stuck: "(\<exists>t t'. nf_attr_body start_keys data k t = Return (k, t')) \<longleftrightarrow>
      (\<exists>ty fn. readUInt16LE data k = Return 0 \<and> readUInt16LE data (k + 2) = Return ty \<and> nf_field_name start_keys ty = Return fn)" for k
  proof
    assume "\<exists>t t'. nf_attr_body start_keys data k t = Return (k, t')"
    then obtain t t' where r: "nf_attr_body start_keys data k t = Return (k, t')" by blast
    then obtain l where l: "readUInt16LE data k = Return l" "k = k + 4 * nat ((l + 3) div 4)"
      using nf_attr_body_Return by blast
    moreover have "0 \<le> l" using readUInt16LE_range [OF l(1)] by simp
    ultimately have "readUInt16LE data k = Return 0" by simp
    with r show "\<exists>ty fn. readUInt16LE data k = Return 0 \<and> readUInt16LE data (k + 2) = Return ty \<and> nf_field_name start_keys ty = Return fn"
      by (auto simp: nf_attr_body_def Let_def)
  next
    assume "\<exists>ty fn. readUInt16LE data k = Return 0 \<and> readUInt16LE data (k + 2) = Return ty \<and> nf_field_name start_keys ty = Return fn"
    then show "\<exists>t t'. nf_attr_body start_keys data k t = Return (k, t')" by (auto simp: nf_attr_body_def Let_def)
  qed
  show ?thesis unfolding nf_parseAttrs_def
    using nf_body.diverge_iff [of data "Suc (length data)" index start_keys total_len "[]"] stuck by auto
qed

text \<open>
  Replies about anything but rules: with at least one attribute, reading the names of the undefined
  table throws, out of \<open>generateNetfilterResponse\<close>.
\<close>

theorem parseNfattributes_non_rule:
  assumes "22 < length d" "readUInt32LE d 0 = Return (int (length d))" "readUInt16LE d 4 = Return t"
    "js_and t 255 \<in> {0, 1, 2, 3, 4, 5, 9, 10, 11, 12, 13, 14}"
  shows "\<exists>e. parseNfattributes d = Throw e"
proof -
  obtain name where k: "nf_kind (js_and t 255) = Some (None, name)" using assms(4) by (auto simp: nf_kind_def)
  have "\<exists>e. nf_attr_body None d 20 [] = Throw e"
    using readUInt16LE_cases [of d 20] readUInt16LE_cases [of d "20 + 2"]
    by (auto simp: nf_attr_body_def nf_field_name_def Let_def)
  then have "\<exists>e. nf_parseAttrs d 20 (int (length d)) None = Throw e"
    using assms(1) by (auto simp: nf_parseAttrs_def)
  then show ?thesis using assms k by (auto simp: parseNfattributes_def Let_def)
qed

lemma parseNfattributes_non_rule_witness:
  "\<exists>e. parseNfattributes ([28, 0, 0, 0, 0, 10, 2, 0] @ replicate 8 0 @ [2, 0, 0, 0, 8, 0, 1, 0, 97, 98, 99, 0]) = Throw e"
  by (rule parseNfattributes_non_rule [where t = 2560]) code_simp+

text \<open>
  The type of a reply is compared without its subsystem: a reply that announces a chain (message 3
  of the subsystem) passes for the end of a dump, and one that deletes a table (2) for an error.
\<close>

theorem response_type_confusion:
  assumes "readUInt16LE d 4 = Return (2560 + n)" "n \<in> {2, 3}"
  shows "generateNetfilterResponse (d # ds) = Return (if n = 3 then Arr [] else Obj [])"
proof -
  have "js_and 2563 255 = 3" "js_and 2562 255 = 2" by (simp_all add: js_and_255)
  with assms show ?thesis by (auto simp: generateNetfilterResponse_def Let_def)
qed

lemma response_type_confusion_witness:
  "generateNetfilterResponse [[20, 0, 0, 0, 3, 10, 2, 0] @ replicate 12 0] = Return (if (3 :: int) = 3 then Arr [] else Obj [])"
  by (rule response_type_confusion) (code_simp, simp)

end
