(* ===== verification/NfGrammar.thy ===== *)
theory NfGrammar
  imports Peg Common NfNetlink
begin

text \<open>
  The rule grammar of \<open>nf/node-netfilter.js\<close>: one definition per generated function
  \<open>peg$parse...\<close> and per action \<open>peg$cN\<close> that computes something, over the generated
  code shapes of \<open>Peg\<close>. The value of a repeated character class is a string, the \<open>join("")\<close> of
  which is itself; objects that leave the parser are \<open>jsval\<close>s, the others are tuples.
\<close>

section \<open>Lexical rules\<close>

definition is_blank :: "char \<Rightarrow> bool" where
  "is_blank c \<longleftrightarrow> c = CHR '' '' \<or> c = CHR 0x09"

definition digit_class :: "char peg" where
  "digit_class = peg_class is_digit ''[0-9]''"

definition alpha_class :: "char peg" where
  "alpha_class = peg_class is_alpha ''[a-zA-Z]''"

definition xdigit_class :: "char peg" where
  "xdigit_class = peg_class is_xdigit ''[0-9a-fA-F]''"

definition blank_class :: "char peg" where
  "blank_class = peg_class is_blank (''[ '' @ [CHR 0x5C] @ ''t]'')"

definition peg_parse_blanks1 :: "string peg" where
  "peg_parse_blanks1 = peg_plus blank_class"

definition peg_parse_blanks0 :: "string peg" where
  "peg_parse_blanks0 = peg_star blank_class"

section \<open>Numbers\<close>

text \<open>
  Numbers are doubles; \<open>None\<close> is \<open>NaN\<close>. \<open>nibbles.join("")\<close> joins the prefix with the array of digits,
  and an array becomes a string with commas between its elements, where \<open>parseInt\<close> stops.
\<close>

definition peg_c109 :: "string \<times> string \<Rightarrow> int option" where
  "peg_c109 nibbles =
     double_of (parseInt 16 (join_with [] [fst nibbles, join_with '','' (map (\<lambda>c. [c]) (snd nibbles))]))"

definition peg_parsehex :: "int option peg" where
  "peg_parsehex =
     peg_bind
       (peg_bind (peg_literal ''0x'') (\<lambda>pre. peg_bind (peg_plus xdigit_class) (\<lambda>ds. peg_return (pre, ds))))
       (\<lambda>nibbles. peg_return (peg_c109 nibbles))"

definition peg_c110 :: "string \<Rightarrow> int option" where
  "peg_c110 digits = double_of (parseInt 10 digits)"

definition peg_parsedecimal :: "int option peg" where
  "peg_parsedecimal = peg_bind (peg_plus digit_class) (\<lambda>digits. peg_return (peg_c110 digits))"

text \<open>\<open>num.toString(16)\<close>; the doubles from \<open>2 ^ 1024\<close> on are infinite.\<close>

definition number_to_hex :: "int option \<Rightarrow> string" where
  "number_to_hex num =
     (case num of
        None \<Rightarrow> ''NaN''
      | Some n \<Rightarrow> if n \<ge> 2 ^ 1024 then ''Infinity'' else nat_to_radix 16 (nat n))"

function pad_zeros :: "int \<Rightarrow> string \<Rightarrow> string" where
  "pad_zeros pad numstr = (if int (length numstr) < pad then pad_zeros pad (CHR ''0'' # numstr) else numstr)"
  by auto
termination by (relation "measure (\<lambda>(pad, numstr). nat (pad - int (length numstr)))") auto

declare pad_zeros.simps [simp del]

definition nft_int :: "(string \<times> int) list \<Rightarrow> string \<Rightarrow> int" where
  "nft_int tab k = the (map_of tab k)"

definition elem_object :: "string \<Rightarrow> props \<Rightarrow> jsval" where
  "elem_object name data = Obj [(''elem'', Obj [(''name'', Str name), (''data'', Obj data)])]"

definition cmp_object :: "string \<Rightarrow> jsval" where
  "cmp_object v =
     elem_object ''cmp''
       [(''SREG'', Num (nft_int nft_registers ''NFT_REG_1'')), (''OP'', Num (nft_int nft_cmp_ops ''NFT_CMP_EQ'')),
        (''DATA'', Obj [(''VALUE'', Str v)])]"

text \<open>The value of a criterion: \<open>value[0]\<close> of a number, \<open>value[0]\<close> and \<open>value[1]\<close> of an address.\<close>

datatype crit_value = NumberValue jsval | AddressValue jsval jsval

definition peg_c85 :: "int option \<Rightarrow> int \<Rightarrow> crit_value" where
  "peg_c85 num payload = NumberValue (cmp_object (''0x'' @ pad_zeros (payload * 2) (number_to_hex num)))"

definition peg_parsenumber :: "crit_value peg" where
  "peg_parsenumber =
     peg_bind (peg_alt peg_parsehex peg_parsedecimal) (\<lambda>num.
     peg_bind peg_parse_blanks1 (\<lambda>_. peg_with_payload_len (peg_c85 num)))"

section \<open>Addresses\<close>

text \<open>The variable \<open>ipfamily\<close> is set when the parser starts and never again.\<close>

definition ipfamily :: string where
  "ipfamily = ''ip''"

definition peg_parseoctets :: "string list peg" where
  "peg_parseoctets =
     peg_bind (peg_plus digit_class) (\<lambda>oct1. peg_bind (peg_literal ''.'') (\<lambda>_.
     peg_bind (peg_plus digit_class) (\<lambda>oct2. peg_bind (peg_literal ''.'') (\<lambda>_.
     peg_bind (peg_plus digit_class) (\<lambda>oct3. peg_bind (peg_literal ''.'') (\<lambda>_.
     peg_bind (peg_plus digit_class) (\<lambda>oct4. peg_return [oct1, oct2, oct3, oct4])))))))"

text \<open>\<open>addr.writeUInt8(parseInt(octet, 10), i)\<close> checks its value.\<close>

definition octet_byte :: "string \<Rightarrow> byte run" where
  "octet_byte octet =
     (case parseInt 10 octet of
        None \<Rightarrow> Return 0
      | Some v \<Rightarrow> if v < 0 \<or> 255 < v then Throw TypeError else Return (word_of_int v))"

definition peg_c87 :: "string list \<Rightarrow> jsval run" where
  "peg_c87 octets =
     (if ipfamily \<noteq> ''ip'' then Throw (JsError ''family != ip when ip address detected'')
      else run_bind (run_map octet_byte octets) (\<lambda>addr. Return (cmp_object (''0x'' @ to_hex addr))))"

definition peg_parseipv4addr :: "jsval peg" where
  "peg_parseipv4addr = peg_bind peg_parseoctets (\<lambda>octets. peg_run (peg_c87 octets))"

text \<open>\<open>cd.join("")\<close>, where a digit that is missing is \<open>null\<close>.\<close>

definition join_digits :: "char option list \<Rightarrow> string" where
  "join_digits cd = concat (map (\<lambda>d. case d of Some c \<Rightarrow> [c] | None \<Rightarrow> []) cd)"

definition cidr_value :: "char option list \<Rightarrow> nat" where
  "cidr_value cd = (case parseInt 10 (join_digits cd) of Some v \<Rightarrow> nat v | None \<Rightarrow> 0)"

definition peg_c92 :: "char option list \<Rightarrow> string \<times> int" where
  "peg_c92 cd = (maskFromCidr (cidr_value cd) ''inet'', 4)"

definition peg_parseipv4cidr :: "(string \<times> int) peg" where
  "peg_parseipv4cidr =
     peg_bind (peg_literal ''/'') (\<lambda>_.
     peg_bind
       (peg_bind digit_class (\<lambda>d1. peg_bind (peg_opt digit_class) (\<lambda>d2. peg_return [Some d1, d2])))
       (\<lambda>cd. peg_return (peg_c92 cd)))"

definition peg_c91 :: "char option list \<Rightarrow> string \<times> int" where
  "peg_c91 cd = (maskFromCidr (cidr_value cd) ''inet6'', 16)"

definition peg_parseipv6cidr :: "(string \<times> int) peg" where
  "peg_parseipv6cidr =
     peg_bind (peg_literal ''/'') (\<lambda>_.
     peg_bind
       (peg_bind digit_class (\<lambda>d1. peg_bind (peg_opt digit_class) (\<lambda>d2. peg_bind (peg_opt digit_class) (\<lambda>d3.
          peg_return [Some d1, d2, d3]))))
       (\<lambda>cd. peg_return (peg_c91 cd)))"

definition peg_c88 :: "string \<times> int \<Rightarrow> jsval" where
  "peg_c88 cidr =
     elem_object ''bitwise''
       [(''SREG'', Num (nft_int nft_registers ''NFT_REG_1'')), (''DREG'', Num (nft_int nft_registers ''NFT_REG_1'')),
        (''LEN'', Num (snd cidr)), (''MASK'', Obj [(''VALUE'', Str (''0x'' @ fst cidr))]),
        (''XOR'', Obj [(''VALUE'', Str ''0x00000000'')])]"

definition peg_parsecidr :: "jsval peg" where
  "peg_parsecidr = peg_bind (peg_alt peg_parseipv4cidr peg_parseipv6cidr) (\<lambda>cidr. peg_return (peg_c88 cidr))"

definition peg_parseipv4 :: "crit_value peg" where
  "peg_parseipv4 =
     peg_bind peg_parseipv4addr (\<lambda>addr. peg_bind peg_parsecidr (\<lambda>cd. peg_bind peg_parse_blanks1 (\<lambda>_.
       peg_return (AddressValue addr cd))))"

text \<open>\<open>q.join\<close> of \<open>null\<close> throws.\<close>

definition peg_parsestartquad :: "string peg" where
  "peg_parsestartquad =
     peg_bind (peg_opt (peg_plus xdigit_class))
       (\<lambda>q. peg_run (case q of None \<Rightarrow> Throw TypeError | Some ds \<Rightarrow> Return ds))"

definition peg_parsecontquad :: "(bool \<times> string) peg" where
  "peg_parsecontquad =
     peg_bind (peg_literal '':'') (\<lambda>_. peg_bind (peg_plus xdigit_class) (\<lambda>q. peg_return (False, q)))"

definition peg_parseskipequad :: "(bool \<times> string) peg" where
  "peg_parseskipequad =
     peg_bind (peg_literal ''::'') (\<lambda>_. peg_bind (peg_plus xdigit_class) (\<lambda>q. peg_return (True, q)))"

definition peg_parsenextequad :: "(bool \<times> string) peg" where
  "peg_parsenextequad = peg_bind (peg_alt peg_parsecontquad peg_parseskipequad) (\<lambda>q. peg_return q)"

text \<open>
  \<open>buf.writeUInt16BE(val, offset, noAssert)\<close> with a true \<open>noAssert\<close>: the value is taken modulo
  \<open>2 ^ 16\<close>, and bytes outside the buffer are not written.
\<close>

definition write16_noAssert :: "bytes \<Rightarrow> int option \<Rightarrow> int \<Rightarrow> bytes" where
  "write16_noAssert buf val off =
     (let v = (case val of Some n \<Rightarrow> n | None \<Rightarrow> 0) in
      if off < 0 then buf
      else buf[nat off := word_of_int (v div 256), Suc (nat off) := word_of_int v])"

fun quads_loop :: "nat \<Rightarrow> (bool \<times> string) list \<Rightarrow> bytes \<Rightarrow> int \<Rightarrow> nat \<Rightarrow> bytes" where
  "quads_loop n [] buf sindex written = buf"
| "quads_loop n ((skip, q) # nx) buf sindex written =
     (let sindex' = (if skip then (8 - (int n - int written + 1)) * 2 else sindex)
      in quads_loop n nx (write16_noAssert buf (double_of (parseInt 16 q)) sindex') (sindex' + 2) (written + 1))"

definition peg_c96 :: "string option \<Rightarrow> (bool \<times> string) list \<Rightarrow> string" where
  "peg_c96 st nx =
     (let buf = replicate 16 0 in
      to_hex
        (case st of
           Some s \<Rightarrow> quads_loop (length nx) nx (write16_noAssert buf (double_of (parseInt 16 s)) 0) 2 1
         | None \<Rightarrow> quads_loop (length nx) nx buf 0 0))"

definition peg_parsequads :: "string peg" where
  "peg_parsequads =
     peg_bind (peg_opt peg_parsestartquad) (\<lambda>st. peg_bind (peg_star peg_parsenextequad) (\<lambda>nx.
       peg_return (peg_c96 st nx)))"

definition peg_c86 :: "string \<Rightarrow> jsval run" where
  "peg_c86 quads =
     (if ipfamily \<noteq> ''ip6'' then Throw (JsError ''family != ip6 when ipv6 address detected'')
      else Return (cmp_object (''0x'' @ quads)))"

definition peg_parseipv6addr :: "jsval peg" where
  "peg_parseipv6addr = peg_bind peg_parsequads (\<lambda>quads. peg_run (peg_c86 quads))"

definition peg_parseipv6 :: "crit_value peg" where
  "peg_parseipv6 =
     peg_bind peg_parseipv6addr (\<lambda>addr. peg_bind peg_parsecidr (\<lambda>cd. peg_bind peg_parse_blanks1 (\<lambda>_.
       peg_return (AddressValue addr cd))))"

definition peg_parseaddress :: "crit_value peg" where
  "peg_parseaddress = peg_bind (peg_alt peg_parseipv4 peg_parseipv6) (\<lambda>ip. peg_return ip)"

definition peg_parsevalue :: "crit_value peg" where
  "peg_parsevalue = peg_bind (peg_alt peg_parsenumber peg_parseaddress) (\<lambda>val. peg_return val)"

section \<open>Fields\<close>

text \<open>Offset and size of a header field.\<close>

type_synonym hdr_field = "int \<times> int"

definition peg_parseipprotocol :: "hdr_field peg" where
  "peg_parseipprotocol =
     peg_bind (peg_literal ''prot'')
       (\<lambda>_. peg_return (nft_int iphdr_offsets ''protocol'', nft_int iphdr_sizes ''protocol''))"

definition peg_c124 :: hdr_field where
  "peg_c124 =
     (if ipfamily = ''ip'' then (nft_int iphdr_offsets ''saddr'', nft_int iphdr_sizes ''saddr'')
      else (nft_int ipv6hdr_offsets ''saddr'', nft_int ipv6hdr_sizes ''saddr''))"

definition peg_parsesaddr :: "hdr_field peg" where
  "peg_parsesaddr = peg_bind (peg_literal ''saddr'') (\<lambda>_. peg_return peg_c124)"

definition peg_c127 :: hdr_field where
  "peg_c127 =
     (if ipfamily = ''ip'' then (nft_int iphdr_offsets ''daddr'', nft_int iphdr_sizes ''daddr'')
      else (nft_int ipv6hdr_offsets ''daddr'', nft_int ipv6hdr_sizes ''daddr''))"

definition peg_parsedaddr :: "hdr_field peg" where
  "peg_parsedaddr = peg_bind (peg_literal ''daddr'') (\<lambda>_. peg_return peg_c127)"

definition peg_parsedport :: "hdr_field peg" where
  "peg_parsedport =
     peg_bind (peg_literal ''dport'')
       (\<lambda>_. peg_return (nft_int tcphdr_offsets ''dest'', nft_int tcphdr_sizes ''dest''))"

text \<open>The rule for source ports is generated but no other rule refers to it.\<close>

definition peg_parsesport :: "hdr_field peg" where
  "peg_parsesport =
     peg_bind (peg_literal ''sport'')
       (\<lambda>_. peg_return (nft_int tcphdr_offsets ''source'', nft_int tcphdr_sizes ''source''))"

definition payload_object :: "string \<Rightarrow> hdr_field \<Rightarrow> jsval" where
  "payload_object base field =
     elem_object ''payload''
       [(''DREG'', Num (nft_int nft_registers ''NFT_REG_1'')), (''BASE'', Num (nft_int nft_payload_bases base)),
        (''OFFSET'', Num (fst field)), (''LEN'', Num (snd field))]"

text \<open>The actions \<open>peg$c84\<close> and \<open>peg$c83\<close> remember the size of the field in \<open>payload_len\<close>.\<close>

definition peg_parsetransport_header :: "jsval peg" where
  "peg_parsetransport_header =
     peg_bind (peg_alt peg_parseipprotocol peg_parsedport) (\<lambda>field. peg_bind peg_parse_blanks1 (\<lambda>_.
       peg_set_payload_len (snd field) (payload_object ''NFT_PAYLOAD_TRANSPORT_HEADER'' field)))"

definition peg_parsenetwork_header :: "jsval peg" where
  "peg_parsenetwork_header =
     peg_bind (peg_alt peg_parsesaddr peg_parsedaddr) (\<lambda>field. peg_bind peg_parse_blanks1 (\<lambda>_.
       peg_set_payload_len (snd field) (payload_object ''NFT_PAYLOAD_NETWORK_HEADER'' field)))"

definition peg_parsefield :: "jsval peg" where
  "peg_parsefield = peg_bind (peg_alt peg_parsetransport_header peg_parsenetwork_header) (\<lambda>hd. peg_return hd)"

definition peg_parserule_criteria :: "(jsval \<times> crit_value) peg" where
  "peg_parserule_criteria =
     peg_bind peg_parsefield (\<lambda>fd. peg_bind peg_parsevalue (\<lambda>vl. peg_return (fd, vl)))"

section \<open>Protocol and action\<close>

definition peg_parsetcp :: "string peg" where
  "peg_parsetcp = peg_bind (peg_literal ''tcp'') (\<lambda>_. peg_return ''0x06'')"

definition peg_parseudp :: "string peg" where
  "peg_parseudp = peg_bind (peg_literal ''udp'') (\<lambda>_. peg_return ''0x11'')"

definition peg_c81 :: "string \<Rightarrow> jsval list" where
  "peg_c81 prot =
     [payload_object ''NFT_PAYLOAD_NETWORK_HEADER'' (nft_int iphdr_offsets ''protocol'', nft_int iphdr_sizes ''protocol''),
      cmp_object prot]"

definition peg_parseprotocol :: "jsval list peg" where
  "peg_parseprotocol =
     peg_bind (peg_alt peg_parsetcp peg_parseudp) (\<lambda>prot. peg_bind peg_parse_blanks1 (\<lambda>_. peg_return (peg_c81 prot)))"

definition verdict_object :: "int \<Rightarrow> jsval" where
  "verdict_object code =
     elem_object ''immediate''
       [(''DREG'', Num (nft_int nft_registers ''NFT_REG_VERDICT'')),
        (''DATA'', Obj [(''VERDICT'', Obj [(''CODE'', Num code)])])]"

definition peg_parsedrop :: "jsval peg" where
  "peg_parsedrop = peg_bind (peg_literal ''drop'') (\<lambda>_. peg_return (verdict_object 0))"

definition peg_parseaccept :: "jsval peg" where
  "peg_parseaccept = peg_bind (peg_literal ''accept'') (\<lambda>_. peg_return (verdict_object 1))"

definition peg_parseaction :: "jsval peg" where
  "peg_parseaction = peg_alt peg_parsedrop peg_parseaccept"

section \<open>Tables, chains and rules\<close>

definition peg_parsetable :: "string peg" where
  "peg_parsetable = peg_bind (peg_plus alpha_class) (\<lambda>ta. peg_bind peg_parse_blanks0 (\<lambda>_. peg_return ta))"

definition peg_parsechain :: "string peg" where
  "peg_parsechain =
     peg_bind (peg_plus alpha_class) (\<lambda>chain. peg_bind (peg_opt peg_parse_blanks1) (\<lambda>_. peg_return chain))"

definition peg_parsetable_expression :: "jsval peg" where
  "peg_parsetable_expression = peg_bind peg_parsetable (\<lambda>ta. peg_return (Obj [(''name'', Str ta)]))"

definition peg_parsehooktype :: "string peg" where
  "peg_parsehooktype = peg_alt (peg_literal ''filter'') (peg_alt (peg_literal ''route'') (peg_literal ''nat''))"

definition peg_parsehooknum :: "int peg" where
  "peg_parsehooknum =
     peg_alt (peg_bind (peg_literal ''prerouting'') (\<lambda>_. peg_return 0))
    (peg_alt (peg_bind (peg_literal ''input'') (\<lambda>_. peg_return 1))
    (peg_alt (peg_bind (peg_literal ''forward'') (\<lambda>_. peg_return 2))
    (peg_alt (peg_bind (peg_literal ''output'') (\<lambda>_. peg_return 3))
             (peg_bind (peg_literal ''postrouting'') (\<lambda>_. peg_return 4)))))"

definition peg_parsehookprio :: "string peg" where
  "peg_parsehookprio = peg_bind (peg_plus digit_class) (\<lambda>pr. peg_return pr)"

definition peg_c43 :: "string \<Rightarrow> string \<Rightarrow> string \<Rightarrow> int \<Rightarrow> string \<Rightarrow> jsval" where
  "peg_c43 tb ch ht hn hp =
     Obj [(''table'', Str tb), (''name'', Str ch), (''type'', Str ht),
          (''hook'', Obj [(''hooknum'', Num hn), (''priority'', Str hp)])]"

definition peg_parsehook_expression :: "jsval peg" where
  "peg_parsehook_expression =
     peg_bind peg_parsetable (\<lambda>tb.
     peg_bind peg_parsechain (\<lambda>ch.
     peg_bind (peg_literal ''{'') (\<lambda>_.
     peg_bind peg_parse_blanks0 (\<lambda>_.
     peg_bind (peg_literal ''type'') (\<lambda>_.
     peg_bind peg_parse_blanks1 (\<lambda>_.
     peg_bind peg_parsehooktype (\<lambda>ht.
     peg_bind peg_parse_blanks1 (\<lambda>_.
     peg_bind (peg_literal ''hook'') (\<lambda>_.
     peg_bind peg_parse_blanks1 (\<lambda>_.
     peg_bind peg_parsehooknum (\<lambda>hn.
     peg_bind peg_parse_blanks1 (\<lambda>_.
     peg_bind (peg_literal ''priority'') (\<lambda>_.
     peg_bind peg_parse_blanks1 (\<lambda>_.
     peg_bind peg_parsehookprio (\<lambda>hp.
     peg_bind peg_parse_blanks0 (\<lambda>_.
     peg_bind (peg_literal ''}'') (\<lambda>_.
     peg_return (peg_c43 tb ch ht hn hp))))))))))))))))))"

text \<open>The mask of an address comes before its value.\<close>

fun criteria_loop :: "(jsval \<times> crit_value) list \<Rightarrow> jsval list \<Rightarrow> jsval list" where
  "criteria_loop [] exprs = exprs"
| "criteria_loop ((fld, val) # ctr) exprs =
     criteria_loop ctr
       (case val of
          AddressValue addr cd \<Rightarrow> exprs @ [fld, cd, addr]
        | NumberValue v \<Rightarrow> exprs @ [fld, v])"

definition peg_c30 :: "string \<Rightarrow> string \<Rightarrow> jsval list \<Rightarrow> (jsval \<times> crit_value) list \<Rightarrow> jsval \<Rightarrow> jsval" where
  "peg_c30 tb ch pt ctr act =
     (let exprs = criteria_loop ctr [pt ! 0, pt ! 1] @ [act]
      in Obj [(''expressions'', Arr exprs), (''table'', Str tb), (''chain'', Str ch)])"

definition peg_parserule_expression :: "jsval peg" where
  "peg_parserule_expression =
     peg_bind peg_parsetable (\<lambda>tb.
     peg_bind peg_parsechain (\<lambda>ch.
     peg_bind peg_parseprotocol (\<lambda>pt.
     peg_bind (peg_plus peg_parserule_criteria) (\<lambda>ctr.
     peg_bind peg_parseaction (\<lambda>act.
     peg_return (peg_c30 tb ch pt ctr act))))))"

section \<open>Commands\<close>

text \<open>
  The pair is the object with the properties \<open>ty\<close> and \<open>ex\<close>. A missing rule is \<open>null\<close>, the type of which is
  not \<open>undefined\<close>, so \<open>peg$c28\<close> always takes its second branch.
\<close>

definition peg_c28 :: "jsval option \<Rightarrow> string \<times> jsval" where
  "peg_c28 ru = (''rule'', case ru of None \<Rightarrow> Null | Some r \<Rightarrow> r)"

definition peg_parsecommand_expression :: "(string \<times> jsval) peg" where
  "peg_parsecommand_expression =
     peg_alt
       (peg_bind (peg_literal ''table'') (\<lambda>_. peg_bind peg_parse_blanks1 (\<lambda>_.
          peg_bind peg_parsetable_expression (\<lambda>tb. peg_return (''table'', tb)))))
    (peg_alt
       (peg_bind (peg_literal ''chain'') (\<lambda>_. peg_bind peg_parse_blanks1 (\<lambda>_.
          peg_bind peg_parsehook_expression (\<lambda>ch. peg_return (''chain'', ch)))))
       (peg_bind (peg_literal ''rule'') (\<lambda>_. peg_bind peg_parse_blanks0 (\<lambda>_.
          peg_bind (peg_opt peg_parserule_expression) (\<lambda>ru. peg_return (peg_c28 ru))))))"

definition peg_parsefamily :: "string peg" where
  "peg_parsefamily =
     peg_bind (peg_alt (peg_literal ''ip6'') (peg_literal ''ip''))
       (\<lambda>family. peg_bind peg_parse_blanks1 (\<lambda>_. peg_return family))"

definition peg_parseoperation :: "string peg" where
  "peg_parseoperation =
     peg_bind
       (peg_alt (peg_literal ''add'') (peg_alt (peg_literal ''del'') (peg_alt (peg_literal ''list'')
       (peg_alt (peg_literal ''get'') (peg_literal ''flush'')))))
       (\<lambda>op. peg_bind peg_parse_blanks1 (\<lambda>_. peg_return op))"

definition peg_c3 :: "string \<Rightarrow> string option \<Rightarrow> string \<times> jsval \<Rightarrow> props" where
  "peg_c3 op fm ce =
     [(''command'', Str op), (''type'', Str (fst ce)),
      (''family'', Str (case fm of None \<Rightarrow> ipfamily | Some f \<Rightarrow> f))] @
     (if snd ce \<noteq> Null \<and> snd ce \<noteq> Undef then [(''params'', snd ce)] else [])"

definition peg_parsecommand :: "props peg" where
  "peg_parsecommand =
     peg_bind peg_parseoperation (\<lambda>op. peg_bind (peg_opt peg_parsefamily) (\<lambda>fm.
     peg_bind peg_parsecommand_expression (\<lambda>ce. peg_return (peg_c3 op fm ce))))"

definition peg_parsestart :: "props peg" where
  "peg_parsestart = peg_bind peg_parsecommand (\<lambda>command. peg_return command)"

definition nf_parse :: "string \<Rightarrow> props run" where
  "nf_parse inp = peg_parse peg_parsestart inp"

text \<open>\<open>nfcommand.command\<close> from the text of the command on.\<close>

definition nf_command_text :: "string \<Rightarrow> (string list \<times> nf_sent run) run" where
  "nf_command_text command = run_bind (nf_parse command) nf_command"

lemmas peg_parse_defs =
  peg_parsehex_def peg_parsedecimal_def peg_parsenumber_def peg_parseoctets_def peg_parseipv4addr_def
  peg_parseipv4cidr_def peg_parseipv6cidr_def peg_parsecidr_def peg_parseipv4_def peg_parsestartquad_def
  peg_parsecontquad_def peg_parseskipequad_def peg_parsenextequad_def peg_parsequads_def
  peg_parseipv6addr_def peg_parseipv6_def peg_parseaddress_def peg_parsevalue_def

end
