(* ===== verification/NfLanguage.thy ===== *)
theory NfLanguage
  imports NfGrammar
begin

text \<open>
  The language of the rule grammar, described independently of the parser: an abstract syntax of
  commands, the texts that spell a command, and the options object a command stands for. The parser
  accepts exactly the spellings of well-formed commands and returns their objects (\<open>nf_parse_iff\<close>).
\<close>

section \<open>Abstract syntax\<close>

datatype number_lit = Dec string | Hex string

datatype value_lit =
    NumberLit number_lit
  | CidrLit string string string string string \<comment> \<open>four octets and the prefix length\<close>

type_synonym crit_lit = "string \<times> value_lit"

datatype object_lit =
    TableLit string
  | ChainLit string string string string string \<comment> \<open>table, chain, type, hook, priority\<close>
  | RuleLit string string string "crit_lit list" string \<comment> \<open>table, chain, protocol, criteria, action\<close>
  | RulesLit

datatype command_lit = CommandLit string "string option" object_lit

definition is_name :: "string \<Rightarrow> bool" where
  "is_name s \<longleftrightarrow> s \<noteq> [] \<and> (\<forall>c \<in> set s. is_alpha c)"

definition is_digits :: "string \<Rightarrow> bool" where
  "is_digits s \<longleftrightarrow> s \<noteq> [] \<and> (\<forall>c \<in> set s. is_digit c)"

definition is_xdigits :: "string \<Rightarrow> bool" where
  "is_xdigits s \<longleftrightarrow> s \<noteq> [] \<and> (\<forall>c \<in> set s. is_xdigit c)"

fun wf_number :: "number_lit \<Rightarrow> bool" where
  "wf_number (Dec ds) = is_digits ds"
| "wf_number (Hex ds) = is_xdigits ds"

definition is_octet :: "string \<Rightarrow> bool" where
  "is_octet s \<longleftrightarrow> is_digits s \<and> digits_value 10 s \<le> 255"

fun wf_value :: "value_lit \<Rightarrow> bool" where
  "wf_value (NumberLit n) = wf_number n"
| "wf_value (CidrLit a b c d p) = (is_octet a \<and> is_octet b \<and> is_octet c \<and> is_octet d \<and> is_digits p \<and> length p \<le> 2)"

definition field_names :: "string list" where
  "field_names = [''prot'', ''dport'', ''saddr'', ''daddr'']"

definition hook_types :: "string list" where
  "hook_types = [''filter'', ''route'', ''nat'']"

definition hook_names :: "string list" where
  "hook_names = [''prerouting'', ''input'', ''forward'', ''output'', ''postrouting'']"

definition operations :: "string list" where
  "operations = [''add'', ''del'', ''list'', ''get'', ''flush'']"

fun wf_crit :: "crit_lit \<Rightarrow> bool" where
  "wf_crit (f, v) = (f \<in> set field_names \<and> wf_value v)"

fun wf_object :: "object_lit \<Rightarrow> bool" where
  "wf_object (TableLit n) = is_name n"
| "wf_object (ChainLit tb ch ht hk pr) =
     (is_name tb \<and> is_name ch \<and> ht \<in> set hook_types \<and> hk \<in> set hook_names \<and> is_digits pr)"
| "wf_object (RuleLit tb ch pt cs act) =
     (is_name tb \<and> is_name ch \<and> pt \<in> {''tcp'', ''udp''} \<and> cs \<noteq> [] \<and> (\<forall>c \<in> set cs. wf_crit c) \<and>
      act \<in> {''drop'', ''accept''})"
| "wf_object RulesLit = True"

fun wf_command :: "command_lit \<Rightarrow> bool" where
  "wf_command (CommandLit op fam ob) =
     (op \<in> set operations \<and> (case fam of None \<Rightarrow> True | Some f \<Rightarrow> f \<in> {''ip'', ''ip6''}) \<and> wf_object ob)"

section \<open>Spellings\<close>

definition blanks :: "string \<Rightarrow> bool" where
  "blanks s \<longleftrightarrow> (\<forall>c \<in> set s. is_blank c)"

definition blanks1 :: "string \<Rightarrow> bool" where
  "blanks1 s \<longleftrightarrow> s \<noteq> [] \<and> blanks s"

fun number_text :: "number_lit \<Rightarrow> string" where
  "number_text (Dec ds) = ds"
| "number_text (Hex ds) = ''0x'' @ ds"

fun value_text :: "value_lit \<Rightarrow> string" where
  "value_text (NumberLit n) = number_text n"
| "value_text (CidrLit a b c d p) = a @ ''.'' @ b @ ''.'' @ c @ ''.'' @ d @ ''/'' @ p"

inductive spells_criteria :: "crit_lit list \<Rightarrow> string \<Rightarrow> bool" where
  no_criteria: "spells_criteria [] []"
| criterion: "blanks1 b1 \<Longrightarrow> blanks1 b2 \<Longrightarrow> spells_criteria cs s \<Longrightarrow>
     spells_criteria ((f, v) # cs) ((f @ b1) @ (value_text v @ b2) @ s)"

inductive spells_object :: "object_lit \<Rightarrow> string \<Rightarrow> bool" where
  table: "blanks1 b1 \<Longrightarrow> blanks b2 \<Longrightarrow> spells_object (TableLit n) (''table'' @ b1 @ n @ b2)"
| chain: "blanks1 b1 \<Longrightarrow> blanks1 b2 \<Longrightarrow> blanks b3 \<Longrightarrow> blanks b4 \<Longrightarrow> blanks1 b5 \<Longrightarrow> blanks1 b6 \<Longrightarrow> blanks1 b7 \<Longrightarrow>
     blanks1 b8 \<Longrightarrow> blanks1 b9 \<Longrightarrow> blanks b10 \<Longrightarrow>
     spells_object (ChainLit tb ch ht hk pr)
       (''chain'' @ b1 @ (tb @ b2) @ (ch @ b3) @ ''{'' @ b4 @ ''type'' @ b5 @ ht @ b6 @ ''hook'' @ b7 @ hk @ b8 @
        ''priority'' @ b9 @ pr @ b10 @ ''}'')"
| rule: "blanks b0 \<Longrightarrow> blanks1 b1 \<Longrightarrow> blanks1 b2 \<Longrightarrow> blanks1 b3 \<Longrightarrow> spells_criteria cs s \<Longrightarrow>
     spells_object (RuleLit tb ch pt cs act)
       (''rule'' @ b0 @ (tb @ b1) @ (ch @ b2) @ (pt @ b3) @ s @ act)"
| rules: "blanks b0 \<Longrightarrow> spells_object RulesLit (''rule'' @ b0)"

inductive spells :: "command_lit \<Rightarrow> string \<Rightarrow> bool" where
  no_family: "blanks1 b1 \<Longrightarrow> spells_object ob s \<Longrightarrow> spells (CommandLit op None ob) ((op @ b1) @ s)"
| family: "blanks1 b1 \<Longrightarrow> blanks1 b2 \<Longrightarrow> spells_object ob s \<Longrightarrow>
     spells (CommandLit op (Some fam) ob) ((op @ b1) @ (fam @ b2) @ s)"

text \<open>The spelling with one blank wherever one is needed, for writing commands.\<close>

definition criteria_text :: "crit_lit list \<Rightarrow> string" where
  "criteria_text cs = concat (map (\<lambda>(f, v). f @ '' '' @ value_text v @ '' '') cs)"

fun object_text :: "object_lit \<Rightarrow> string" where
  "object_text (TableLit n) = ''table '' @ n"
| "object_text (ChainLit tb ch ht hk pr) =
     ''chain '' @ tb @ '' '' @ ch @ '' { type '' @ ht @ '' hook '' @ hk @ '' priority '' @ pr @ '' }''"
| "object_text (RuleLit tb ch pt cs act) = ''rule '' @ tb @ '' '' @ ch @ '' '' @ pt @ '' '' @ criteria_text cs @ act"
| "object_text RulesLit = ''rule''"

fun command_text :: "command_lit \<Rightarrow> string" where
  "command_text (CommandLit op fam ob) =
     op @ '' '' @ (case fam of None \<Rightarrow> [] | Some f \<Rightarrow> f @ '' '') @ object_text ob"

section \<open>Meaning\<close>

text \<open>
  Of a hexadecimal number only the first digit counts. The fields \<open>prot\<close> and \<open>dport\<close> are looked up in the
  transport header, the addresses in the IPv4 header; the comparison is written with twice as many
  hexadecimal digits as the field before it has bytes.
\<close>

fun number_value :: "number_lit \<Rightarrow> nat" where
  "number_value (Dec ds) = to_double (digits_value 10 ds)"
| "number_value (Hex ds) = the (digit_value (hd ds))"

definition field_position :: "string \<Rightarrow> int \<times> int \<times> int" where
  "field_position f =
     (if f = ''prot'' then (2, 9, 1) else if f = ''dport'' then (2, 2, 2)
      else if f = ''saddr'' then (1, 12, 4) else (1, 16, 4))"

definition payload_expr :: "int \<times> int \<times> int \<Rightarrow> jsval" where
  "payload_expr p = (case p of (base, off, len) \<Rightarrow>
     elem_object ''payload'' [(''DREG'', Num 1), (''BASE'', Num base), (''OFFSET'', Num off), (''LEN'', Num len)])"

definition cmp_expr :: "string \<Rightarrow> jsval" where
  "cmp_expr v = elem_object ''cmp'' [(''SREG'', Num 1), (''OP'', Num 0), (''DATA'', Obj [(''VALUE'', Str (''0x'' @ v))])]"

definition padded_hex :: "int \<Rightarrow> nat \<Rightarrow> string" where
  "padded_hex len v =
     (let s = number_to_hex (Some (int v)) in replicate (nat (2 * len) - length s) (CHR ''0'') @ s)"

definition prefix_expr :: "string \<Rightarrow> jsval" where
  "prefix_expr p =
     elem_object ''bitwise''
       [(''SREG'', Num 1), (''DREG'', Num 1), (''LEN'', Num 4),
        (''MASK'', Obj [(''VALUE'', Str (''0x'' @ maskFromCidr (digits_value 10 p) ''inet''))]),
        (''XOR'', Obj [(''VALUE'', Str ''0x00000000'')])]"

definition octets_hex :: "string list \<Rightarrow> string" where
  "octets_hex os = to_hex (map (\<lambda>s. word_of_int (int (digits_value 10 s))) os)"

fun value_exprs :: "int \<Rightarrow> value_lit \<Rightarrow> jsval list" where
  "value_exprs len (NumberLit n) = [cmp_expr (padded_hex len (number_value n))]"
| "value_exprs len (CidrLit a b c d p) = [prefix_expr p, cmp_expr (octets_hex [a, b, c, d])]"

definition crit_exprs :: "crit_lit \<Rightarrow> jsval list" where
  "crit_exprs cr =
     (let pos = field_position (fst cr) in payload_expr pos # value_exprs (snd (snd pos)) (snd cr))"

definition action_expr :: "string \<Rightarrow> jsval" where
  "action_expr act =
     elem_object ''immediate''
       [(''DREG'', Num 0), (''DATA'', Obj [(''VERDICT'', Obj [(''CODE'', Num (if act = ''accept'' then 1 else 0))])])]"

definition hook_number :: "string \<Rightarrow> int" where
  "hook_number hk =
     (if hk = ''prerouting'' then 0 else if hk = ''input'' then 1 else if hk = ''forward'' then 2
      else if hk = ''output'' then 3 else 4)"

fun object_params :: "object_lit \<Rightarrow> props" where
  "object_params (TableLit n) = [(''params'', Obj [(''name'', Str n)])]"
| "object_params (ChainLit tb ch ht hk pr) =
     [(''params'', Obj [(''table'', Str tb), (''name'', Str ch), (''type'', Str ht),
        (''hook'', Obj [(''hooknum'', Num (hook_number hk)), (''priority'', Str pr)])])]"
| "object_params (RuleLit tb ch pt cs act) =
     [(''params'', Obj
        [(''expressions'', Arr
            ([payload_expr (1, 9, 1), cmp_expr (if pt = ''tcp'' then ''06'' else ''11'')] @
             concat (map crit_exprs cs) @ [action_expr act])),
         (''table'', Str tb), (''chain'', Str ch)])]"
| "object_params RulesLit = []"

fun object_type :: "object_lit \<Rightarrow> string" where
  "object_type (TableLit n) = ''table''"
| "object_type (ChainLit tb ch ht hk pr) = ''chain''"
| "object_type (RuleLit tb ch pt cs act) = ''rule''"
| "object_type RulesLit = ''rule''"

fun command_object :: "command_lit \<Rightarrow> props" where
  "command_object (CommandLit op fam ob) =
     [(''command'', Str op), (''type'', Str (object_type ob)),
      (''family'', Str (case fam of None \<Rightarrow> ''ip'' | Some f \<Rightarrow> f))] @ object_params ob"

end
