(* ===== verification/NfSound.thy ===== *)
theory NfSound
  imports NfLanguage
begin

text \<open>
  Soundness of the rule parser, rule by rule: each parse function satisfies a \<open>peg_spec\<close> triple that says
  which spellings it consumes. The triples of the whole grammar also bound what a parse can throw
  (\<open>grammar_errors\<close>) and exclude divergence. The repeated rules, \<open>rule_criteria\<close> and \<open>nextequad\<close>, are
  instances of the contract \<open>consuming_rule\<close>.
\<close>

section \<open>Every accepted text is a spelling\<close>

definition grammar_errors :: "js_error set" where
  "grammar_errors = {TypeError, JsError ''family != ip6 when ipv6 address detected''}"

definition stops :: "(char \<Rightarrow> bool) \<Rightarrow> string \<Rightarrow> bool" where
  "stops P t \<longleftrightarrow> (t \<noteq> [] \<longrightarrow> \<not> P (hd t))"

text \<open>The strongest triples of the code shapes, for stepping through a rule from its first part on.\<close>

named_theorems peg_strong \<open>strongest triples\<close>

lemma strong_literal [peg_strong]: "peg_spec E (\<lambda>x s t. x = l \<and> s = l) (peg_literal l)"
  by (rule peg_spec_literal) simp

lemma strong_class: "peg_spec E (\<lambda>x s t. s = [x] \<and> P x) (peg_class P d)"
  by (rule peg_spec_class) simp

lemma strong_alt [peg_strong]:
  "peg_spec E V p \<Longrightarrow> peg_spec E W q \<Longrightarrow> peg_spec E (\<lambda>x s t. V x s t \<or> W x s t) (peg_alt p q)"
  by (rule peg_spec_alt) (auto elim: peg_spec_weaken)

lemma strong_opt [peg_strong]:
  "peg_spec E V p \<Longrightarrow> peg_spec E (\<lambda>r s t. case r of None \<Rightarrow> s = [] | Some x \<Rightarrow> V x s t) (peg_opt p)"
  by (rule peg_spec_opt) auto

lemma strong_alpha1 [peg_strong]: "peg_spec E (\<lambda>x s t. x = s \<and> is_name s \<and> stops is_alpha t) (peg_plus alpha_class)"
  unfolding alpha_class_def by (rule peg_spec_weaken [OF peg_spec_plus_class]) (auto simp: run_of_def is_name_def stops_def)

lemma strong_digit1 [peg_strong]: "peg_spec E (\<lambda>x s t. x = s \<and> is_digits s) (peg_plus digit_class)"
  unfolding digit_class_def by (rule peg_spec_weaken [OF peg_spec_plus_class]) (auto simp: run_of_def is_digits_def)

lemma strong_xdigit1 [peg_strong]: "peg_spec E (\<lambda>x s t. x = s \<and> is_xdigits s) (peg_plus xdigit_class)"
  unfolding xdigit_class_def by (rule peg_spec_weaken [OF peg_spec_plus_class]) (auto simp: run_of_def is_xdigits_def)

lemma strong_digit [peg_strong]: "peg_spec E (\<lambda>x s t. s = [x] \<and> is_digit x) digit_class"
  unfolding digit_class_def by (rule strong_class)

lemma strong_blanks1 [peg_strong]: "peg_spec E (\<lambda>x s t. blanks1 s) peg_parse_blanks1"
  unfolding peg_parse_blanks1_def blank_class_def
  by (rule peg_spec_weaken [OF peg_spec_plus_class]) (auto simp: run_of_def blanks1_def blanks_def)

lemma strong_blanks0 [peg_strong]: "peg_spec E (\<lambda>x s t. blanks s) peg_parse_blanks0"
  unfolding peg_parse_blanks0_def blank_class_def
  by (rule peg_spec_weaken [OF peg_spec_star_class]) (auto simp: run_of_def blanks_def)

lemmas peg_finish = peg_spec_return peg_spec_run peg_spec_set_payload_len peg_spec_with_payload_len

lemma strong_hex [peg_strong]: "peg_spec E (\<lambda>x s t. \<exists>ds. s = ''0x'' @ ds \<and> is_xdigits ds) peg_parsehex"
proof -
  have "peg_spec E (\<lambda>x s t. \<exists>ds. s = ''0x'' @ ds \<and> is_xdigits ds)
     (peg_bind (peg_literal ''0x'') (\<lambda>pre. peg_bind (peg_plus xdigit_class) (\<lambda>ds. peg_return (pre, ds))))"
    by (rule peg_spec_bind peg_strong peg_finish)+ auto
  then show ?thesis unfolding peg_parsehex_def by (rule peg_spec_bind) (intro peg_finish, auto)
qed

lemma strong_decimal [peg_strong]: "peg_spec E (\<lambda>x s t. is_digits s) peg_parsedecimal"
  unfolding peg_parsedecimal_def by (rule peg_spec_bind peg_strong peg_finish)+ auto

lemma strong_number [peg_strong]:
  "peg_spec E (\<lambda>x s t. \<exists>n b. wf_number n \<and> blanks1 b \<and> s = number_text n @ b) peg_parsenumber"
  unfolding peg_parsenumber_def
  by (rule peg_spec_bind peg_strong peg_finish)+ (auto intro: exI [of _ "Hex _"] exI [of _ "Dec _"])

lemma digit_facts:
  assumes "is_digit c"
  shows "is_radix_digit 10 c" "\<not> is_space c" "c \<noteq> CHR ''-''" "c \<noteq> CHR ''+''" "\<not> is_blank c" "\<not> is_alpha c" "c \<noteq> CHR ''x''"
proof -
  have "list_all (\<lambda>c. is_radix_digit 10 c \<and> \<not> is_space c \<and> c \<noteq> CHR ''-'' \<and> c \<noteq> CHR ''+'' \<and> \<not> is_blank c \<and>
     \<not> is_alpha c \<and> c \<noteq> CHR ''x'') ''0123456789''"
    by code_simp
  then have "is_radix_digit 10 c \<and> \<not> is_space c \<and> c \<noteq> CHR ''-'' \<and> c \<noteq> CHR ''+'' \<and> \<not> is_blank c \<and>
     \<not> is_alpha c \<and> c \<noteq> CHR ''x''"
    using assms unfolding list_all_iff is_digit_def by (rule bspec)
  then show "is_radix_digit 10 c" "\<not> is_space c" "c \<noteq> CHR ''-''" "c \<noteq> CHR ''+''" "\<not> is_blank c" "\<not> is_alpha c" "c \<noteq> CHR ''x''"
    by blast+
qed

lemma parseInt_digits:
  assumes "is_digits s" shows "parseInt 10 s = Some (int (digits_value 10 s))"
proof -
  from assms obtain c cs where s: "s = c # cs" "is_digit c" "\<forall>d \<in> set s. is_digit d"
    by (cases s) (auto simp: is_digits_def)
  then have "takeWhile (is_radix_digit 10) s = s" by (simp add: takeWhile_eq_all_conv digit_facts)
  moreover have "parse_sign (dropWhile is_space s) = (1, s)"
    using s digit_facts [of c] by (simp add: parse_sign_def)
  ultimately show ?thesis using s by (simp add: parseInt_def strip_0x_def)
qed

lemma octet_byte_digits:
  "is_digits s \<Longrightarrow> octet_byte s =
     (if digits_value 10 s \<le> 255 then Return (word_of_int (int (digits_value 10 s))) else Throw TypeError)"
  by (auto simp: octet_byte_def parseInt_digits)

lemma strong_octets [peg_strong]:
  "peg_spec E (\<lambda>x s t. \<exists>a b c d. x = [a, b, c, d] \<and> is_digits a \<and> is_digits b \<and> is_digits c \<and> is_digits d \<and>
     s = a @ ''.'' @ b @ ''.'' @ c @ ''.'' @ d) peg_parseoctets"
  unfolding peg_parseoctets_def by (rule peg_spec_bind peg_strong peg_finish)+ auto

lemma strong_ipv4addr [peg_strong]:
  "peg_spec grammar_errors (\<lambda>x s t. \<exists>a b c d. is_octet a \<and> is_octet b \<and> is_octet c \<and> is_octet d \<and>
     s = a @ ''.'' @ b @ ''.'' @ c @ ''.'' @ d) peg_parseipv4addr"
  unfolding peg_parseipv4addr_def
proof (rule peg_spec_bind [OF strong_octets])
  fix x s t
  assume "\<exists>a b c d. x = [a, b, c, d] \<and> is_digits a \<and> is_digits b \<and> is_digits c \<and> is_digits d \<and>
     s = a @ ''.'' @ b @ ''.'' @ c @ ''.'' @ d"
  then obtain a b c d where x: "x = [a, b, c, d]" "is_digits a" "is_digits b" "is_digits c" "is_digits d"
    and s: "s = a @ ''.'' @ b @ ''.'' @ c @ ''.'' @ d" by blast
  show "peg_spec grammar_errors (\<lambda>y s' t'. t = s' @ t' \<longrightarrow> (\<exists>a b c d. is_octet a \<and> is_octet b \<and> is_octet c \<and> is_octet d \<and>
     s @ s' = a @ ''.'' @ b @ ''.'' @ c @ ''.'' @ d)) (peg_run (peg_c87 x))"
    by (rule peg_spec_run)
      (use x in \<open>auto simp: s peg_c87_def ipfamily_def octet_byte_digits is_octet_def grammar_errors_def split: if_splits\<close>)
qed

text \<open>
  The rule for IPv6 prefix lengths comes second and starts with the first: where it could match, the rule
  for IPv4 has matched already.
\<close>

lemma peg_spec_alt_shadowed:
  assumes p: "peg_spec E V p" and q: "peg_spec E W q"
    and shadow: "\<And>r. peg_rejects q r \<or> (\<exists>s t x. r = s @ t \<and> (\<forall>n. peg_yields n p s t x n))"
  shows "peg_spec E V (peg_alt p q)"
proof (rule peg_specI)
  fix inp and st :: peg_state
  assume inv: "peg_inv inp st"
  from peg_specD [OF p inv] show "peg_post E V inp st (peg_alt p q inp st)"
  proof (cases rule: peg_post_elim)
    case (2 st')
    have "peg_rejects q (drop (currPos st) inp)"
      using shadow [of "drop (currPos st) inp"]
    proof
      assume "\<exists>s t x. drop (currPos st) inp = s @ t \<and> (\<forall>n. peg_yields n p s t x n)"
      then obtain s t x where "drop (currPos st) inp = s @ t" "peg_yields (payload_len st) p s t x (payload_len st)"
        by blast
      then show ?thesis using yieldsD [of "payload_len st" p s t x "payload_len st" st inp] 2(1) by simp
    qed
    then obtain st'' where "q inp st' = Return (None, st'')"
      using rejectsD [of q _ st' inp] 2(3) by auto
    with peg_specD [OF q 2(2)] 2 show ?thesis by (auto simp: peg_alt_def)
  qed (auto simp: peg_alt_def)
qed

lemma yields_ipv4cidr:
  assumes "is_digits p" "length p \<le> 2" "length p = 1 \<Longrightarrow> stops is_digit t"
  shows "peg_yields n peg_parseipv4cidr (''/'' @ p) t (maskFromCidr (digits_value 10 p) ''inet'', 4) n"
proof -
  obtain ds where ds: "peg_yields n (peg_bind digit_class (\<lambda>d1. peg_bind (peg_opt digit_class) (\<lambda>d2. peg_return [Some d1, d2]))) p t ds n"
    "join_digits ds = p"
  proof (cases p)
    case (Cons d1 ds)
    show ?thesis
    proof (cases ds)
      case Nil
      have "peg_yields n (peg_opt digit_class) [] t None n"
        unfolding digit_class_def using assms(3) Cons Nil
        by (intro yields_opt_None rejects_class) (auto simp: stops_def)
      then have "peg_yields n (peg_bind (peg_opt digit_class) (\<lambda>d2. peg_return [Some d1, d2])) [] t [Some d1, None] n"
        by (rule yields_bind_last) (rule yields_return)
      moreover have "peg_yields n digit_class [d1] ([] @ t) d1 n"
        unfolding digit_class_def using assms(1) Cons by (intro yields_class) (simp add: is_digits_def)
      ultimately show ?thesis
        by (intro that [of "[Some d1, None]"])
          (auto simp: \<open>p = d1 # ds\<close> Nil join_digits_def intro: yields_bind [of n _ "[d1]" "[]", simplified])
    next
      case (Cons d2 ds')
      with \<open>p = d1 # ds\<close> assms(2) have p: "p = [d1, d2]" by simp
      have d: "is_digit d1" "is_digit d2" using assms(1) p by (simp_all add: is_digits_def)
      have "peg_yields n (peg_bind (peg_opt digit_class) (\<lambda>d2. peg_return [Some d1, d2])) [d2] t [Some d1, Some d2] n"
        unfolding digit_class_def by (rule yields_bind_last yields_opt_Some yields_class yields_return d)+
      moreover have "peg_yields n digit_class [d1] ([d2] @ t) d1 n"
        unfolding digit_class_def by (rule yields_class d)+
      ultimately show ?thesis
        by (intro that [of "[Some d1, Some d2]"])
          (auto simp: p join_digits_def intro: yields_bind [of n _ "[d1]" "[d2]", simplified])
    qed
  qed (use assms(1) in \<open>simp add: is_digits_def\<close>)
  have "peg_yields n peg_parseipv4cidr (''/'' @ p) t (peg_c92 ds) n"
    unfolding peg_parseipv4cidr_def by (rule yields_bind, rule yields_literal, rule yields_bind_last, rule ds(1), rule yields_return)
  then show ?thesis using ds(2) parseInt_digits [OF assms(1)] by (simp add: peg_c92_def cidr_value_def)
qed

lemma ipv6cidr_shadowed:
  "peg_rejects peg_parseipv6cidr r \<or> (\<exists>s t x. r = s @ t \<and> (\<forall>n. peg_yields n peg_parseipv4cidr s t x n))"
proof (cases "\<exists>c t. r = CHR ''/'' # c # t \<and> is_digit c")
  case True
  then obtain c t where r: "r = CHR ''/'' # c # t" "is_digit c" by blast
  show ?thesis
  proof (cases "t \<noteq> [] \<and> is_digit (hd t)")
    case True
    then have "is_digits [c, hd t]" "r = (''/'' @ [c, hd t]) @ tl t" using r by (auto simp: is_digits_def)
    then have "\<forall>n. peg_yields n peg_parseipv4cidr (''/'' @ [c, hd t]) (tl t) (maskFromCidr (digits_value 10 [c, hd t]) ''inet'', 4) n"
      by (intro allI yields_ipv4cidr) auto
    with \<open>r = (''/'' @ [c, hd t]) @ tl t\<close> show ?thesis by blast
  next
    case False
    then have "is_digits [c]" "stops is_digit t" "r = (''/'' @ [c]) @ t" using r by (auto simp: is_digits_def stops_def)
    then have "\<forall>n. peg_yields n peg_parseipv4cidr (''/'' @ [c]) t (maskFromCidr (digits_value 10 [c]) ''inet'', 4) n"
      by (intro allI yields_ipv4cidr) auto
    with \<open>r = (''/'' @ [c]) @ t\<close> show ?thesis by blast
  qed
next
  case False
  have "peg_rejects peg_parseipv6cidr r"
  proof (cases "take 1 r = ''/''")
    case True
    then obtain t where t: "r = ''/'' @ t" by (cases r) auto
    have "t \<noteq> [] \<Longrightarrow> \<not> is_digit (hd t)" using False t by (cases t) auto
    then show ?thesis unfolding t peg_parseipv6cidr_def digit_class_def
      by (intro rejects_bind_second [OF yields_literal] rejects_bind rejects_class)
  next
    case False
    then show ?thesis unfolding peg_parseipv6cidr_def by (intro rejects_bind rejects_literal) simp
  qed
  then show ?thesis ..
qed

lemma strong_cidr [peg_strong]:
  "peg_spec E (\<lambda>x s t. \<exists>p. is_digits p \<and> length p \<le> 2 \<and> s = ''/'' @ p) peg_parsecidr"
proof -
  have 4: "peg_spec E (\<lambda>x s t. is_digits s \<and> length s \<le> 2)
     (peg_bind digit_class (\<lambda>d1. peg_bind (peg_opt digit_class) (\<lambda>d2. peg_return [Some d1, d2])))"
    by (rule peg_spec_bind peg_strong peg_finish)+ (auto simp: is_digits_def split: option.splits)
  have 6: "peg_spec E (\<lambda>x s t. True)
     (peg_bind digit_class (\<lambda>d1. peg_bind (peg_opt digit_class) (\<lambda>d2. peg_bind (peg_opt digit_class) (\<lambda>d3.
        peg_return [Some d1, d2, d3]))))"
    by (rule peg_spec_bind peg_strong peg_finish)+ auto
  have "peg_spec E (\<lambda>x s t. \<exists>p. is_digits p \<and> length p \<le> 2 \<and> s = ''/'' @ p) peg_parseipv4cidr"
    unfolding peg_parseipv4cidr_def by (rule peg_spec_bind 4 peg_strong peg_finish)+ auto
  moreover have "peg_spec E (\<lambda>x s t. True) peg_parseipv6cidr"
    unfolding peg_parseipv6cidr_def by (rule peg_spec_bind 6 peg_strong peg_finish)+ auto
  ultimately show ?thesis unfolding peg_parsecidr_def
    by - (rule peg_spec_bind, rule peg_spec_alt_shadowed [OF _ _ ipv6cidr_shadowed], assumption, assumption, rule peg_finish, auto)
qed

lemma strong_ipv4 [peg_strong]:
  "peg_spec grammar_errors
     (\<lambda>x s t. \<exists>a b c d p bl. wf_value (CidrLit a b c d p) \<and> blanks1 bl \<and> s = value_text (CidrLit a b c d p) @ bl) peg_parseipv4"
  unfolding peg_parseipv4_def
  apply (rule peg_spec_bind peg_strong peg_finish)+
  apply clarify
  subgoal for _ _ _ _ _ _ _ bl _ _ a p b c d
    by - (rule exI [of _ a], rule exI [of _ b], rule exI [of _ c], rule exI [of _ d], rule exI [of _ p], rule exI [of _ bl], simp)
  done

lemma strong_startquad [peg_strong]: "peg_spec grammar_errors (\<lambda>x s t. True) peg_parsestartquad"
  unfolding peg_parsestartquad_def
  by (rule peg_spec_bind peg_strong peg_finish)+ (auto simp: grammar_errors_def split: option.splits)

definition nextequad_text :: "bool \<times> string \<Rightarrow> string \<Rightarrow> string \<Rightarrow> bool" where
  "nextequad_text q s t \<longleftrightarrow> s = (if fst q then ''::'' else '':'') @ snd q \<and> is_xdigits (snd q)"

lemma spec_nextequad: "peg_spec grammar_errors nextequad_text peg_parsenextequad"
proof -
  have "peg_spec grammar_errors nextequad_text peg_parsecontquad"
    unfolding peg_parsecontquad_def by (rule peg_spec_bind peg_strong peg_finish)+ (auto simp: nextequad_text_def)
  moreover have "peg_spec grammar_errors nextequad_text peg_parseskipequad"
    unfolding peg_parseskipequad_def by (rule peg_spec_bind peg_strong peg_finish)+ (auto simp: nextequad_text_def)
  ultimately show ?thesis unfolding peg_parsenextequad_def
    by - (rule peg_spec_bind, rule peg_spec_alt, assumption, assumption, rule peg_finish, auto)
qed

interpretation nextequad: consuming_rule grammar_errors nextequad_text peg_parsenextequad
  by unfold_locales (auto simp: spec_nextequad nextequad_text_def)

lemma strong_ipv6addr [peg_strong]: "peg_spec grammar_errors (\<lambda>x s t. False) peg_parseipv6addr"
proof -
  have "peg_spec grammar_errors (\<lambda>x s t. True) peg_parsequads"
    unfolding peg_parsequads_def by (rule peg_spec_bind peg_strong nextequad.star peg_finish)+ auto
  then show ?thesis unfolding peg_parseipv6addr_def
    by (rule peg_spec_bind) (rule peg_spec_run, auto simp: peg_c86_def ipfamily_def grammar_errors_def)
qed

lemma strong_ipv6 [peg_strong]: "peg_spec grammar_errors (\<lambda>x s t. False) peg_parseipv6"
  unfolding peg_parseipv6_def by (rule peg_spec_bind, rule strong_ipv6addr) simp

lemma strong_value [peg_strong]:
  "peg_spec grammar_errors (\<lambda>x s t. \<exists>v b. wf_value v \<and> blanks1 b \<and> s = value_text v @ b) peg_parsevalue"
proof -
  have "peg_spec grammar_errors (\<lambda>x s t. \<exists>v b. wf_value v \<and> blanks1 b \<and> s = value_text v @ b)
      (peg_alt peg_parseipv4 peg_parseipv6)"
    by (rule peg_spec_alt) (rule peg_spec_weaken [OF strong_ipv4] peg_spec_weaken [OF strong_ipv6], blast)+
  then have "peg_spec grammar_errors (\<lambda>x s t. \<exists>v b. wf_value v \<and> blanks1 b \<and> s = value_text v @ b) peg_parseaddress"
    unfolding peg_parseaddress_def by (rule peg_spec_bind) (rule peg_finish, simp)
  moreover have "peg_spec grammar_errors (\<lambda>x s t. \<exists>v b. wf_value v \<and> blanks1 b \<and> s = value_text v @ b) peg_parsenumber"
    by (rule peg_spec_weaken [OF strong_number]) (metis wf_value.simps(1) value_text.simps(1))
  ultimately have "peg_spec grammar_errors (\<lambda>x s t. \<exists>v b. wf_value v \<and> blanks1 b \<and> s = value_text v @ b)
      (peg_alt peg_parsenumber peg_parseaddress)"
    by (rule peg_spec_alt [rotated])
  then show ?thesis unfolding peg_parsevalue_def by (rule peg_spec_bind) (rule peg_finish, simp)
qed

lemma strong_field [peg_strong]:
  "peg_spec E (\<lambda>x s t. \<exists>f b. f \<in> set field_names \<and> blanks1 b \<and> s = f @ b) peg_parsefield"
proof -
  have "peg_spec E (\<lambda>x s t. \<exists>f b. f \<in> set field_names \<and> blanks1 b \<and> s = f @ b)
     (peg_alt peg_parsetransport_header peg_parsenetwork_header)"
  proof (rule peg_spec_alt)
    have "peg_spec E (\<lambda>x s t. s = ''prot'' \<or> s = ''dport'') (peg_alt peg_parseipprotocol peg_parsedport)"
      unfolding peg_parseipprotocol_def peg_parsedport_def
      by (rule peg_spec_alt; rule peg_spec_bind, rule strong_literal, rule peg_finish, simp)
    then show "peg_spec E (\<lambda>x s t. \<exists>f b. f \<in> set field_names \<and> blanks1 b \<and> s = f @ b) peg_parsetransport_header"
      unfolding peg_parsetransport_header_def
      apply (rule peg_spec_bind)
      apply (rule peg_spec_bind peg_strong peg_finish)+
      subgoal for _ f _ _ b by (intro impI exI [of _ f] exI [of _ b]) (auto simp: field_names_def)
      done
    have "peg_spec E (\<lambda>x s t. s = ''saddr'' \<or> s = ''daddr'') (peg_alt peg_parsesaddr peg_parsedaddr)"
      unfolding peg_parsesaddr_def peg_parsedaddr_def
      by (rule peg_spec_alt; rule peg_spec_bind, rule strong_literal, rule peg_finish, simp)
    then show "peg_spec E (\<lambda>x s t. \<exists>f b. f \<in> set field_names \<and> blanks1 b \<and> s = f @ b) peg_parsenetwork_header"
      unfolding peg_parsenetwork_header_def
      apply (rule peg_spec_bind)
      apply (rule peg_spec_bind peg_strong peg_finish)+
      subgoal for _ f _ _ b by (intro impI exI [of _ f] exI [of _ b]) (auto simp: field_names_def)
      done
  qed
  then show ?thesis unfolding peg_parsefield_def by (rule peg_spec_bind) (rule peg_finish, simp)
qed

definition criterion_text :: "jsval \<times> crit_value \<Rightarrow> string \<Rightarrow> string \<Rightarrow> bool" where
  "criterion_text x s t \<longleftrightarrow>
     (\<exists>f v b1 b2. wf_crit (f, v) \<and> blanks1 b1 \<and> blanks1 b2 \<and> s = (f @ b1) @ (value_text v @ b2))"

lemma spec_criteria: "peg_spec grammar_errors criterion_text peg_parserule_criteria"
  unfolding peg_parserule_criteria_def
  by (rule peg_spec_bind peg_strong peg_finish)+ (auto simp: criterion_text_def, blast)

interpretation criteria: consuming_rule grammar_errors criterion_text peg_parserule_criteria
  by unfold_locales (auto simp: spec_criteria criterion_text_def blanks1_def)

lemma pieces_criteria:
  "pieces criterion_text xs s t \<Longrightarrow> \<exists>cs. length cs = length xs \<and> (\<forall>c \<in> set cs. wf_crit c) \<and> spells_criteria cs s"
proof (induction xs arbitrary: s)
  case (Cons x xs)
  from Cons.prems obtain s1 s2 where s: "s = s1 @ s2" "criterion_text x s1 (s2 @ t)" "pieces criterion_text xs s2 t"
    by auto
  from Cons.IH [OF s(3)] obtain cs where
    cs: "length cs = length xs" "\<forall>c \<in> set cs. wf_crit c" "spells_criteria cs s2" by blast
  from s(2) obtain f v b1 b2 where
    "wf_crit (f, v)" "blanks1 b1" "blanks1 b2" "s1 = (f @ b1) @ (value_text v @ b2)"
    unfolding criterion_text_def by blast
  with cs s(1) show ?case
    using spells_criteria.criterion [of b1 b2 cs s2 f v] by - (rule exI [of _ "(f, v) # cs"], auto)
qed (auto intro: spells_criteria.no_criteria)

lemma strong_protocol [peg_strong]:
  "peg_spec E (\<lambda>x s t. \<exists>pt b. pt \<in> {''tcp'', ''udp''} \<and> blanks1 b \<and> s = pt @ b) peg_parseprotocol"
proof -
  have "peg_spec E (\<lambda>x s t. s \<in> {''tcp'', ''udp''}) (peg_alt peg_parsetcp peg_parseudp)"
    unfolding peg_parsetcp_def peg_parseudp_def
    by (rule peg_spec_alt; rule peg_spec_bind, rule strong_literal, rule peg_finish, simp)
  then show ?thesis unfolding peg_parseprotocol_def
    apply (rule peg_spec_bind)
    apply (rule peg_spec_bind peg_strong peg_finish)+
    subgoal for _ pt _ _ b by (intro impI exI [of _ pt] exI [of _ b]) auto
    done
qed

lemma strong_action [peg_strong]: "peg_spec E (\<lambda>x s t. s \<in> {''drop'', ''accept''}) peg_parseaction"
  unfolding peg_parseaction_def peg_parsedrop_def peg_parseaccept_def
  by (rule peg_spec_alt; rule peg_spec_bind, rule strong_literal, rule peg_finish, simp)

lemma strong_table [peg_strong]:
  "peg_spec E (\<lambda>x s t. \<exists>b. is_name x \<and> blanks b \<and> s = x @ b \<and> (b = [] \<longrightarrow> stops is_alpha t)) peg_parsetable"
  unfolding peg_parsetable_def by (rule peg_spec_bind peg_strong peg_finish)+ auto

lemma strong_chain [peg_strong]:
  "peg_spec E (\<lambda>x s t. \<exists>b. is_name x \<and> blanks b \<and> s = x @ b \<and> (b = [] \<longrightarrow> stops is_alpha t)) peg_parsechain"
  unfolding peg_parsechain_def
  by (rule peg_spec_bind peg_strong peg_finish)+ (auto simp: blanks1_def blanks_def split: option.splits)

lemma stops_alpha_name: "is_name x \<Longrightarrow> \<not> stops is_alpha (x @ t)"
  by (cases x) (auto simp: is_name_def stops_def)

lemma not_empty_before_name:
  "is_name x \<Longrightarrow> b = [] \<longrightarrow> stops is_alpha t \<Longrightarrow> take (length x) t = x \<Longrightarrow> b \<noteq> []"
  by (metis stops_alpha_name append_take_drop_id)

lemma strong_rule_expression [peg_strong]:
  "peg_spec grammar_errors (\<lambda>x s t. \<exists>tb ch pt cs act b1 b2 b3 s'. wf_object (RuleLit tb ch pt cs act) \<and> blanks1 b1 \<and> blanks1 b2 \<and>
     blanks1 b3 \<and> spells_criteria cs s' \<and> s = (tb @ b1) @ (ch @ b2) @ (pt @ b3) @ s' @ act) peg_parserule_expression"
  unfolding peg_parserule_expression_def
  apply (rule peg_spec_bind peg_strong criteria.plus peg_finish)+
  apply clarify
  subgoal premises prems for tb _ _ ch _ _ _ _ _ ctr sc _ act sd _ te b1 b2 pt b3
  proof -
    obtain cs where cs: "length cs = length ctr" "\<forall>c \<in> set cs. wf_crit c" "spells_criteria cs sc"
      using pieces_criteria [OF prems(2)] by blast
    have "is_name pt" using prems(6) by (auto simp: is_name_def is_alpha_def)
    have "b1 \<noteq> []" by (rule not_empty_before_name [OF prems(5,10)]) simp
    moreover have "b2 \<noteq> []" by (rule not_empty_before_name [OF \<open>is_name pt\<close> prems(11)]) simp
    moreover have "cs \<noteq> []" using cs(1) prems(3) by auto
    moreover have "wf_object (RuleLit tb ch pt cs sd)" using prems(1,4,5,6) cs(2) calculation by simp
    ultimately show ?thesis using prems(7-9) cs(3)
      by - (rule exI [of _ tb], rule exI [of _ ch], rule exI [of _ pt], rule exI [of _ cs], rule exI [of _ sd], rule exI [of _ b1], rule exI [of _ b2], rule exI [of _ b3], rule exI [of _ sc],
        simp add: blanks1_def)
  qed
  done

lemma strong_hooktype [peg_strong]: "peg_spec E (\<lambda>x s t. s \<in> set hook_types) peg_parsehooktype"
  unfolding peg_parsehooktype_def by (intro peg_spec_alt; rule peg_spec_literal) (simp_all add: hook_types_def)

lemma strong_hooknum [peg_strong]: "peg_spec E (\<lambda>x s t. s \<in> set hook_names) peg_parsehooknum"
  unfolding peg_parsehooknum_def
  by (intro peg_spec_alt; rule peg_spec_bind, rule strong_literal, rule peg_finish, simp add: hook_names_def)

lemma strong_hookprio [peg_strong]: "peg_spec E (\<lambda>x s t. is_digits s) peg_parsehookprio"
  unfolding peg_parsehookprio_def by (rule peg_spec_bind peg_strong peg_finish)+ auto

lemma strong_hook_expression [peg_strong]:
  "peg_spec grammar_errors (\<lambda>x s t. \<exists>tb ch ht hk pr b2 b3 b4 b5 b6 b7 b8 b9 b10. wf_object (ChainLit tb ch ht hk pr) \<and> blanks1 b2 \<and>
     blanks b3 \<and> blanks b4 \<and> blanks1 b5 \<and> blanks1 b6 \<and> blanks1 b7 \<and> blanks1 b8 \<and> blanks1 b9 \<and> blanks b10 \<and>
     s = (tb @ b2) @ (ch @ b3) @ ''{'' @ b4 @ ''type'' @ b5 @ ht @ b6 @ ''hook'' @ b7 @ hk @ b8 @
        ''priority'' @ b9 @ pr @ b10 @ ''}'') peg_parsehook_expression"
  unfolding peg_parsehook_expression_def
  apply (rule peg_spec_bind peg_strong peg_finish)+
  apply clarify
  subgoal premises prems for tb _ _ ch _ _ _ _ _ _ b4 _ _ _ _ _ b5 _ _ ht _ _ b6 _ _ _ _ _ b7 _ _ hk _ _ b8 _ _ _ _ _ b9 _ _ pr _ _ b10 _ _ _ _ _ b2 b3
  proof -
    have "b2 \<noteq> []" by (rule not_empty_before_name [OF prems(12,15)]) simp
    with prems(1-14) show ?thesis
      by - (rule exI [of _ tb], rule exI [of _ ch], rule exI [of _ ht], rule exI [of _ hk], rule exI [of _ pr], rule exI [of _ b2], rule exI [of _ b3], rule exI [of _ b4], rule exI [of _ b5], rule exI [of _ b6], rule exI [of _ b7], rule exI [of _ b8], rule exI [of _ b9], rule exI [of _ b10],
        simp add: blanks1_def)
  qed
  done

lemma strong_operation [peg_strong]:
  "peg_spec E (\<lambda>x s t. \<exists>op b. op \<in> set operations \<and> blanks1 b \<and> s = op @ b) peg_parseoperation"
proof -
  have "peg_spec E (\<lambda>x s t. s \<in> set operations)
     (peg_alt (peg_literal ''add'') (peg_alt (peg_literal ''del'') (peg_alt (peg_literal ''list'')
       (peg_alt (peg_literal ''get'') (peg_literal ''flush'')))))"
    by (intro peg_spec_alt; rule peg_spec_literal) (simp_all add: operations_def)
  then show ?thesis unfolding peg_parseoperation_def
    apply (rule peg_spec_bind)
    apply (rule peg_spec_bind peg_strong peg_finish)+
    subgoal for _ op _ _ b by - (rule impI, rule impI, rule exI [of _ op], rule exI [of _ b], simp)
    done
qed

lemma strong_family [peg_strong]:
  "peg_spec E (\<lambda>x s t. \<exists>fam b. fam \<in> {''ip'', ''ip6''} \<and> blanks1 b \<and> s = fam @ b) peg_parsefamily"
proof -
  have "peg_spec E (\<lambda>x s t. s \<in> {''ip'', ''ip6''}) (peg_alt (peg_literal ''ip6'') (peg_literal ''ip''))"
    by (intro peg_spec_alt; rule peg_spec_literal) simp_all
  then show ?thesis unfolding peg_parsefamily_def
    apply (rule peg_spec_bind)
    apply (rule peg_spec_bind peg_strong peg_finish)+
    subgoal for _ fam _ _ b by - (rule impI, rule impI, rule exI [of _ fam], rule exI [of _ b], simp)
    done
qed

lemma strong_command_expression [peg_strong]:
  "peg_spec grammar_errors (\<lambda>x s t. \<exists>ob. wf_object ob \<and> spells_object ob s) peg_parsecommand_expression"
  unfolding peg_parsecommand_expression_def
proof (intro peg_spec_alt)
  show "peg_spec grammar_errors (\<lambda>x s t. \<exists>ob. wf_object ob \<and> spells_object ob s)
    (peg_bind (peg_literal ''table'') (\<lambda>_. peg_bind peg_parse_blanks1 (\<lambda>_.
       peg_bind peg_parsetable_expression (\<lambda>tb. peg_return (''table'', tb)))))"
  proof -
    have "peg_spec grammar_errors (\<lambda>x s t. \<exists>n b. is_name n \<and> blanks b \<and> s = n @ b) peg_parsetable_expression"
      unfolding peg_parsetable_expression_def by (rule peg_spec_bind peg_strong peg_finish)+ auto
    note this [peg_strong]
    show ?thesis
      apply (rule peg_spec_bind peg_strong peg_finish)+
      apply clarify
      subgoal for _ _ _ _ b1 _ _ _ _ _ n b2
        using spells_object.table [of b1 b2 n] by (auto intro!: exI [of _ "TableLit n"])
      done
  qed
  show "peg_spec grammar_errors (\<lambda>x s t. \<exists>ob. wf_object ob \<and> spells_object ob s)
    (peg_bind (peg_literal ''chain'') (\<lambda>_. peg_bind peg_parse_blanks1 (\<lambda>_.
       peg_bind peg_parsehook_expression (\<lambda>ch. peg_return (''chain'', ch)))))"
    apply (rule peg_spec_bind peg_strong peg_finish)+
    apply clarify
    subgoal premises prems for _ _ _ _ b1 _ _ _ _ _ tb ch ht hk pr b2 b3 b4 b5 b6 b7 b8 b9 b10
      using spells_object.chain [OF prems(1) prems(3-11)] prems(2)
      by (metis append_Nil2)
    done
  show "peg_spec grammar_errors (\<lambda>x s t. \<exists>ob. wf_object ob \<and> spells_object ob s)
    (peg_bind (peg_literal ''rule'') (\<lambda>_. peg_bind peg_parse_blanks0 (\<lambda>_.
       peg_bind (peg_opt peg_parserule_expression) (\<lambda>ru. peg_return (peg_c28 ru)))))"
    apply (rule peg_spec_bind peg_strong peg_finish)+
    subgoal premises prems for _ _ _ _ b0 _ r s t
    proof (cases r)
      case None
      with prems have "s = []" "blanks b0" by simp_all
      then show ?thesis using spells_object.rules [of b0] prems(1) by (auto intro!: exI [of _ RulesLit])
    next
      case (Some x)
      with prems obtain tb ch pt cs act b1 b2 b3 s' where
        "wf_object (RuleLit tb ch pt cs act)" "blanks1 b1" "blanks1 b2" "blanks1 b3" "spells_criteria cs s'"
        and s: "s = (tb @ b1) @ (ch @ b2) @ (pt @ b3) @ s' @ act"
        by (simp del: wf_object.simps append_assoc) blast
      then show ?thesis using spells_object.rule [of b0 b1 b2 b3 cs s' tb ch pt act] prems(1,2)
        unfolding s by (intro impI exI [of _ "RuleLit tb ch pt cs act"]) simp
    qed
    done
qed

lemma spec_start: "peg_spec grammar_errors (\<lambda>x s t. \<exists>c. wf_command c \<and> spells c s) peg_parsestart"
proof -
  have "peg_spec grammar_errors (\<lambda>x s t. \<exists>c. wf_command c \<and> spells c s) peg_parsecommand"
    unfolding peg_parsecommand_def
    apply (rule peg_spec_bind peg_strong peg_finish)+
    apply clarify
    subgoal premises prems for _ _ _ r s _ _ _ s' _ _ op ob b1
    proof (cases r)
      case None
      then show ?thesis using prems spells.no_family [of b1 ob s' op]
        by (auto intro!: exI [of _ "CommandLit op None ob"])
    next
      case (Some f)
      then obtain fam b2 where "fam \<in> {''ip'', ''ip6''}" "blanks1 b2" "s = fam @ b2" using prems by auto
      then show ?thesis using prems spells.family [of b1 b2 ob s' op fam]
        by (auto intro!: exI [of _ "CommandLit op (Some fam) ob"])
    qed
    done
  then show ?thesis unfolding peg_parsestart_def by (rule peg_spec_bind) (rule peg_finish, simp)
qed

end
