(* ===== verification/NfComplete.thy ===== *)
theory NfComplete
  imports NfSound
begin

text \<open>
  Completeness of the rule parser: in front of a spelling each parse function consumes exactly the
  spelling and returns the object it stands for (\<open>peg_yields\<close>), which with soundness makes parser and
  language equal.
\<close>

section \<open>Lexical rules\<close>

lemma stops_append: "s \<noteq> [] \<Longrightarrow> stops P (s @ t) \<longleftrightarrow> \<not> P (hd s)"
  by (simp add: stops_def)

lemma blank_not: "is_blank c \<Longrightarrow> \<not> is_alpha c \<and> \<not> is_digit c \<and> \<not> is_xdigit c"
  by (auto simp: is_blank_def is_alpha_def is_digit_def is_xdigit_def)

lemma stops_blanks1:
  "blanks1 b \<Longrightarrow> stops is_alpha (b @ t)" "blanks1 b \<Longrightarrow> stops is_digit (b @ t)" "blanks1 b \<Longrightarrow> stops is_xdigit (b @ t)"
  using blank_not by (auto simp: stops_append blanks1_def blanks_def)

lemma yields_alpha1: "is_name s \<Longrightarrow> stops is_alpha t \<Longrightarrow> peg_yields n (peg_plus alpha_class) s t s n"
  unfolding alpha_class_def by (rule yields_plus_class) (auto simp: is_name_def stops_def)

lemma yields_digit1: "is_digits s \<Longrightarrow> stops is_digit t \<Longrightarrow> peg_yields n (peg_plus digit_class) s t s n"
  unfolding digit_class_def by (rule yields_plus_class) (auto simp: is_digits_def stops_def)

lemma yields_xdigit1: "is_xdigits s \<Longrightarrow> stops is_xdigit t \<Longrightarrow> peg_yields n (peg_plus xdigit_class) s t s n"
  unfolding xdigit_class_def by (rule yields_plus_class) (auto simp: is_xdigits_def stops_def)

lemma yields_blanks1: "blanks1 s \<Longrightarrow> stops is_blank t \<Longrightarrow> peg_yields n peg_parse_blanks1 s t s n"
  unfolding peg_parse_blanks1_def blank_class_def
  by (rule yields_plus_class) (auto simp: blanks1_def blanks_def stops_def)

lemma yields_blanks0: "blanks s \<Longrightarrow> stops is_blank t \<Longrightarrow> peg_yields n peg_parse_blanks0 s t s n"
  unfolding peg_parse_blanks0_def blank_class_def
  by (rule yields_star_class) (auto simp: blanks_def stops_def)

lemma rejects_blanks1: "stops is_blank t \<Longrightarrow> peg_rejects peg_parse_blanks1 t"
  unfolding peg_parse_blanks1_def blank_class_def by (intro rejects_plus rejects_class) (auto simp: stops_def)

text \<open>What follows blanks in a spelling starts with a character that is none.\<close>

lemma stops_blank:
  "is_name s \<Longrightarrow> stops is_blank (s @ t)" "is_digits s \<Longrightarrow> stops is_blank (s @ t)"
  "f \<in> set field_names \<Longrightarrow> stops is_blank (f @ t)" "hk \<in> set hook_names \<Longrightarrow> stops is_blank (hk @ t)"
  "ht \<in> set hook_types \<Longrightarrow> stops is_blank (ht @ t)" "stops is_blank []"
proof -
  show "is_name s \<Longrightarrow> stops is_blank (s @ t)" "is_digits s \<Longrightarrow> stops is_blank (s @ t)"
    using blank_not by (force simp: stops_append is_name_def is_digits_def)+
  show "f \<in> set field_names \<Longrightarrow> stops is_blank (f @ t)" "hk \<in> set hook_names \<Longrightarrow> stops is_blank (hk @ t)"
    "ht \<in> set hook_types \<Longrightarrow> stops is_blank (ht @ t)" "stops is_blank []"
    by (auto simp: stops_def field_names_def hook_names_def hook_types_def is_blank_def)
qed

lemma stops_blank_value: "wf_value v \<Longrightarrow> stops is_blank (value_text v @ t)"
proof (cases v)
  case (NumberLit n)
  then show "wf_value v \<Longrightarrow> ?thesis"
    by (cases n) (simp_all add: stops_blank, simp add: stops_def is_blank_def)
next
  case (CidrLit a b c d p)
  then show "wf_value v \<Longrightarrow> ?thesis" by (auto simp: stops_blank is_octet_def)
qed

section \<open>Numbers\<close>

lemma pad_zeros_eq: "pad_zeros k s = replicate (nat k - length s) (CHR ''0'') @ s"
proof (induction k s rule: pad_zeros.induct)
  case (1 k s)
  show ?case
  proof (cases "int (length s) < k")
    case True
    then have "nat k - length s = Suc (nat k - length (CHR ''0'' # s))" by simp
    with True 1 show ?thesis by (subst pad_zeros.simps) (simp add: replicate_app_Cons_same)
  next
    case False
    then show ?thesis by (subst pad_zeros.simps) simp
  qed
qed

lemma c85_eq: "peg_c85 (Some (int v)) pl = NumberValue (cmp_expr (padded_hex pl v))"
  by (simp add: peg_c85_def cmp_object_def cmp_expr_def padded_hex_def pad_zeros_eq nft_int_def nft_registers_def
      nft_cmp_ops_def Let_def mult.commute)

lemma c110_eq: "is_digits ds \<Longrightarrow> peg_c110 ds = Some (int (number_value (Dec ds)))"
  by (simp add: peg_c110_def parseInt_digits double_of_def sgn_if) (auto simp: to_double_def Let_def)

lemma bit_len_le: "n < 2 ^ k \<Longrightarrow> bit_len n \<le> k"
proof (induction k arbitrary: n)
  case (Suc k)
  then show ?case using Suc.IH [of "n div 2"] by (subst bit_len.simps) auto
qed (subst bit_len.simps, simp)

lemma to_double_small: "n < 2 ^ 53 \<Longrightarrow> to_double n = n"
  using bit_len_le [of n 53] by (simp add: to_double_def)

lemma xdigit_facts:
  assumes "is_xdigit c"
  shows "is_radix_digit 16 c" "\<exists>d < 16. digit_value c = Some d"
proof -
  have "list_all (\<lambda>c. is_radix_digit 16 c) ''0123456789abcdefABCDEF''" by code_simp
  then show "is_radix_digit 16 c" using assms unfolding list_all_iff is_xdigit_def by (rule bspec)
  then show "\<exists>d < 16. digit_value c = Some d" by (auto simp: is_radix_digit_def split: option.splits)
qed

lemma c109_eq:
  assumes "is_xdigits ds" shows "peg_c109 (''0x'', ds) = Some (int (number_value (Hex ds)))"
proof -
  obtain c cs where ds: "ds = c # cs" "is_xdigit c" using assms by (cases ds) (auto simp: is_xdigits_def)
  obtain d where d: "digit_value c = Some d" "d < 16" using xdigit_facts(2) [OF ds(2)] by blast
  have comma: "\<not> is_radix_digit 16 (CHR '','')" by code_simp
  have "join_with '','' (map (\<lambda>c. [c]) ds) = c # (if cs = [] then [] else '','' @ join_with '','' (map (\<lambda>c. [c]) cs))"
    by (cases cs) (simp_all add: ds)
  then have tk: "takeWhile (is_radix_digit 16) (join_with '','' (map (\<lambda>c. [c]) ds)) = [c]"
    using comma xdigit_facts(1) [OF ds(2)] by simp
  have "parseInt 16 (''0x'' @ join_with '','' (map (\<lambda>c. [c]) ds)) = Some (int d)"
    by (simp add: parseInt_def parse_sign_def is_space_def strip_0x_def tk) (simp add: digits_value_def d)
  moreover have "to_double d = d" using d(2) by (intro to_double_small) simp
  ultimately show ?thesis using d by (simp add: peg_c109_def double_of_def ds sgn_if)
qed

lemma not_0x: "is_digits ds \<Longrightarrow> r \<noteq> [] \<Longrightarrow> hd r \<noteq> CHR ''x'' \<Longrightarrow> take 2 (ds @ r) \<noteq> ''0x''"
proof (cases ds)
  case (Cons c cs)
  assume "is_digits ds" "r \<noteq> []" "hd r \<noteq> CHR ''x''"
  with Cons show ?thesis by (cases cs; cases r) (auto simp: is_digits_def dest: digit_facts(7))
qed (simp add: is_digits_def)

lemma blanks1_hd: "blanks1 b \<Longrightarrow> b @ t \<noteq> [] \<and> is_blank (hd (b @ t))"
  by (cases b) (auto simp: blanks1_def blanks_def)

lemma rejects_hex: "is_digits ds \<Longrightarrow> r \<noteq> [] \<Longrightarrow> hd r \<noteq> CHR ''x'' \<Longrightarrow> peg_rejects peg_parsehex (ds @ r)"
  unfolding peg_parsehex_def using not_0x [of ds r] by (intro rejects_bind rejects_literal) (simp add: numeral_2_eq_2)

lemma yields_decimal:
  "is_digits ds \<Longrightarrow> stops is_digit t \<Longrightarrow> peg_yields n peg_parsedecimal ds t (Some (int (number_value (Dec ds)))) n"
  unfolding peg_parsedecimal_def c110_eq [symmetric]
  by (rule yields_bind_last, rule yields_digit1, assumption, assumption, rule yields_return)

lemma yields_hex:
  assumes "is_xdigits ds" "stops is_xdigit t"
  shows "peg_yields n peg_parsehex (''0x'' @ ds) t (Some (int (number_value (Hex ds)))) n"
proof -
  have "peg_yields n (peg_bind (peg_plus xdigit_class) (\<lambda>ds. peg_return (''0x'', ds))) ds t (''0x'', ds) n"
    by (rule yields_bind_last, rule yields_xdigit1, fact+, rule yields_return)
  then have "peg_yields n (peg_bind (peg_literal ''0x'') (\<lambda>pre. peg_bind (peg_plus xdigit_class) (\<lambda>ds. peg_return (pre, ds))))
     (''0x'' @ ds) t (''0x'', ds) n"
    by (intro yields_bind [OF yields_literal])
  then show ?thesis unfolding peg_parsehex_def c109_eq [OF assms(1), symmetric]
    by (rule yields_bind_last) (rule yields_return)
qed

lemma yields_number:
  assumes "wf_number n" "blanks1 b" "stops is_blank t"
  shows "peg_yields pl peg_parsenumber (number_text n @ b) t (NumberValue (cmp_expr (padded_hex pl (number_value n)))) pl"
proof -
  have "peg_yields pl (peg_alt peg_parsehex peg_parsedecimal) (number_text n) (b @ t) (Some (int (number_value n))) pl"
  proof (cases n)
    case (Hex ds)
    then show ?thesis using assms yields_hex stops_blanks1 by (auto intro: yields_alt_first)
  next
    case (Dec ds)
    have "hd (b @ t) \<noteq> CHR ''x''" "b @ t \<noteq> []"
      using blanks1_hd [OF assms(2), of t] by (auto simp: is_blank_def)
    then have "peg_rejects peg_parsehex (ds @ b @ t)" using assms Dec by (intro rejects_hex) auto
    moreover have "peg_yields pl peg_parsedecimal ds (b @ t) (Some (int (number_value n))) pl"
      using assms Dec yields_decimal stops_blanks1 by simp
    ultimately show ?thesis unfolding Dec by (auto intro: yields_alt_second)
  qed
  moreover have "peg_yields pl (peg_bind peg_parse_blanks1 (\<lambda>_. peg_with_payload_len (peg_c85 (Some (int (number_value n))))))
      b t (NumberValue (cmp_expr (padded_hex pl (number_value n)))) pl"
    unfolding c85_eq [symmetric]
    by (rule yields_bind_last, rule yields_blanks1, fact+, rule yields_with_payload_len)
  ultimately show ?thesis unfolding peg_parsenumber_def by (rule yields_bind)
qed

section \<open>Addresses\<close>

lemma rejects_number_dotted: "is_digits a \<Longrightarrow> peg_rejects peg_parsenumber (a @ ''.'' @ t)"
proof -
  assume a: "is_digits a"
  have "peg_yields n (peg_alt peg_parsehex peg_parsedecimal) a (''.'' @ t) (Some (int (number_value (Dec a)))) n" for n
    by (intro yields_alt_second rejects_hex yields_decimal a) (simp_all add: stops_def is_digit_def)
  then show ?thesis unfolding peg_parsenumber_def
    by (intro rejects_bind_second [where s = a] rejects_bind rejects_blanks1) (simp_all add: stops_def is_blank_def)
qed

lemma stops_dot: "stops is_digit (''.'' @ t)" "stops is_digit (''/'' @ t)"
  by (simp_all add: stops_def is_digit_def)

lemma yields_octets:
  assumes "is_digits a" "is_digits b" "is_digits c" "is_digits d" "stops is_digit t"
  shows "peg_yields n peg_parseoctets (a @ ''.'' @ b @ ''.'' @ c @ ''.'' @ d) t [a, b, c, d] n"
  unfolding peg_parseoctets_def
  apply (rule yields_bind, rule yields_digit1, fact, simp only: append_assoc, rule stops_dot)
  apply (rule yields_bind, rule yields_literal)
  apply (rule yields_bind, rule yields_digit1, fact, simp only: append_assoc, rule stops_dot)
  apply (rule yields_bind, rule yields_literal)
  apply (rule yields_bind, rule yields_digit1, fact, simp only: append_assoc, rule stops_dot)
  apply (rule yields_bind, rule yields_literal)
  apply (rule yields_bind_last, rule yields_digit1, fact, fact, rule yields_return)
  done

lemma c87_eq: "is_octet a \<Longrightarrow> is_octet b \<Longrightarrow> is_octet c \<Longrightarrow> is_octet d \<Longrightarrow>
  peg_c87 [a, b, c, d] = Return (cmp_expr (octets_hex [a, b, c, d]))"
  by (simp add: peg_c87_def ipfamily_def octet_byte_digits is_octet_def octets_hex_def cmp_object_def cmp_expr_def
      nft_int_def nft_registers_def nft_cmp_ops_def)

lemma yields_ipv4:
  assumes v: "wf_value (CidrLit a b c d p)" and bl: "blanks1 bl" and t: "stops is_blank t"
  shows "peg_yields n peg_parsevalue (value_text (CidrLit a b c d p) @ bl) t
     (AddressValue (cmp_expr (octets_hex [a, b, c, d])) (prefix_expr p)) n"
proof -
  let ?q = "a @ ''.'' @ b @ ''.'' @ c @ ''.'' @ d"
  from v have os: "is_digits a" "is_digits b" "is_digits c" "is_digits d" and p: "is_digits p" "length p \<le> 2"
    by (simp_all add: is_octet_def)
  have "peg_yields n peg_parseipv4addr ?q (((''/'' @ p) @ bl) @ t) (cmp_expr (octets_hex [a, b, c, d])) n"
    unfolding peg_parseipv4addr_def
    apply (rule yields_bind_last, rule yields_octets, (rule os)+, simp only: append_assoc, rule stops_dot)
    apply (rule yields_run, rule c87_eq)
    using v apply simp_all
    done
  moreover have "peg_yields n peg_parsecidr (''/'' @ p) (bl @ t) (prefix_expr p) n"
  proof -
    have "peg_yields n peg_parseipv4cidr (''/'' @ p) (bl @ t) (maskFromCidr (digits_value 10 p) ''inet'', 4) n"
      by (intro yields_ipv4cidr p stops_blanks1 bl)
    moreover have "peg_c88 (maskFromCidr (digits_value 10 p) ''inet'', 4) = prefix_expr p"
      by (simp add: peg_c88_def prefix_expr_def nft_int_def nft_registers_def)
    ultimately show ?thesis unfolding peg_parsecidr_def
      by (metis yields_bind_last yields_alt_first yields_return)
  qed
  moreover have "peg_yields n (peg_bind peg_parse_blanks1 (\<lambda>_. peg_return x)) bl t x n" for x :: crit_value
    by (rule yields_bind_last, rule yields_blanks1, fact+, rule yields_return)
  ultimately have "peg_yields n peg_parseipv4 (?q @ (''/'' @ p) @ bl) t
      (AddressValue (cmp_expr (octets_hex [a, b, c, d])) (prefix_expr p)) n"
    unfolding peg_parseipv4_def by (intro yields_bind)
  then have "peg_yields n peg_parseaddress (?q @ (''/'' @ p) @ bl) t
      (AddressValue (cmp_expr (octets_hex [a, b, c, d])) (prefix_expr p)) n"
    unfolding peg_parseaddress_def by (rule yields_bind_last [OF yields_alt_first]) (rule yields_return)
  moreover have "peg_rejects peg_parsenumber ((?q @ (''/'' @ p) @ bl) @ t)"
    using rejects_number_dotted [OF os(1)] by simp
  ultimately have "peg_yields n (peg_alt peg_parsenumber peg_parseaddress) (?q @ (''/'' @ p) @ bl) t
      (AddressValue (cmp_expr (octets_hex [a, b, c, d])) (prefix_expr p)) n"
    by (intro yields_alt_second)
  then have "peg_yields n peg_parsevalue (?q @ (''/'' @ p) @ bl) t
      (AddressValue (cmp_expr (octets_hex [a, b, c, d])) (prefix_expr p)) n"
    unfolding peg_parsevalue_def by (rule yields_bind_last) (rule yields_return)
  then show ?thesis by simp
qed

fun crit_value_of :: "int \<Rightarrow> value_lit \<Rightarrow> crit_value" where
  "crit_value_of pl (NumberLit n) = NumberValue (cmp_expr (padded_hex pl (number_value n)))"
| "crit_value_of pl (CidrLit a b c d p) = AddressValue (cmp_expr (octets_hex [a, b, c, d])) (prefix_expr p)"

lemma yields_value:
  assumes "wf_value v" "blanks1 b" "stops is_blank t"
  shows "peg_yields pl peg_parsevalue (value_text v @ b) t (crit_value_of pl v) pl"
proof (cases v)
  case (NumberLit n)
  then have "peg_yields pl peg_parsenumber (number_text n @ b) t (crit_value_of pl v) pl"
    using assms yields_number by simp
  then show ?thesis unfolding peg_parsevalue_def NumberLit value_text.simps
    by (rule yields_bind_last [OF yields_alt_first]) (rule yields_return)
next
  case (CidrLit a b c d p)
  then show ?thesis using assms yields_ipv4 by auto
qed

section \<open>Criteria\<close>

lemma yields_word: "peg_yields n (peg_bind (peg_literal l) (\<lambda>_. peg_return x)) l t x n"
  by (rule yields_bind_last, rule yields_literal, rule yields_return)

lemma rejects_word: "take (length l) t \<noteq> l \<Longrightarrow> peg_rejects (peg_bind (peg_literal l) f) t"
  by (intro rejects_bind rejects_literal)

lemma yields_skip:
  "take (length l) (s @ t) \<noteq> l \<Longrightarrow> peg_yields n q s t x n' \<Longrightarrow> peg_yields n (peg_alt (peg_literal l) q) s t x n'"
  by (intro yields_alt_second rejects_literal)

lemma yields_skip_word:
  "take (length l) (s @ t) \<noteq> l \<Longrightarrow> peg_yields n q s t x n' \<Longrightarrow>
     peg_yields n (peg_alt (peg_bind (peg_literal l) f) q) s t x n'"
  by (intro yields_alt_second rejects_word)

lemmas yields_skips = yields_skip yields_skip_word

lemmas field_rule_defs = peg_parseipprotocol_def peg_parsedport_def peg_parsesaddr_def peg_parsedaddr_def

lemma header_text:
  assumes "peg_yields n p f (b @ t) field n" "blanks1 b" "stops is_blank t"
  shows "peg_yields n (peg_bind p (\<lambda>field. peg_bind peg_parse_blanks1 (\<lambda>_.
       peg_set_payload_len (snd field) (payload_object base field)))) (f @ b) t (payload_object base field) (snd field)"
  using assms by - (rule yields_bind, assumption, rule yields_bind_last, rule yields_blanks1, assumption+, rule yields_set_payload_len)

lemma payload_object_eqs:
  "payload_object ''NFT_PAYLOAD_TRANSPORT_HEADER'' (o1, l) = payload_expr (2, o1, l)"
  "payload_object ''NFT_PAYLOAD_NETWORK_HEADER'' (o1, l) = payload_expr (1, o1, l)"
  by (simp_all add: payload_object_def payload_expr_def nft_int_def nft_registers_def nft_payload_bases_def)

lemma field_values:
  "(nft_int iphdr_offsets ''protocol'', nft_int iphdr_sizes ''protocol'') = (9, 1)"
  "(nft_int tcphdr_offsets ''dest'', nft_int tcphdr_sizes ''dest'') = (2, 2)"
  "peg_c124 = (12, 4)" "peg_c127 = (16, 4)"
  by (simp_all add: nft_int_def iphdr_offsets_def iphdr_sizes_def tcphdr_offsets_def tcphdr_sizes_def peg_c124_def
      peg_c127_def ipfamily_def)

lemma yields_field:
  assumes "f \<in> set field_names" "blanks1 b" "stops is_blank t"
  shows "peg_yields pl peg_parsefield (f @ b) t (payload_expr (field_position f)) (snd (snd (field_position f)))"
proof -
  have "peg_yields pl (peg_alt peg_parsetransport_header peg_parsenetwork_header) (f @ b) t
      (payload_expr (field_position f)) (snd (snd (field_position f)))"
  proof -
    consider "f = ''prot''" | "f = ''dport''" | "f = ''saddr''" | "f = ''daddr''"
      using assms(1) by (auto simp: field_names_def)
    then show ?thesis
    proof cases
      case 1
      have "peg_yields pl (peg_alt peg_parseipprotocol peg_parsedport) f (b @ t) (9, 1) pl"
        unfolding 1 field_rule_defs field_values by (rule yields_alt_first, rule yields_word)
      from header_text [OF this assms(2,3), where base = "''NFT_PAYLOAD_TRANSPORT_HEADER''"] show ?thesis unfolding peg_parsetransport_header_def
        by (intro yields_alt_first) (simp add: 1 field_position_def payload_object_eqs)
    next
      case 2
      have "peg_yields pl (peg_alt peg_parseipprotocol peg_parsedport) f (b @ t) (2, 2) pl"
        unfolding 2 field_rule_defs field_values by (rule yields_alt_second, rule rejects_word, simp, rule yields_word)
      from header_text [OF this assms(2,3), where base = "''NFT_PAYLOAD_TRANSPORT_HEADER''"] show ?thesis unfolding peg_parsetransport_header_def
        by (intro yields_alt_first) (simp add: 2 field_position_def payload_object_eqs)
    next
      case 3
      have "peg_yields pl (peg_alt peg_parsesaddr peg_parsedaddr) f (b @ t) (12, 4) pl"
        unfolding 3 field_rule_defs field_values by (rule yields_alt_first, rule yields_word)
      from header_text [OF this assms(2,3), where base = "''NFT_PAYLOAD_NETWORK_HEADER''"]
      show ?thesis unfolding peg_parsetransport_header_def peg_parsenetwork_header_def field_rule_defs
        by (intro yields_alt_second rejects_bind rejects_alt rejects_word) (simp_all add: 3 field_position_def payload_object_eqs)
    next
      case 4
      have "peg_yields pl (peg_alt peg_parsesaddr peg_parsedaddr) f (b @ t) (16, 4) pl"
        unfolding 4 field_rule_defs field_values by (rule yields_alt_second, rule rejects_word, simp, rule yields_word)
      from header_text [OF this assms(2,3), where base = "''NFT_PAYLOAD_NETWORK_HEADER''"]
      show ?thesis unfolding peg_parsetransport_header_def peg_parsenetwork_header_def field_rule_defs
        by (intro yields_alt_second rejects_bind rejects_alt rejects_word) (simp_all add: 4 field_position_def payload_object_eqs)
    qed
  qed
  then show ?thesis unfolding peg_parsefield_def by (rule yields_bind_last) (rule yields_return)
qed

lemma rejects_criteria:
  "act \<in> {''drop'', ''accept''} \<Longrightarrow> peg_rejects peg_parserule_criteria act"
  unfolding peg_parserule_criteria_def peg_parsefield_def peg_parsetransport_header_def peg_parsenetwork_header_def field_rule_defs
  by (intro rejects_bind rejects_alt rejects_word) auto

lemma yields_criterion:
  assumes "wf_crit (f, v)" "blanks1 b1" "blanks1 b2" "stops is_blank t"
  shows "peg_yields pl peg_parserule_criteria ((f @ b1) @ (value_text v @ b2)) t
     (payload_expr (field_position f), crit_value_of (snd (snd (field_position f))) v) (snd (snd (field_position f)))"
  unfolding peg_parserule_criteria_def
  using assms by (intro yields_bind [OF yields_field yields_bind_last [OF yields_value yields_return]])
    (auto intro: stops_blank_value)

lemma stops_criteria:
  "spells_criteria cs s \<Longrightarrow> \<forall>c \<in> set cs. wf_crit c \<Longrightarrow> act \<in> {''drop'', ''accept''} \<Longrightarrow> stops is_blank (s @ act)"
proof (induction rule: spells_criteria.induct)
  case (criterion b1 b2 cs s f v)
  then show ?case by (simp only: append_assoc) (rule stops_blank, simp)
qed (auto simp: stops_def is_blank_def)

lemma criteria_loop_Cons:
  "criteria_loop ((payload_expr (field_position f), crit_value_of (snd (snd (field_position f))) v) # xs) es =
     criteria_loop xs (es @ crit_exprs (f, v))"
  by (cases v) (simp_all add: crit_exprs_def Let_def)

lemma yields_criteria:
  "spells_criteria cs s \<Longrightarrow> \<forall>c \<in> set cs. wf_crit c \<Longrightarrow> act \<in> {''drop'', ''accept''} \<Longrightarrow>
     \<exists>xs n'. peg_yields n (peg_star peg_parserule_criteria) s act xs n' \<and> length xs = length cs \<and>
       (\<forall>es. criteria_loop xs es = es @ concat (map crit_exprs cs))"
proof (induction cs s arbitrary: n rule: spells_criteria.induct)
  case no_criteria
  then show ?case using yields_star_Nil [OF rejects_criteria [of act], of n]
    by (intro exI [of _ "[]"] exI [of _ n]) simp
next
  case (criterion b1 b2 cs s f v)
  let ?l = "snd (snd (field_position f))"
  obtain xs n' where ih: "peg_yields ?l (peg_star peg_parserule_criteria) s act xs n'" "length xs = length cs"
    "\<And>es. criteria_loop xs es = es @ concat (map crit_exprs cs)"
    using criterion.IH [of ?l] criterion.prems by auto
  have st: "stops is_blank (s @ act)" using criterion.hyps(3) criterion.prems by (intro stops_criteria) auto
  have "peg_yields n (peg_star peg_parserule_criteria) (((f @ b1) @ (value_text v @ b2)) @ s) act
     ((payload_expr (field_position f), crit_value_of ?l v) # xs) n'"
    using criterion.hyps(1,2) criterion.prems
    by (intro yields_star_Cons [OF yields_criterion _ ih(1)] st) (auto simp: blanks1_def)
  then show ?case using ih(2,3) by (intro exI conjI) (auto simp del: criteria_loop.simps simp: criteria_loop_Cons)
qed

section \<open>Objects\<close>

definition protocol_exprs :: "string \<Rightarrow> jsval list" where
  "protocol_exprs pt = [payload_expr (1, 9, 1), cmp_expr (if pt = ''tcp'' then ''06'' else ''11'')]"

lemma yields_protocol:
  assumes "pt \<in> {''tcp'', ''udp''}" "blanks1 b" "stops is_blank t"
  shows "peg_yields n peg_parseprotocol (pt @ b) t (protocol_exprs pt) n"
proof -
  let ?code = "if pt = ''tcp'' then ''0x06'' else ''0x11''"
  have "peg_yields n (peg_alt peg_parsetcp peg_parseudp) pt (b @ t) ?code n"
  proof (cases "pt = ''tcp''")
    case True
    then show ?thesis unfolding peg_parsetcp_def by (simp add: yields_alt_first yields_word)
  next
    case False
    with assms(1) have "pt = ''udp''" by simp
    then show ?thesis unfolding peg_parsetcp_def peg_parseudp_def
      by (simp add: yields_skips yields_word)
  qed
  moreover have "peg_c81 ?code = protocol_exprs pt"
    by (simp add: peg_c81_def protocol_exprs_def field_values payload_object_eqs)
      (simp add: cmp_object_def cmp_expr_def nft_int_def nft_registers_def nft_cmp_ops_def)
  ultimately show ?thesis unfolding peg_parseprotocol_def using assms(2,3)
    by - (rule yields_bind, assumption, rule yields_bind_last, rule yields_blanks1, assumption+, simp add: yields_return)
qed

lemma yields_action:
  "act \<in> {''drop'', ''accept''} \<Longrightarrow> peg_yields n peg_parseaction act t (action_expr act) n"
proof -
  assume a: "act \<in> {''drop'', ''accept''}"
  have "verdict_object 0 = action_expr ''drop''" "verdict_object 1 = action_expr ''accept''"
    by (simp_all add: verdict_object_def action_expr_def nft_int_def nft_registers_def)
  moreover have "peg_yields n peg_parseaction ''drop'' t (verdict_object 0) n"
    unfolding peg_parseaction_def peg_parsedrop_def by (rule yields_alt_first, rule yields_word)
  moreover have "peg_yields n peg_parseaction ''accept'' t (verdict_object 1) n"
    unfolding peg_parseaction_def peg_parsedrop_def peg_parseaccept_def by (rule yields_skips, simp, rule yields_word)
  ultimately show ?thesis using a by auto
qed

lemma yields_table:
  assumes "is_name tb" "blanks b" "stops is_alpha (b @ t)" "stops is_blank t"
  shows "peg_yields n peg_parsetable (tb @ b) t tb n"
  unfolding peg_parsetable_def using assms
  by - (rule yields_bind, rule yields_alpha1, assumption+, rule yields_bind_last, rule yields_blanks0, assumption+, rule yields_return)

lemma yields_chain:
  assumes "is_name ch" "blanks b" "stops is_alpha (b @ t)" "stops is_blank t"
  shows "peg_yields n peg_parsechain (ch @ b) t ch n"
proof -
  have "peg_yields n (peg_opt peg_parse_blanks1) b t (if b = [] then None else Some b) n"
    using assms(2,4) by (cases b) (simp_all add: yields_opt_None yields_opt_Some rejects_blanks1 yields_blanks1 blanks1_def)
  then show ?thesis unfolding peg_parsechain_def using assms
    by - (rule yields_bind, rule yields_alpha1, assumption+, rule yields_bind_last, assumption, rule yields_return)
qed

lemma stops_blank_words: "pt \<in> {''tcp'', ''udp''} \<Longrightarrow> stops is_blank (pt @ t)"
  by (auto simp: stops_def is_blank_def)

lemma yields_rule_expression:
  assumes ob: "wf_object (RuleLit tb ch pt cs act)" and b: "blanks1 b1" "blanks1 b2" "blanks1 b3"
    and cs: "spells_criteria cs s"
  shows "\<exists>n'. peg_yields n peg_parserule_expression ((tb @ b1) @ (ch @ b2) @ (pt @ b3) @ s @ act) []
     (Obj [(''expressions'', Arr (protocol_exprs pt @ concat (map crit_exprs cs) @ [action_expr act])),
           (''table'', Str tb), (''chain'', Str ch)]) n'"
proof -
  from ob have act: "act \<in> {''drop'', ''accept''}" by simp
  obtain xs n' where xs: "peg_yields n (peg_star peg_parserule_criteria) s act xs n'" "length xs = length cs"
    "\<And>es. criteria_loop xs es = es @ concat (map crit_exprs cs)"
    using yields_criteria [OF cs, of act n] ob by auto
  have 1: "peg_yields n (peg_plus peg_parserule_criteria) s (act @ []) xs n'"
    using xs ob by (intro yields_plus) auto
  have "peg_c30 tb ch (protocol_exprs pt) xs (action_expr act) =
     Obj [(''expressions'', Arr (protocol_exprs pt @ concat (map crit_exprs cs) @ [action_expr act])),
           (''table'', Str tb), (''chain'', Str ch)]"
    using xs(3) by (simp add: peg_c30_def protocol_exprs_def)
  then have 2: "peg_yields n' (peg_bind peg_parseaction (\<lambda>act'. peg_return (peg_c30 tb ch (protocol_exprs pt) xs act'))) act []
     (Obj [(''expressions'', Arr (protocol_exprs pt @ concat (map crit_exprs cs) @ [action_expr act])),
           (''table'', Str tb), (''chain'', Str ch)]) n'"
    by (metis yields_bind_last yields_return yields_action [OF act])
  have st: "stops is_blank ((s @ act) @ [])" using stops_criteria [OF cs _ act] ob by simp
  have "peg_yields n peg_parsetable (tb @ b1) (((ch @ b2) @ (pt @ b3) @ s @ act) @ []) tb n"
    using ob b by (intro yields_table) (auto simp: blanks1_def stops_blank stops_blanks1)
  moreover have "peg_yields n peg_parsechain (ch @ b2) (((pt @ b3) @ s @ act) @ []) ch n"
    using ob b stops_blank_words [of pt] by (intro yields_chain) (auto simp: blanks1_def stops_blank stops_blanks1)
  moreover have "peg_yields n peg_parseprotocol (pt @ b3) ((s @ act) @ []) (protocol_exprs pt) n"
    using ob by (intro yields_protocol b st) simp
  ultimately have "peg_yields n peg_parserule_expression ((tb @ b1) @ (ch @ b2) @ (pt @ b3) @ s @ act) []
     (Obj [(''expressions'', Arr (protocol_exprs pt @ concat (map crit_exprs cs) @ [action_expr act])),
           (''table'', Str tb), (''chain'', Str ch)]) n'"
    unfolding peg_parserule_expression_def using 1 2 by (intro yields_bind)
  then show ?thesis ..
qed

lemma yields_hooktype: "ht \<in> set hook_types \<Longrightarrow> peg_yields n peg_parsehooktype ht t ht n"
proof -
  have "peg_yields n peg_parsehooktype ''filter'' t ''filter'' n"
    unfolding peg_parsehooktype_def by (rule yields_alt_first, rule yields_literal)
  moreover have "peg_yields n peg_parsehooktype ''route'' t ''route'' n"
    unfolding peg_parsehooktype_def by (rule yields_skips, simp, rule yields_alt_first, rule yields_literal)
  moreover have "peg_yields n peg_parsehooktype ''nat'' t ''nat'' n"
    unfolding peg_parsehooktype_def by (rule yields_skips, simp, rule yields_skips, simp, rule yields_literal)
  ultimately show "ht \<in> set hook_types \<Longrightarrow> ?thesis" by (auto simp: hook_types_def)
qed

lemma yields_hooknum: "hk \<in> set hook_names \<Longrightarrow> peg_yields n peg_parsehooknum hk t (hook_number hk) n"
proof -
  have "peg_yields n peg_parsehooknum ''prerouting'' t 0 n"
    unfolding peg_parsehooknum_def by (rule yields_alt_first, rule yields_word)
  moreover have "peg_yields n peg_parsehooknum ''input'' t 1 n"
    unfolding peg_parsehooknum_def by ((rule yields_skips, (simp; fail))+, rule yields_alt_first, rule yields_word)
  moreover have "peg_yields n peg_parsehooknum ''forward'' t 2 n"
    unfolding peg_parsehooknum_def by ((rule yields_skips, (simp; fail))+, rule yields_alt_first, rule yields_word)
  moreover have "peg_yields n peg_parsehooknum ''output'' t 3 n"
    unfolding peg_parsehooknum_def by ((rule yields_skips, (simp; fail))+, rule yields_alt_first, rule yields_word)
  moreover have "peg_yields n peg_parsehooknum ''postrouting'' t 4 n"
    unfolding peg_parsehooknum_def by ((rule yields_skips, (simp; fail))+, rule yields_word)
  ultimately show "hk \<in> set hook_names \<Longrightarrow> ?thesis" by (auto simp: hook_names_def hook_number_def)
qed

lemma stops_blank_lit: "\<not> is_blank c \<Longrightarrow> stops is_blank (c # t)"
  by (simp add: stops_def)

lemma not_blank_chars [simp]:
  "\<not> is_blank CHR ''{''" "\<not> is_blank CHR ''}''" "\<not> is_blank CHR ''t''" "\<not> is_blank CHR ''h''" "\<not> is_blank CHR ''p''"
  by (simp_all add: is_blank_def)

lemma yields_hook_expression:
  assumes ob: "wf_object (ChainLit tb ch ht hk pr)"
    and b: "blanks1 b2" "blanks b3" "blanks b4" "blanks1 b5" "blanks1 b6" "blanks1 b7" "blanks1 b8" "blanks1 b9" "blanks b10"
  shows "peg_yields n peg_parsehook_expression
     ((tb @ b2) @ (ch @ b3) @ ''{'' @ b4 @ ''type'' @ b5 @ ht @ b6 @ ''hook'' @ b7 @ hk @ b8 @
        ''priority'' @ b9 @ pr @ b10 @ ''}'') t
     (Obj [(''table'', Str tb), (''name'', Str ch), (''type'', Str ht),
        (''hook'', Obj [(''hooknum'', Num (hook_number hk)), (''priority'', Str pr)])]) n"
proof -
  from ob have wf: "is_name tb" "is_name ch" "ht \<in> set hook_types" "hk \<in> set hook_names" "is_digits pr" by simp_all
  have alpha: "stops is_alpha (b2 @ x)" "stops is_alpha (b3 @ ''{'' @ x)" for x
  proof -
    show "stops is_alpha (b2 @ x)" by (rule stops_blanks1 [OF b(1)])
    show "stops is_alpha (b3 @ ''{'' @ x)"
    proof (cases "b3 = []")
      case False
      with b(2) show ?thesis by (intro stops_blanks1) (simp add: blanks1_def)
    qed (simp add: stops_def is_alpha_def)
  qed
  have digit: "stops is_digit (b10 @ ''}'' @ x)" for x
  proof (cases "b10 = []")
    case False
    with b(9) show ?thesis by (intro stops_blanks1) (simp add: blanks1_def)
  qed (simp add: stops_def is_digit_def)
  have prio: "peg_yields n peg_parsehookprio pr (b10 @ ''}'' @ x) pr n" for x
    unfolding peg_parsehookprio_def by (rule yields_bind_last, rule yields_digit1, rule wf, rule digit, rule yields_return)
  show ?thesis unfolding peg_parsehook_expression_def peg_c43_def [symmetric]
    apply (rule yields_bind, rule yields_table, rule wf, use b(1) in \<open>simp add: blanks1_def\<close>, rule alpha,
        simp only: append_assoc, rule stops_blank, rule wf)
    apply (rule yields_bind, rule yields_chain, rule wf, rule b, simp only: append_assoc, rule alpha, simp add: stops_blank_lit)
    apply (rule yields_bind, rule yields_literal)
    apply (rule yields_bind, rule yields_blanks0, rule b, simp add: stops_blank_lit)
    apply (rule yields_bind, rule yields_literal)
    apply (rule yields_bind, rule yields_blanks1, rule b, simp only: append_assoc, rule stops_blank, rule wf)
    apply (rule yields_bind, rule yields_hooktype, rule wf)
    apply (rule yields_bind, rule yields_blanks1, rule b, simp add: stops_blank_lit)
    apply (rule yields_bind, rule yields_literal)
    apply (rule yields_bind, rule yields_blanks1, rule b, simp only: append_assoc, rule stops_blank, rule wf)
    apply (rule yields_bind, rule yields_hooknum, rule wf)
    apply (rule yields_bind, rule yields_blanks1, rule b, simp add: stops_blank_lit)
    apply (rule yields_bind, rule yields_literal)
    apply (rule yields_bind, rule yields_blanks1, rule b, simp only: append_assoc, rule stops_blank, rule wf)
    apply (rule yields_bind, simp only: append_assoc, rule prio)
    apply (rule yields_bind, rule yields_blanks0, rule b, simp add: stops_blank_lit)
    apply (rule yields_bind_last, rule yields_literal, rule yields_return)
    done
qed

section \<open>Commands\<close>

lemma stops_object: "spells_object ob s \<Longrightarrow> stops is_blank (s @ t)"
  by (erule spells_object.cases) (auto simp: stops_def is_blank_def)

definition object_result :: "object_lit \<Rightarrow> string \<times> jsval" where
  "object_result ob = (object_type ob, case object_params ob of [] \<Rightarrow> Null | p # ps \<Rightarrow> snd p)"

lemma c3_eq: "peg_c3 op fam (object_result ob) = command_object (CommandLit op fam ob)"
  by (cases ob; cases fam; simp add: peg_c3_def object_result_def ipfamily_def)

lemma yields_object:
  "spells_object ob s \<Longrightarrow> wf_object ob \<Longrightarrow> \<exists>n'. peg_yields n peg_parsecommand_expression s [] (object_result ob) n'"
proof (induction rule: spells_object.induct)
  case (table b1 b2 tb)
  have "peg_yields n peg_parsetable (tb @ b2) [] tb n"
    using table by (intro yields_table) (auto simp: stops_def, cases b2, auto simp: blanks_def dest: blank_not)
  then have "peg_yields n peg_parsetable_expression (tb @ b2) [] (Obj [(''name'', Str tb)]) n"
    unfolding peg_parsetable_expression_def by (rule yields_bind_last) (rule yields_return)
  then have "peg_yields n (peg_bind peg_parsetable_expression (\<lambda>tb. peg_return (''table'', tb))) (tb @ b2) []
      (object_result (TableLit tb)) n"
    by (rule yields_bind_last) (simp add: object_result_def yields_return)
  moreover have "stops is_blank ((tb @ b2) @ [])" using table by (simp add: stops_blank)
  ultimately have "peg_yields n (peg_bind (peg_literal ''table'') (\<lambda>_. peg_bind peg_parse_blanks1 (\<lambda>_.
          peg_bind peg_parsetable_expression (\<lambda>tb. peg_return (''table'', tb))))) (''table'' @ b1 @ tb @ b2) []
      (object_result (TableLit tb)) n"
    using table by (intro yields_bind [OF yields_literal] yields_bind [OF yields_blanks1])
  then show ?case unfolding peg_parsecommand_expression_def by (intro exI yields_alt_first)
next
  case (chain b1 b2 b3 b4 b5 b6 b7 b8 b9 b10 tb ch ht hk pr)
  let ?s = "(tb @ b2) @ (ch @ b3) @ ''{'' @ b4 @ ''type'' @ b5 @ ht @ b6 @ ''hook'' @ b7 @ hk @ b8 @
        ''priority'' @ b9 @ pr @ b10 @ ''}''"
  note yields_hook_expression [OF chain.prems chain.hyps(2-10), of n "[]"]
  then have "peg_yields n (peg_bind peg_parsehook_expression (\<lambda>ch. peg_return (''chain'', ch))) ?s []
      (object_result (ChainLit tb ch ht hk pr)) n"
    by (rule yields_bind_last) (simp add: object_result_def yields_return)
  moreover have "stops is_blank (?s @ [])" using chain.prems by (simp add: stops_blank)
  ultimately have "peg_yields n (peg_bind (peg_literal ''chain'') (\<lambda>_. peg_bind peg_parse_blanks1 (\<lambda>_.
          peg_bind peg_parsehook_expression (\<lambda>ch. peg_return (''chain'', ch))))) (''chain'' @ b1 @ ?s) []
      (object_result (ChainLit tb ch ht hk pr)) n"
    using chain.hyps by (intro yields_bind [OF yields_literal] yields_bind [OF yields_blanks1])
  then show ?case unfolding peg_parsecommand_expression_def
    by (intro exI, rule_tac yields_skips, simp, rule_tac yields_alt_first)
next
  case (rule b0 b1 b2 b3 cs s tb ch pt act)
  let ?s = "(tb @ b1) @ (ch @ b2) @ (pt @ b3) @ s @ act"
  obtain n' where "peg_yields n peg_parserule_expression ?s []
     (Obj [(''expressions'', Arr (protocol_exprs pt @ concat (map crit_exprs cs) @ [action_expr act])),
           (''table'', Str tb), (''chain'', Str ch)]) n'"
    using yields_rule_expression [OF rule.prems rule.hyps(2-5)] by blast
  then have "peg_yields n (peg_bind (peg_opt peg_parserule_expression) (\<lambda>ru. peg_return (peg_c28 ru))) ?s []
      (object_result (RuleLit tb ch pt cs act)) n'"
    by (intro yields_bind_last [OF yields_opt_Some]) (auto simp: object_result_def peg_c28_def protocol_exprs_def yields_return)
  moreover have "stops is_blank (?s @ [])" using rule.prems by (simp add: stops_blank)
  ultimately have "peg_yields n (peg_bind (peg_literal ''rule'') (\<lambda>_. peg_bind peg_parse_blanks0 (\<lambda>_.
          peg_bind (peg_opt peg_parserule_expression) (\<lambda>ru. peg_return (peg_c28 ru))))) (''rule'' @ b0 @ ?s) []
      (object_result (RuleLit tb ch pt cs act)) n'"
    using rule.hyps by (intro yields_bind [OF yields_literal] yields_bind [OF yields_blanks0])
  then show ?case unfolding peg_parsecommand_expression_def
    by (intro exI) ((rule yields_skips, (simp; fail))+)
next
  case (rules b0)
  have "peg_rejects peg_parserule_expression []"
    unfolding peg_parserule_expression_def peg_parsetable_def alpha_class_def
    by (intro rejects_bind rejects_plus rejects_class) simp
  then have "peg_yields n (peg_bind (peg_opt peg_parserule_expression) (\<lambda>ru. peg_return (peg_c28 ru))) [] []
      (object_result RulesLit) n"
    by (intro yields_bind_last [OF yields_opt_None]) (auto simp: object_result_def peg_c28_def yields_return)
  then have "peg_yields n (peg_bind peg_parse_blanks0 (\<lambda>_.
          peg_bind (peg_opt peg_parserule_expression) (\<lambda>ru. peg_return (peg_c28 ru)))) b0 [] (object_result RulesLit) n"
    using rules by (intro yields_bind_last [OF yields_blanks0]) (auto simp: stops_def)
  then have "peg_yields n (peg_bind (peg_literal ''rule'') (\<lambda>_. peg_bind peg_parse_blanks0 (\<lambda>_.
          peg_bind (peg_opt peg_parserule_expression) (\<lambda>ru. peg_return (peg_c28 ru))))) (''rule'' @ b0) []
      (object_result RulesLit) n"
    by (intro yields_bind [OF yields_literal])
  then show ?case unfolding peg_parsecommand_expression_def
    by (intro exI) ((rule yields_skips, (simp; fail))+)
qed

lemma stops_object_ne: "spells_object ob s \<Longrightarrow> s \<noteq> []"
  by (erule spells_object.cases) auto

lemma yields_family:
  assumes "fam \<in> {''ip'', ''ip6''}" "blanks1 b" "stops is_blank t"
  shows "peg_yields n peg_parsefamily (fam @ b) t fam n"
proof -
  have "take (length ''ip6'') (''ip'' @ b @ t) \<noteq> ''ip6''"
    using assms(2) by (cases b) (auto simp: blanks1_def blanks_def is_blank_def)
  then have "peg_yields n (peg_alt (peg_literal ''ip6'') (peg_literal ''ip'')) ''ip'' (b @ t) ''ip'' n"
    by (rule yields_skip) (rule yields_literal)
  moreover have "peg_yields n (peg_alt (peg_literal ''ip6'') (peg_literal ''ip'')) ''ip6'' (b @ t) ''ip6'' n"
    by (rule yields_alt_first, rule yields_literal)
  ultimately have "peg_yields n (peg_alt (peg_literal ''ip6'') (peg_literal ''ip'')) fam (b @ t) fam n"
    using assms(1) by auto
  then show ?thesis unfolding peg_parsefamily_def
    by (rule yields_bind) (rule yields_bind_last, rule yields_blanks1, fact+, rule yields_return)
qed

lemma rejects_family: "spells_object ob s \<Longrightarrow> peg_rejects peg_parsefamily s"
  unfolding peg_parsefamily_def
  by (intro rejects_bind rejects_alt rejects_literal; erule spells_object.cases) auto

lemma yields_operation:
  assumes "op \<in> set operations" "blanks1 b" "stops is_blank t"
  shows "peg_yields n peg_parseoperation (op @ b) t op n"
proof -
  let ?p = "peg_alt (peg_literal ''add'') (peg_alt (peg_literal ''del'') (peg_alt (peg_literal ''list'')
       (peg_alt (peg_literal ''get'') (peg_literal ''flush''))))"
  have "peg_yields n ?p ''add'' (b @ t) ''add'' n" by (rule yields_alt_first, rule yields_literal)
  moreover have "peg_yields n ?p ''del'' (b @ t) ''del'' n"
    by ((rule yields_skips, (simp; fail))+, rule yields_alt_first, rule yields_literal)
  moreover have "peg_yields n ?p ''list'' (b @ t) ''list'' n"
    by ((rule yields_skips, (simp; fail))+, rule yields_alt_first, rule yields_literal)
  moreover have "peg_yields n ?p ''get'' (b @ t) ''get'' n"
    by ((rule yields_skips, (simp; fail))+, rule yields_alt_first, rule yields_literal)
  moreover have "peg_yields n ?p ''flush'' (b @ t) ''flush'' n"
    by ((rule yields_skips, (simp; fail))+, rule yields_literal)
  ultimately have "peg_yields n ?p op (b @ t) op n" using assms(1) by (auto simp: operations_def)
  then show ?thesis unfolding peg_parseoperation_def
    by (rule yields_bind) (rule yields_bind_last, rule yields_blanks1, fact+, rule yields_return)
qed

lemma yields_start:
  assumes "spells c s" "wf_command c"
  shows "\<exists>n. peg_yields 0 peg_parsestart s [] (command_object c) n"
proof -
  have "\<exists>n. peg_yields 0 peg_parsecommand s [] (command_object c) n"
    using assms
  proof (induction rule: spells.induct)
    case (no_family b1 ob s op)
    obtain n where ob: "peg_yields 0 peg_parsecommand_expression s [] (object_result ob) n"
      using yields_object [OF no_family(2), of 0] no_family.prems by auto
    have "peg_yields 0 (peg_bind (peg_opt peg_parsefamily) (\<lambda>fm. peg_bind peg_parsecommand_expression
         (\<lambda>ce. peg_return (peg_c3 op fm ce)))) ([] @ s) [] (command_object (CommandLit op None ob)) n"
      unfolding c3_eq [symmetric] using rejects_family [OF no_family(2)]
      by - (rule yields_bind, rule yields_opt_None, simp, rule yields_bind_last, rule ob, rule yields_return)
    moreover have "peg_yields 0 peg_parseoperation (op @ b1) (([] @ s) @ []) op 0"
      using no_family stops_object [OF no_family(2), of "[]"] by (intro yields_operation) auto
    ultimately have "peg_yields 0 peg_parsecommand ((op @ b1) @ [] @ s) [] (command_object (CommandLit op None ob)) n"
      unfolding peg_parsecommand_def by (rule yields_bind [rotated])
    then show ?case by auto
  next
    case (family b1 b2 ob s op fam)
    obtain n where ob: "peg_yields 0 peg_parsecommand_expression s [] (object_result ob) n"
      using yields_object [OF family(3), of 0] family.prems by auto
    have fam: "fam \<in> {''ip'', ''ip6''}" using family.prems by simp
    have "peg_yields 0 (peg_opt peg_parsefamily) (fam @ b2) (s @ []) (Some fam) 0"
      using fam family stops_object [OF family(3), of "[]"] by (intro yields_opt_Some yields_family) auto
    then have "peg_yields 0 (peg_bind (peg_opt peg_parsefamily) (\<lambda>fm. peg_bind peg_parsecommand_expression
         (\<lambda>ce. peg_return (peg_c3 op fm ce)))) ((fam @ b2) @ s) [] (command_object (CommandLit op (Some fam) ob)) n"
      unfolding c3_eq [symmetric]
      by - (rule yields_bind, assumption, rule yields_bind_last, rule ob, rule yields_return)
    moreover have "peg_yields 0 peg_parseoperation (op @ b1) (((fam @ b2) @ s) @ []) op 0"
      using family fam by (intro yields_operation) (auto simp: stops_def is_blank_def)
    ultimately have "peg_yields 0 peg_parsecommand ((op @ b1) @ (fam @ b2) @ s) [] (command_object (CommandLit op (Some fam) ob)) n"
      unfolding peg_parsecommand_def by (rule yields_bind [rotated])
    then show ?case by auto
  qed
  then obtain n where "peg_yields 0 peg_parsecommand s [] (command_object c) n" by blast
  then have "peg_yields 0 peg_parsestart s [] (command_object c) n"
    unfolding peg_parsestart_def by (rule yields_bind_last) (rule yields_return)
  then show ?thesis ..
qed

lemma nf_parse_spells: "spells c s \<Longrightarrow> wf_command c \<Longrightarrow> nf_parse s = Return (command_object c)"
  unfolding nf_parse_def using yields_start [of c s] peg_parse_yields [of peg_parsestart s "command_object c"] by fastforce

text \<open>
  C1. The parser accepts exactly the spellings of well-formed commands, whatever blanks they are written
  with, and returns the options object the command stands for; no text has two meanings.
\<close>

theorem nf_parse_iff: "nf_parse s = Return v \<longleftrightarrow> (\<exists>c. wf_command c \<and> spells c s \<and> v = command_object c)"
proof
  assume r: "nf_parse s = Return v"
  then obtain c where c: "wf_command c" "spells c s"
    using peg_parse_Return [OF spec_start] unfolding nf_parse_def by blast
  with r show "\<exists>c. wf_command c \<and> spells c s \<and> v = command_object c"
    using nf_parse_spells by auto
next
  assume "\<exists>c. wf_command c \<and> spells c s \<and> v = command_object c"
  then show "nf_parse s = Return v" using nf_parse_spells by blast
qed

lemma blank_text [simp]: "blanks1 '' ''" "blanks '' ''" "blanks []"
  by (simp_all add: blanks1_def blanks_def is_blank_def)

lemma spells_criteria_text: "spells_criteria cs (criteria_text cs)"
proof (induction cs)
  case Nil
  then show ?case by (simp add: criteria_text_def spells_criteria.no_criteria)
next
  case (Cons c cs)
  then show ?case using spells_criteria.criterion [of "'' ''" "'' ''" cs "criteria_text cs" "fst c" "snd c"]
    by (cases c) (simp add: criteria_text_def)
qed

lemma spells_object_text: "spells_object ob (object_text ob)"
proof (cases ob)
  case (TableLit n)
  then show ?thesis using spells_object.table [of "'' ''" "[]" n] by simp
next
  case (ChainLit tb ch ht hk pr)
  then show ?thesis
    using spells_object.chain [of "'' ''" "'' ''" "'' ''" "'' ''" "'' ''" "'' ''" "'' ''" "'' ''" "'' ''" "'' ''" tb ch ht hk pr]
    by simp
next
  case (RuleLit tb ch pt cs act)
  then show ?thesis
    using spells_object.rule [OF _ _ _ _ spells_criteria_text, of "'' ''" "'' ''" "'' ''" "'' ''" tb ch pt cs act] by simp
next
  case RulesLit
  then show ?thesis using spells_object.rules [of "[]"] by simp
qed

lemma spells_text: "spells c (command_text c)"
proof (cases c)
  case (CommandLit op fam ob)
  show ?thesis unfolding CommandLit
    using spells.no_family [of "'' ''" ob "object_text ob" op] spells_object_text [of ob]
      spells.family [of "'' ''" "'' ''" ob "object_text ob" op] by (cases fam) auto
qed

text \<open>
  Writing a well-formed command and parsing the text gives the options of the command.
\<close>

theorem nf_parse_print: "wf_command c \<Longrightarrow> nf_parse (command_text c) = Return (command_object c)"
  by (rule nf_parse_spells [OF spells_text])

lemma nf_parse_print_witness:
  "nf_parse ''add ip rule filter input tcp dport 22 saddr 192.168.56.0/23 accept'' =
     Return (command_object (CommandLit ''add'' (Some ''ip'') (RuleLit ''filter'' ''input'' ''tcp''
       [(''dport'', NumberLit (Dec ''22'')), (''saddr'', CidrLit ''192'' ''168'' ''56'' ''0'' ''23'')] ''accept'')))"
proof -
  let ?c = "CommandLit ''add'' (Some ''ip'') (RuleLit ''filter'' ''input'' ''tcp''
       [(''dport'', NumberLit (Dec ''22'')), (''saddr'', CidrLit ''192'' ''168'' ''56'' ''0'' ''23'')] ''accept'')"
  have "wf_command ?c" by code_simp
  then show ?thesis using nf_parse_print [of ?c] by (simp add: criteria_text_def)
qed

end
