(* ===== verification/NfText.thy ===== *)
theory NfText
  imports NfComplete
begin

text \<open>
  Consequences for the command line: how a parse ends and what it can throw, that parsed options suit the
  command builder, what the values of a rule become in the message, and the whole way from the text of a
  command to the bytes of its request.
\<close>

section \<open>How a parse ends\<close>

lemma advance_bounds:
  "advance cs (l, c, cr) = (l', c', cr') \<Longrightarrow> 1 \<le> c \<Longrightarrow> l \<le> l' \<and> 1 \<le> c' \<and> l' \<le> l + length cs \<and> c' \<le> c + length cs"
proof (induction cs arbitrary: l c cr)
  case (Cons ch cs)
  define d where "d = (if ch = CHR ''\<newline>'' then ((if \<not> cr then l + 1 else l), 1, False)
        else if ch = CHR 0x0D then (l + 1, 1, True) else (l, c + 1, False))"
  obtain l1 c1 cr1 where d1: "d = (l1, c1, cr1)" by (cases d)
  have "advance cs (l1, c1, cr1) = (l', c', cr')" using Cons.prems(1) d1 by (simp add: d_def)
  moreover have "l \<le> l1 \<and> l1 \<le> l + 1 \<and> 1 \<le> c1 \<and> c1 \<le> c + 1"
    using d1 Cons.prems(2) by (auto simp: d_def split: if_splits)
  ultimately show ?case using Cons.IH [of l1 c1 cr1] by auto
qed simp

lemma computePosDetails_bounds:
  assumes "computePosDetails inp pos = (l, c)" "pos \<le> length inp"
  shows "1 \<le> l \<and> 1 \<le> c \<and> l \<le> pos + 1 \<and> c \<le> pos + 1"
proof -
  obtain l' c' cr where a: "advance (take pos inp) (1, 1, False) = (l', c', cr)"
    by (cases "advance (take pos inp) (1, 1, False)")
  with assms(1) have "l' = l" "c' = c" by (simp_all add: computePosDetails_def)
  with advance_bounds [OF a] assms(2) show ?thesis by auto
qed

lemma distinct_remdups_adj: "sorted xs \<Longrightarrow> distinct (remdups_adj xs)"
  by (induction xs rule: remdups_adj.induct) (auto dest: order_antisym)

lemma cleanupExpected_facts: "set (cleanupExpected es) = set es" "sorted (cleanupExpected es)" "distinct (cleanupExpected es)"
  by (simp_all add: cleanupExpected_def sorted_remdups_adj distinct_remdups_adj)

text \<open>A syntax error as \<open>buildException\<close> makes them.\<close>

fun proper_syntax_error :: "string \<Rightarrow> js_error \<Rightarrow> bool" where
  "proper_syntax_error inp (SyntaxError msg expected found off line column) \<longleftrightarrow>
     off \<le> length inp \<and> found = (if off < length inp then Some (inp ! off) else None) \<and>
     expected \<noteq> [] \<and> sorted expected \<and> distinct expected \<and> msg = buildMessage expected found \<and>
     1 \<le> line \<and> 1 \<le> column \<and> line \<le> off + 1 \<and> column \<le> off + 1"
| "proper_syntax_error inp _ \<longleftrightarrow> False"

lemma buildException_proper:
  assumes "pos \<le> length inp" "es \<noteq> []"
  shows "proper_syntax_error inp (buildException inp es pos)"
proof -
  obtain l c where d: "computePosDetails inp pos = (l, c)" by (cases "computePosDetails inp pos")
  have "cleanupExpected es \<noteq> []" using assms(2) cleanupExpected_facts(1) [of es] by auto
  then show ?thesis using computePosDetails_bounds [OF d assms(1)] assms cleanupExpected_facts [of es]
    by (simp add: buildException_def d Let_def)
qed

lemma peg_fail_inv: "peg_inv inp st \<Longrightarrow> peg_inv inp (peg_fail d st) \<and> maxFailExpected (peg_fail d st) \<noteq> []"
  by (auto simp: peg_inv_def peg_fail_def Let_def)

lemma nf_parse_wf: "nf_parse s = Return v \<Longrightarrow> \<exists>c. wf_command c \<and> v = command_object c"
proof -
  assume r: "nf_parse s = Return v"
  then obtain c where "wf_command c" "spells c s"
    using peg_parse_Return [OF spec_start] unfolding nf_parse_def by blast
  with r show ?thesis using nf_parse_spells by auto
qed

text \<open>
  C8. A parse always ends, whatever the text: with the options of a well-formed command, with one of the
  two errors that the actions throw, or with a syntax error inside the text that names a nonempty, sorted
  list of things expected, the character found and its line and column.
\<close>

theorem nf_parse_outcome:
  "case nf_parse s of
     Return v \<Rightarrow> \<exists>c. wf_command c \<and> v = command_object c
   | Throw e \<Rightarrow> e \<in> grammar_errors \<or> proper_syntax_error s e
   | Diverge \<Rightarrow> False"
proof -
  from peg_specD [OF spec_start peg_init_inv [of s]] show ?thesis
  proof (cases rule: peg_post_elim)
    case (1 x st' s')
    show ?thesis
    proof (cases "currPos st' = length s")
      case True
      have "nf_parse s = Return x" using 1(1) True by (simp add: nf_parse_def peg_parse_def)
      moreover obtain c where "wf_command c" "spells c s"
        using 1 True by (auto simp: peg_init_def)
      ultimately show ?thesis using nf_parse_spells by auto
    next
      case False
      let ?st = "peg_fail ''end of input'' st'"
      have "currPos st' < length s" using False 1(2) by (simp add: peg_inv_def)
      then have "nf_parse s = Throw (buildException s (maxFailExpected ?st) (maxFailPos ?st))"
        using 1(1) False by (simp add: nf_parse_def peg_parse_def Let_def)
      then show ?thesis using peg_fail_inv [OF 1(2)] buildException_proper by (simp add: peg_inv_def)
    qed
  next
    case (2 st')
    then have "nf_parse s = Throw (buildException s (maxFailExpected st') (maxFailPos st'))"
      by (simp add: nf_parse_def peg_parse_def)
    then show ?thesis using 2 buildException_proper by (simp add: peg_inv_def)
  next
    case (3 e)
    then show ?thesis by (simp add: nf_parse_def peg_parse_def)
  qed
qed

lemma peg_many_some: "peg_many n p inp st \<noteq> Return (None, st')"
proof (induction n arbitrary: st st')
  case (Suc n)
  show ?case
  proof (cases "p inp st")
    case (Return rs)
    then show ?thesis using Suc by (cases rs; cases "fst rs"; cases "peg_many n p inp (snd rs)") (auto split: option.splits)
  qed auto
qed simp

lemma peg_star_bind_some: "peg_bind (peg_star p) (\<lambda>nx. peg_return (g nx)) inp st \<noteq> Return (None, st')"
  using peg_many_some [of _ p inp st]
  by (cases "peg_star p inp st")
    (auto simp: peg_bind_def peg_star_def peg_return_def simp del: peg_many.simps split: option.splits prod.splits)

lemma peg_opt_some: "peg_opt p inp st \<noteq> Return (None, st')"
  by (cases "p inp st") (auto simp: peg_opt_def)

lemma quads_some: "peg_parsequads inp st \<noteq> Return (None, st')"
  unfolding peg_parsequads_def peg_bind_def [of "peg_opt _"]
  by (cases "peg_opt peg_parsestartquad inp st") (auto simp: peg_star_bind_some peg_opt_some split: option.splits prod.splits)

text \<open>
  C38. No rule ever holds an IPv6 address: wherever the parser stands, reading one throws, because the
  family the action compares with is never changed from \<open>ip\<close>, or because the address does not start
  with a digit.
\<close>

theorem ipv6_always_throws:
  "peg_inv inp st \<Longrightarrow> \<exists>e \<in> grammar_errors. peg_parseipv6addr inp st = Throw e"
proof -
  assume inv: "peg_inv inp st"
  have "peg_parseipv6addr inp st \<noteq> Return (None, st')" for st'
  proof (cases "peg_parsequads inp st")
    case (Return rs)
    then show ?thesis using quads_some [of inp st "snd rs"]
      by (cases rs; cases "fst rs") (auto simp: peg_parseipv6addr_def peg_bind_def peg_run_def peg_c86_def ipfamily_def)
  qed (simp_all add: peg_parseipv6addr_def peg_bind_def)
  with peg_specD [OF strong_ipv6addr inv] show ?thesis
    by (cases rule: peg_post_elim) auto
qed

lemma ipv6_always_throws_witness:
  "\<exists>e \<in> grammar_errors. peg_parseipv6addr ''fe80::1/64 '' peg_init = Throw e"
  by (rule ipv6_always_throws) (rule peg_init_inv)

section \<open>From the parsed options to the message\<close>

text \<open>The message number of an operation on an object: types come in threes.\<close>

definition message_number :: "string \<Rightarrow> string \<Rightarrow> int" where
  "message_number op type =
     (let base = (if type = ''table'' then 0 else if type = ''chain'' then 3 else 6)
      in if op = ''add'' then base else if op \<in> {''get'', ''list''} then base + 1
         else if type = ''table'' then 8 else base + 2)"

definition request_flags :: "string \<Rightarrow> string \<Rightarrow> int option" where
  "request_flags op type =
     (if op = ''get'' \<and> type \<noteq> ''chain'' then Some (js_or (js_or NLM_F_REQUEST NLM_F_ROOT) NLM_F_MATCH)
      else if op = ''list'' then
        (if type = ''table'' then Some (js_or NLM_F_ROOT NLM_F_MATCH)
         else if type = ''rule'' then Some (js_or (js_or NLM_F_REQUEST NLM_F_ROOT) NLM_F_MATCH) else None)
      else if op = ''add'' \<and> type = ''rule'' then Some (js_or (js_or NLM_F_APPEND NLM_F_CREATE) NLM_F_ACK)
      else Some NLM_F_ACK)"

lemma object_types: "object_type ob \<in> {''table'', ''chain'', ''rule''}"
  by (cases ob) auto

lemma built_options:
  assumes "op \<in> set operations" "type \<in> {''table'', ''chain'', ''rule''}" "fam \<in> {''ip'', ''ip6''}" "map_of ps ''cmd'' = None"
    "map_of ps ''type_flags'' = None"
  defines "opts \<equiv> [(''command'', Str op), (''type'', Str type), (''family'', Str fam)] @ ps"
  shows "\<exists>o1. build_command opts = Return (o1, []) \<and> map_of o1 ''cmd'' = Some (Num (message_number op type)) \<and>
    map_of o1 ''family'' = Some (Num (if fam = ''ip6'' then 10 else 2)) \<and>
    map_of o1 ''type_flags'' = map_option Num (request_flags op type) \<and>
    obj_get o1 ''type'' = Str type \<and> obj_get o1 ''params'' = obj_get ps ''params''"
proof -
  have up: "toUpperCase ''table'' = ''TABLE''" "toUpperCase ''chain'' = ''CHAIN''" "toUpperCase ''rule'' = ''RULE''" by code_simp+
  have num: "nf_const ''NFT_MSG_NEWTABLE'' = Num 0" "nf_const ''NFT_MSG_GETTABLE'' = Num 1" "nf_const ''NFT_MSG_DELTABLE'' = Num 2"
    "nf_const ''NFT_MSG_NEWCHAIN'' = Num 3" "nf_const ''NFT_MSG_GETCHAIN'' = Num 4" "nf_const ''NFT_MSG_DELCHAIN'' = Num 5"
    "nf_const ''NFT_MSG_NEWRULE'' = Num 6" "nf_const ''NFT_MSG_GETRULE'' = Num 7" "nf_const ''NFT_MSG_DELRULE'' = Num 8"
    by code_simp+
  have cmd: "\<exists>o1. set_cmd opts = Return (o1, None) \<and> map_of o1 = (map_of opts)(''cmd'' \<mapsto> Num (message_number op type))"
  proof -
    have g: "obj_get opts ''command'' = Str op" "obj_get opts ''type'' = Str type" by (simp_all add: opts_def)
    have "op \<in> {''add'', ''del'', ''list'', ''get'', ''flush''}" using assms(1) by (simp add: operations_def)
    with assms(2) show ?thesis
      by (elim insertE emptyE) (simp_all add: set_cmd_def upper_type_def Let_def g up num message_number_def obj_set_def update_conv')
  qed
  have fm: "\<exists>o2. set_family o1 = (o2, None) \<and> map_of o2 = (map_of o1)(''family'' \<mapsto> Num (if fam = ''ip6'' then 10 else 2))"
    if "obj_get o1 ''family'' = Str fam" for o1
    using that assms(3) by (auto simp: set_family_def obj_set_def update_conv')
  have ty: "\<exists>o3. set_type o2 = (o3, None) \<and> map_of o3 =
      (case request_flags op type of None \<Rightarrow> map_of o2 | Some f \<Rightarrow> (map_of o2)(''type_flags'' \<mapsto> Num f))"
    if "obj_get o2 ''command'' = Str op" "obj_get o2 ''type'' = Str type" for o2
  proof -
    have "op \<in> {''add'', ''del'', ''list'', ''get'', ''flush''}" using assms(1) by (simp add: operations_def)
    with assms(2) show ?thesis
      by (elim insertE emptyE) (simp_all add: set_type_def Let_def that request_flags_def obj_set_def update_conv')
  qed
  obtain o1 where o1: "set_cmd opts = Return (o1, None)" "map_of o1 = (map_of opts)(''cmd'' \<mapsto> Num (message_number op type))"
    using cmd by blast
  have "obj_get o1 ''family'' = Str fam" by (simp add: obj_get_def o1(2) opts_def)
  then obtain o2 where o2: "set_family o1 = (o2, None)" "map_of o2 = (map_of o1)(''family'' \<mapsto> Num (if fam = ''ip6'' then 10 else 2))"
    using fm by blast
  have "obj_get o2 ''command'' = Str op" "obj_get o2 ''type'' = Str type" by (simp_all add: obj_get_def o1(2) o2(2) opts_def)
  then obtain o3 where o3: "set_type o2 = (o3, None)" "map_of o3 =
      (case request_flags op type of None \<Rightarrow> map_of o2 | Some f \<Rightarrow> (map_of o2)(''type_flags'' \<mapsto> Num f))"
    using ty by blast
  have "build_command opts = Return (o3, [])" by (simp add: build_command_def o1(1) o2(1) o3(1) map_filter_def)
  moreover have "map_of o3 ''type_flags'' = map_option Num (request_flags op type)"
    by (cases "request_flags op type") (simp_all add: o3(2) o2(2) o1(2) opts_def assms(5))
  moreover have "map_of o3 k = map_of o2 k" if "k \<noteq> ''type_flags''" for k
    using that by (cases "request_flags op type") (simp_all add: o3(2))
  ultimately show ?thesis by (intro exI [of _ o3]) (simp add: obj_get_def o2(2) o1(2) opts_def)
qed

lemma command_object_eq:
  assumes "wf_command (CommandLit op fam ob)"
  defines "f \<equiv> (case fam of None \<Rightarrow> ''ip'' | Some f \<Rightarrow> f)"
  shows "\<exists>o1. build_command (command_object (CommandLit op fam ob)) = Return (o1, []) \<and>
    map_of o1 ''cmd'' = Some (Num (message_number op (object_type ob))) \<and>
    map_of o1 ''family'' = Some (Num (if f = ''ip6'' then 10 else 2)) \<and>
    map_of o1 ''type_flags'' = map_option Num (request_flags op (object_type ob)) \<and>
    obj_get o1 ''type'' = Str (object_type ob) \<and> obj_get o1 ''params'' = obj_get (object_params ob) ''params''"
proof -
  have "op \<in> set operations" "f \<in> {''ip'', ''ip6''}" using assms by (auto split: option.splits)
  moreover have "map_of (object_params ob) ''cmd'' = None" "map_of (object_params ob) ''type_flags'' = None"
    by (cases ob; simp)+
  ultimately show ?thesis using built_options [OF _ object_types, of op f "object_params ob" ob] by (simp add: f_def)
qed

text \<open>
  C35. What the command builder makes of parsed options: it reports no error, chooses the message number by
  operation and object, the number of the family, and the flags of the request, except that listing
  chains gets none.
\<close>

theorem parsed_command_builds:
  assumes "nf_parse s = Return opts"
  shows "\<exists>o1 op type. build_command opts = Return (o1, []) \<and> obj_get opts ''command'' = Str op \<and> obj_get opts ''type'' = Str type \<and>
    obj_get o1 ''cmd'' = Num (message_number op type) \<and> message_number op type \<in> {0..8} \<and>
    obj_get o1 ''family'' \<in> {Num 2, Num 10} \<and>
    obj_get o1 ''type_flags'' = (case request_flags op type of None \<Rightarrow> Undef | Some f \<Rightarrow> Num f)"
proof -
  from nf_parse_wf [OF assms] obtain op fam ob where c: "wf_command (CommandLit op fam ob)" "opts = command_object (CommandLit op fam ob)"
    by (metis command_lit.exhaust)
  obtain o1 where "build_command opts = Return (o1, [])"
    "map_of o1 ''cmd'' = Some (Num (message_number op (object_type ob)))"
    "\<exists>n \<in> {2, 10}. map_of o1 ''family'' = Some (Num n)"
    "map_of o1 ''type_flags'' = map_option Num (request_flags op (object_type ob))"
    using command_object_eq [OF c(1)] c(2) by auto
  moreover have "message_number op (object_type ob) \<in> {0..8}" by (auto simp: message_number_def)
  ultimately show ?thesis using c(2)
    by - (rule exI [of _ o1], rule exI [of _ op], rule exI [of _ "object_type ob"], auto simp: obj_get_def split: option.splits)
qed

lemma parsed_command_builds_witness:
  "\<exists>opts o1 op type. nf_parse ''list chain filter input { type filter hook input priority 0 }'' = Return opts \<and>
    build_command opts = Return (o1, []) \<and> obj_get opts ''command'' = Str op \<and> obj_get opts ''type'' = Str type \<and>
    obj_get o1 ''cmd'' = Num (message_number op type) \<and> message_number op type \<in> {0..8} \<and>
    obj_get o1 ''family'' \<in> {Num 2, Num 10} \<and>
    obj_get o1 ''type_flags'' = (case request_flags op type of None \<Rightarrow> Undef | Some f \<Rightarrow> Num f)"
proof -
  let ?c = "CommandLit ''list'' None (ChainLit ''filter'' ''input'' ''filter'' ''input'' ''0'')"
  have "wf_command ?c" by code_simp
  then have "nf_parse (command_text ?c) = Return (command_object ?c)" by (intro nf_parse_spells spells_text)
  then have p: "nf_parse ''list chain filter input { type filter hook input priority 0 }'' = Return (command_object ?c)" by simp
  from parsed_command_builds [OF p] p show ?thesis by blast
qed

text \<open>
  Only the first digit of a hexadecimal number reaches the options: writing more of them changes
  nothing, since the array of digits is joined by commas before it is read.
\<close>

theorem hex_first_digit:
  assumes "wf_command (CommandLit op fam (RuleLit tb ch pt (cs @ (f, NumberLit (Hex (d # ds))) # cs') act))"
  shows "nf_parse (command_text (CommandLit op fam (RuleLit tb ch pt (cs @ (f, NumberLit (Hex (d # ds))) # cs') act)))
       = nf_parse (command_text (CommandLit op fam (RuleLit tb ch pt (cs @ (f, NumberLit (Hex [d])) # cs') act)))"
proof -
  have "wf_command (CommandLit op fam (RuleLit tb ch pt (cs @ (f, NumberLit (Hex [d])) # cs') act))"
    using assms by (auto simp: is_xdigits_def)
  then show ?thesis using assms
    by (simp only: nf_parse_spells [OF spells_text]) (simp add: crit_exprs_def)
qed

lemma hex_first_digit_witness:
  "nf_parse ''add rule filter input tcp dport 0x1F90 drop'' = nf_parse ''add rule filter input tcp dport 0x1 drop''"
proof -
  have "wf_command (CommandLit ''add'' None (RuleLit ''filter'' ''input'' ''tcp''
     ([] @ (''dport'', NumberLit (Hex (CHR ''1'' # ''F90''))) # []) ''drop''))" by code_simp
  from hex_first_digit [OF this] show ?thesis by (simp add: criteria_text_def)
qed

end
