(* ===== verification/NfValues.thy ===== *)
theory NfValues
  imports NfComplete
begin

text \<open>
  What the values of a rule become in the message: the hexadecimal text that the actions of the grammar
  write for a number or an address, read again by \<open>getGenericBuffer\<close>.
\<close>

section \<open>Hexadecimal text\<close>

definition is_lower_hex :: "char \<Rightarrow> bool" where
  "is_lower_hex c \<longleftrightarrow> c \<in> set ''0123456789abcdef''"

lemma lower_hex_char:
  assumes "is_lower_hex c"
  shows "to_lower_char c = c" "is_radix_digit 16 c"
proof -
  have "list_all (\<lambda>c. to_lower_char c = c \<and> is_radix_digit 16 c) ''0123456789abcdef''" by code_simp
  then have "to_lower_char c = c \<and> is_radix_digit 16 c"
    using assms unfolding list_all_iff is_lower_hex_def by (rule bspec)
  then show "to_lower_char c = c" "is_radix_digit 16 c" by blast+
qed

lemma is_lower_hex_digit: "k < 16 \<Longrightarrow> is_lower_hex (digit_char k)" "k < 16 \<Longrightarrow> is_lower_hex (hex_digit k)"
proof -
  have l: "list_all (\<lambda>k. is_lower_hex (digit_char k)) [0..<16]" "list_all (\<lambda>k. is_lower_hex (hex_digit k)) [0..<16]"
    by code_simp+
  have "k \<in> set [0..<16]" if "k < 16" using that by (simp only: set_upt atLeastLessThan_iff) simp
  then show "k < 16 \<Longrightarrow> is_lower_hex (digit_char k)" "k < 16 \<Longrightarrow> is_lower_hex (hex_digit k)"
    using l unfolding list_all_iff by (metis, metis)
qed

lemma lower_hex_nat_to_radix: "list_all is_lower_hex (nat_to_radix 16 n)"
proof (induction n rule: less_induct)
  case (less n)
  then show ?case using is_lower_hex_digit(1) [of "n mod 16"] is_lower_hex_digit(1) [of n]
    by (subst nat_to_radix.simps) simp
qed

lemma lower_hex_to_hex: "list_all is_lower_hex (to_hex bs)"
proof (induction bs)
  case (Cons b bs)
  then show ?case using hex_byte_digits [of b] is_lower_hex_digit(2) by (auto simp: to_hex_def)
qed (simp add: to_hex_def)

lemma length_nat_to_radix: "n < 16 ^ Suc k \<Longrightarrow> length (nat_to_radix 16 n) \<le> Suc k"
proof (induction k arbitrary: n)
  case 0
  then show ?case by (subst nat_to_radix.simps) simp
next
  case (Suc k)
  then have "n div 16 < 16 ^ Suc k" by auto
  then show ?case using Suc.IH [of "n div 16"] by (subst nat_to_radix.simps) auto
qed

lemma length_nat_to_radix_ge: "16 ^ k \<le> n \<Longrightarrow> k < length (nat_to_radix 16 n)"
proof (induction k arbitrary: n)
  case (Suc k)
  have "16 ^ 1 \<le> (16 :: nat) ^ Suc k" by (rule power_increasing) auto
  then have "16 \<le> n" using Suc.prems by (metis le_trans power_one_right)
  moreover have "16 ^ k \<le> n div 16" using Suc.prems by (simp add: less_eq_div_iff_mult_less_eq mult.commute)
  ultimately show ?case using Suc.IH [of "n div 16"] \<open>16 \<le> n\<close> by (subst nat_to_radix.simps) auto
qed (subst nat_to_radix.simps, simp)

lemma digits_value_zeros: "digits_value 16 (replicate n (CHR ''0'') @ s) = digits_value 16 s"
proof -
  have z: "digit_value (CHR ''0'') = Some 0" by code_simp
  have "foldl (\<lambda>acc c. acc * 16 + the (digit_value c)) 0 (replicate n (CHR ''0'')) = 0"
    by (induction n) (simp_all add: z)
  then show ?thesis by (simp add: digits_value_def)
qed

lemma foldl_digits: "foldl (\<lambda>acc c. acc * 16 + the (digit_value c)) a s = a * 16 ^ length s + digits_value 16 s"
proof (induction s rule: rev_induct)
  case (snoc c s)
  then show ?case by (simp add: digits_value_append1 algebra_simps)
qed (simp add: digits_value_def)

lemma digits_value_append: "digits_value 16 (s @ t) = digits_value 16 s * 16 ^ length t + digits_value 16 t"
  using foldl_digits [of "digits_value 16 s" t] by (simp add: digits_value_def)

text \<open>How \<open>getGenericBuffer\<close> reads such a text.\<close>

lemma generic_bytes_hex:
  assumes "list_all is_lower_hex s" "s \<noteq> []" "digits_value 16 s < 2 ^ 53"
  shows "generic_bytes (''0x'' @ s) = Return
    (if even (length s) then num_bytes (length s div 2) (Some (int (digits_value 16 s))) else replicate (length s div 2) 0)"
proof -
  have "toLowerCase (''0x'' @ s) = ''0x'' @ s"
  proof -
    have "map to_lower_char s = s" using assms(1) lower_hex_char by (intro map_idI) (auto simp: list_all_iff)
    moreover have "to_lower_char (CHR ''0'') = CHR ''0''" "to_lower_char (CHR ''x'') = CHR ''x''" by code_simp+
    ultimately show ?thesis by (simp add: toLowerCase_def)
  qed
  moreover have "parseInt 16 (''0x'' @ s) = Some (int (digits_value 16 s))"
  proof -
    have "takeWhile (is_radix_digit 16) s = s"
      using assms(1) lower_hex_char by (simp add: takeWhile_eq_all_conv list_all_iff)
    moreover have "\<not> is_space (CHR ''0'')" by code_simp
    ultimately show ?thesis using assms(2) by (simp del: takeWhile_eq_all_conv takeWhile_eq_Nil_iff add: parseInt_def parse_sign_def strip_0x_def Let_def)
  qed
  moreover have "double_of (Some (int (digits_value 16 s))) = Some (int (digits_value 16 s))"
    using to_double_small [OF assms(3)] by (simp add: double_of_def sgn_if)
  ultimately show ?thesis by (simp add: generic_bytes_def Let_def)
qed

section \<open>Numbers\<close>

lemma number_hex_facts:
  assumes "v < 2 ^ 53"
  shows "list_all is_lower_hex (padded_hex k v)" "padded_hex k v \<noteq> []" "digits_value 16 (padded_hex k v) = v"
    "length (padded_hex k v) = max (nat (2 * k)) (length (nat_to_radix 16 v))"
proof -
  have "(2::nat) ^ 53 < 2 ^ 1024" by (rule power_strict_increasing) auto
  with assms have "v < 2 ^ 1024" by (rule less_trans)
  then have "int v < int (2 ^ 1024)" by (simp only: of_nat_less_iff)
  then have nv: "number_to_hex (Some (int v)) = nat_to_radix 16 v" by (simp add: number_to_hex_def)
  have z: "is_lower_hex (CHR ''0'')" by code_simp
  show "list_all is_lower_hex (padded_hex k v)" "padded_hex k v \<noteq> []" "digits_value 16 (padded_hex k v) = v"
    "length (padded_hex k v) = max (nat (2 * k)) (length (nat_to_radix 16 v))"
    using lower_hex_nat_to_radix [of v] z
    by (auto simp: list_all_iff padded_hex_def nv Let_def lower_hex_nat_to_radix digits_value_zeros digits_value_nat_to_radix)
qed

text \<open>
  C37. The number of a criterion, for a field of one, two or four bytes: the text the action writes is read
  back as the big-endian bytes of the number when it fits the field.
\<close>

theorem number_criterion_bytes:
  assumes "len \<in> {1, 2, 4}" "v < 256 ^ len"
  shows "\<exists>hx. peg_c85 (Some (int v)) (int len) = NumberValue (cmp_object hx) \<and> generic_bytes hx = Return (be_bytes len (Some (int v)))"
proof -
  have v: "v < 2 ^ 53" using assms by auto
  have "v < 16 ^ (2 * len)" using assms(2) by (simp add: power_mult)
  then have "length (nat_to_radix 16 v) \<le> 2 * len"
    using length_nat_to_radix [of v "2 * len - 1"] assms(1) by (auto simp: numeral_2_eq_2 simp del: power_Suc)
  then have "length (padded_hex (int len) v) = 2 * len" using number_hex_facts(4) [OF v] by (simp add: nat_mult_distrib)
  then have "generic_bytes (''0x'' @ padded_hex (int len) v) = Return (num_bytes len (Some (int v)))"
    using generic_bytes_hex [OF number_hex_facts(1,2) [OF v]] number_hex_facts(3) [OF v] v by simp
  moreover have "num_bytes len (Some (int v)) = be_bytes len (Some (int v))" using assms(1) by (auto simp: num_bytes_def)
  ultimately show ?thesis
    by (intro exI [of _ "''0x'' @ padded_hex (int len) v"]) (simp add: c85_eq cmp_object_def cmp_expr_def nft_int_def
      nft_registers_def nft_cmp_ops_def)
qed

lemma number_criterion_bytes_witness:
  "\<exists>hx. peg_c85 (Some (int 8080)) (int 2) = NumberValue (cmp_object hx) \<and> generic_bytes hx = Return (be_bytes 2 (Some (int 8080)))"
  by (rule number_criterion_bytes) simp_all

text \<open>
  A port that does not fit two bytes is not rejected: up to six hexadecimal digits the comparison is
  made with bytes that are all zero, two of them for five digits and three for six.
\<close>

theorem large_port_zero:
  assumes "65536 \<le> v" "v < 2 ^ 24"
  shows "\<exists>hx. peg_c85 (Some (int v)) 2 = NumberValue (cmp_object hx) \<and>
    generic_bytes hx = Return (replicate (if v < 2 ^ 20 then 2 else 3) 0)"
proof -
  have v: "v < 2 ^ 53" using assms(2) by simp
  have "length (nat_to_radix 16 v) = (if v < 2 ^ 20 then 5 else 6)"
    using assms length_nat_to_radix [of v 4] length_nat_to_radix [of v 5] length_nat_to_radix_ge [of 4 v]
      length_nat_to_radix_ge [of 5 v] by (auto simp: not_less)
  then have "length (padded_hex 2 v) = (if v < 2 ^ 20 then 5 else 6)" using number_hex_facts(4) [OF v] by simp
  then have "generic_bytes (''0x'' @ padded_hex 2 v) = Return (replicate (if v < 2 ^ 20 then 2 else 3) 0)"
    using generic_bytes_hex [OF number_hex_facts(1,2) [OF v]] number_hex_facts(3) [OF v] v by (simp add: num_bytes_def)
  then show ?thesis
    by (intro exI [of _ "''0x'' @ padded_hex 2 v"]) (simp add: c85_eq cmp_object_def cmp_expr_def nft_int_def
      nft_registers_def nft_cmp_ops_def)
qed

lemma large_port_zero_witness:
  "\<exists>hx. peg_c85 (Some (int 70000)) 2 = NumberValue (cmp_object hx) \<and>
    generic_bytes hx = Return (replicate (if (70000 :: nat) < 2 ^ 20 then 2 else 3) 0)"
  by (rule large_port_zero) simp_all

section \<open>Addresses\<close>

lemma digits_value_hex_byte: "digits_value 16 (hex_byte b) = unat b"
proof -
  obtain h l where "hex_byte b = [hex_digit h, hex_digit l]" "h < 16" "l < 16" "16 * h + l = unat b"
    using hex_byte_digits by blast
  then show ?thesis using hex_digit_facts(1) [of h] hex_digit_facts(1) [of l] by (simp add: digits_value_def)
qed

lemma length_hex_byte: "length (hex_byte b) = 2"
  by (simp add: hex_byte_def)

lemma digits_value_to_hex: "int (digits_value 16 (to_hex bs)) = le_val (rev bs)"
proof (induction bs rule: rev_induct)
  case (snoc b bs)
  have "to_hex (bs @ [b]) = to_hex bs @ hex_byte b" by (simp add: to_hex_def)
  then show ?case using snoc by (simp add: digits_value_append digits_value_hex_byte length_hex_byte)
qed (simp add: to_hex_def digits_value_def)

lemma generic_bytes_to_hex:
  assumes "length bs = 4" shows "generic_bytes (''0x'' @ to_hex bs) = Return bs"
proof -
  have v: "int (digits_value 16 (to_hex bs)) < 2 ^ 32"
    using le_val_bounds [of "rev bs"] assms by (simp add: digits_value_to_hex)
  then have "digits_value 16 (to_hex bs) < 2 ^ 53" by simp
  moreover have "to_hex bs \<noteq> []" using length_to_hex [of bs] assms by (metis length_0_conv mult_is_0 zero_neq_numeral)
  moreover have "be_bytes 4 (Some (le_val (rev bs))) = bs"
    using le_bytes_le_val [of "rev bs"] assms by (simp add: be_bytes_def)
  ultimately show ?thesis using generic_bytes_hex [OF lower_hex_to_hex, of bs] assms
    by (simp add: num_bytes_def digits_value_to_hex)
qed

text \<open>
  C36. The address of a criterion becomes the four bytes of its octets, and the length of its prefix the
  four bytes of the mask.
\<close>

theorem address_criterion_bytes:
  assumes "list_all is_octet [a, b, c, d]"
  shows "\<exists>hx. peg_c87 [a, b, c, d] = Return (cmp_object hx) \<and>
      generic_bytes hx = Return (map (\<lambda>s. word_of_int (int (digits_value 10 s))) [a, b, c, d]) \<and>
      peg_c92 p = (to_hex (mask_bytes (cidr_value p) 4), 4) \<and>
      generic_bytes (''0x'' @ fst (peg_c92 p)) = Return (mask_bytes (cidr_value p) 4)"
proof -
  let ?os = "map (\<lambda>s. word_of_int (int (digits_value 10 s))) [a, b, c, d]"
  have "peg_c87 [a, b, c, d] = Return (cmp_object (''0x'' @ to_hex ?os))"
    using assms by (simp add: c87_eq octets_hex_def cmp_object_def cmp_expr_def nft_int_def nft_registers_def nft_cmp_ops_def)
  moreover have "generic_bytes (''0x'' @ to_hex ?os) = Return ?os" by (rule generic_bytes_to_hex) simp
  moreover have "generic_bytes (''0x'' @ to_hex (mask_bytes (cidr_value p) 4)) = Return (mask_bytes (cidr_value p) 4)"
    by (rule generic_bytes_to_hex) (simp add: length_mask_bytes)
  moreover have "peg_c92 p = (to_hex (mask_bytes (cidr_value p) 4), 4)" by (simp add: peg_c92_def maskFromCidr_def)
  ultimately show ?thesis by (intro exI [of _ "''0x'' @ to_hex ?os"]) simp
qed

lemma address_criterion_bytes_witness:
  "\<exists>hx. peg_c87 [''10'', ''0'', ''0'', ''255''] = Return (cmp_object hx) \<and>
      generic_bytes hx = Return (map (\<lambda>s. word_of_int (int (digits_value 10 s))) [''10'', ''0'', ''0'', ''255'']) \<and>
      peg_c92 [Some (CHR ''8''), None] = (to_hex (mask_bytes (cidr_value [Some (CHR ''8''), None]) 4), 4) \<and>
      generic_bytes (''0x'' @ fst (peg_c92 [Some (CHR ''8''), None])) = Return (mask_bytes (cidr_value [Some (CHR ''8''), None]) 4)"
  by (rule address_criterion_bytes) code_simp

end
