(* ===== verification/NfRequest.thy ===== *)
theory NfRequest
  imports NfText NfValues
begin

text \<open>
  From the text of a command to the bytes of its request: the grammar, the command builder, the attribute
  encoder and the framing composed.
\<close>

section \<open>Tables\<close>

lemma table_attributes:
  assumes "length n < 65530"
  shows "\<exists>a. newNfAttributes (Str ''table'') (Obj [(''name'', Str n)]) = Return [a] \<and>
    na_buffer a = rtattr_enc (1, bytes_of_string n @ [0])"
proof -
  have ok: "rtattr_ok (1, bytes_of_string n @ [0])" using assms by (simp add: rtattr_ok_def bytes_of_string_def)
  have tab: "getCommandObject (Str ''table'') = Return nft_table_attributes" by code_simp
  have at: "attribute_type nft_table_attributes = Return ''TABLE''" by code_simp
  have sp: "getSpec ''TABLE'' nft_table_attributes ''name'' = Return \<lparr>sp_typeval = 1, sp_type = ''s'', sp_size = None\<rparr>"
    by code_simp
  have b: "bytes_of_string (n @ [CHR 0x00]) = bytes_of_string n @ [0]" by (simp add: bytes_of_string_def)
  have buf: "setBuffer \<lparr>sp_typeval = 1, sp_type = ''s'', sp_size = None\<rparr> (Str n) = Return (rtattr_enc (1, bytes_of_string n @ [0]))"
    using buildRtattrBuf_enc [OF ok] by (simp add: setBuffer_def getStringBuffer_def attr_buf_def b)
  show ?thesis
    by (simp add: newNfAttributes_def tab parse_entry_def newAttribute_def at sp buf Let_def)
qed

text \<open>
  C2. A command about a table, from its text on: the request holds the message number of the operation in
  the subsystem, the flags, the family and the name of the table as a padded, zero-terminated attribute,
  and stands between the messages of a batch unless it only reads.
\<close>

theorem table_command_request:
  assumes "wf_command (CommandLit op fam (TableLit n))" "length n < 65530"
  defines "attr \<equiv> rtattr_enc (1, bytes_of_string n @ [0])"
  defines "msg \<equiv> hdr_bytes (20 + int (length attr)) (js_or 2560 (message_number op ''table''))
      (js_or NLM_F_REQUEST (the (request_flags op ''table''))) 0 0 @ nfgen_bytes (if fam = Some ''ip6'' then 10 else 2) 0 0 @ attr"
  shows "nf_command_text (command_text (CommandLit op fam (TableLit n))) =
    Return ([], Return (NfSent
      (if op \<in> {''get'', ''list''} then [msg] else [batch_msg NLMSG_MIN_TYPE, msg, batch_msg NLMSG_MAX_TYPE])))"
proof -
  let ?c = "CommandLit op fam (TableLit n)"
  obtain o1 where o1: "build_command (command_object ?c) = Return (o1, [])"
    "map_of o1 ''cmd'' = Some (Num (message_number op ''table''))"
    "map_of o1 ''family'' = Some (Num (if fam = Some ''ip6'' then 10 else 2))"
    "map_of o1 ''type_flags'' = map_option Num (request_flags op ''table'')"
    "obj_get o1 ''type'' = Str ''table''" "obj_get o1 ''params'' = Obj [(''name'', Str n)]"
    using command_object_eq [OF assms(1)] assms(1) by (auto split: option.splits)
  obtain f where f: "request_flags op ''table'' = Some f" by (cases "request_flags op ''table''") (simp_all add: request_flags_def split: if_splits)
  obtain a where a: "newNfAttributes (Str ''table'') (Obj [(''name'', Str n)]) = Return [a]" "na_buffer a = attr"
    using table_attributes [OF assms(2)] by (auto simp: attr_def)
  have m: "js_and f NLM_F_MATCH = 0 \<longleftrightarrow> op \<notin> {''get'', ''list''}"
  proof -
    have "js_and (js_or (js_or NLM_F_REQUEST NLM_F_ROOT) NLM_F_MATCH) NLM_F_MATCH \<noteq> 0"
      "js_and (js_or NLM_F_ROOT NLM_F_MATCH) NLM_F_MATCH \<noteq> 0" "js_and NLM_F_ACK NLM_F_MATCH = 0" by code_simp+
    then show ?thesis using f by (auto simp: request_flags_def split: if_splits)
  qed
  have "sendNetfilterCommand o1 [a] = Return (NfSent
      (if js_and f NLM_F_MATCH = 0 then [batch_msg NLMSG_MIN_TYPE, msg, batch_msg NLMSG_MAX_TYPE] else [msg]))"
    by (rule sendNetfilterCommand_value) (simp_all add: o1 f a(2) msg_def)
  then show ?thesis using nf_parse_spells [OF spells_text assms(1)] m
    by (simp add: nf_command_text_def nf_command_def o1(1,5,6) a(1) del: command_object.simps command_text.simps)
qed

lemma table_command_request_witness:
  "nf_command_text ''add table filter'' = Return ([], Return (NfSent [batch_msg NLMSG_MIN_TYPE,
     hdr_bytes 32 (js_or 2560 0) (js_or NLM_F_REQUEST NLM_F_ACK) 0 0 @ nfgen_bytes 2 0 0 @ [11, 0, 1, 0, 102, 105, 108, 116, 101, 114, 0, 0],
     batch_msg NLMSG_MAX_TYPE]))"
proof -
  have "wf_command (CommandLit ''add'' None (TableLit ''filter''))" by code_simp
  moreover have "rtattr_enc (1, bytes_of_string ''filter'' @ [0]) = [11, 0, 1, 0, 102, 105, 108, 116, 101, 114, 0, 0]" by code_simp
  ultimately show ?thesis using table_command_request [of "''add''" None "''filter''"]
    by (simp add: message_number_def request_flags_def)
qed

section \<open>Listing chains\<close>

text \<open>
  Listing chains can never reach the socket: no flags are chosen for it, and the sender refuses a
  command without them.
\<close>

theorem list_chain_never_sent:
  assumes "wf_command (CommandLit ''list'' fam (ChainLit tb ch ht hk pr))"
  shows "\<exists>r. nf_command_text (command_text (CommandLit ''list'' fam (ChainLit tb ch ht hk pr))) = Return ([], r) \<and>
    (case r of Return x \<Rightarrow> x = NfErr ''no type option specified'' | Throw e \<Rightarrow> True | Diverge \<Rightarrow> False)"
proof -
  let ?c = "CommandLit ''list'' fam (ChainLit tb ch ht hk pr)"
  obtain o1 where o1: "build_command (command_object ?c) = Return (o1, [])"
    "map_of o1 ''cmd'' = Some (Num (message_number ''list'' ''chain''))" "map_of o1 ''type_flags'' = None"
    using command_object_eq [OF assms] by (auto simp: request_flags_def)
  obtain h where h: "buildHdr = Return h" using buildHdr_value by blast
  obtain n where n: "buildNfgenmsg = Return n" using buildNfgenmsg_pack by auto
  have z: "js_and 0 NLM_F_MATCH = 0" by code_simp
  have s: "sendNetfilterCommand o1 arr = Return (NfErr ''no type option specified'')" for arr
    using o1 by (simp add: sendNetfilterCommand_def obj_get_def num_or_0_def z addBatchMessages_value addCommandMessage_def h n)
  have "newNfAttributes t p \<noteq> Diverge" for t p
    using parseNfAttrs_not_Diverge [of p "Suc (jdepth p)"] by (simp add: newNfAttributes_def del: parseNfAttrs.simps)
  then show ?thesis using nf_parse_spells [OF spells_text assms] s
    by (cases "newNfAttributes (obj_get o1 ''type'') (obj_get o1 ''params'')")
      (auto simp: nf_command_text_def nf_command_def o1(1) simp del: command_object.simps command_text.simps)
qed

lemma list_chain_never_sent_witness:
  "\<exists>r. nf_command_text ''list chain filter input { type filter hook input priority 0 }'' = Return ([], r) \<and>
    (case r of Return x \<Rightarrow> x = NfErr ''no type option specified'' | Throw e \<Rightarrow> True | Diverge \<Rightarrow> False)"
proof -
  have "wf_command (CommandLit ''list'' None (ChainLit ''filter'' ''input'' ''filter'' ''input'' ''0''))" by code_simp
  from list_chain_never_sent [OF this] show ?thesis by simp
qed

end
