(* ===== verification/NfSend.thy ===== *)
theory NfSend
  imports NfRequest IpCommand
begin

text \<open>
  A netfilter command on its socket: \<open>netfilterSend\<close> of \<open>nf/nlnetfilter.js\<close> and \<open>command\<close> of
  \<open>nf/nfcommand.js\<close> as traces of the calls to the socket and of the callbacks.
\<close>

section \<open>netfilterSend\<close>

definition netfilter_sock_opts :: props where
  "netfilter_sock_opts = [(''sock_class'', obj_get nl_consts ''NETLINK_NETFILTER'')]"

text \<open>\<open>nl.sendNetlinkRequest(sock, msgreq, cb)\<close> with the reply of the socket.\<close>

definition sendNetlinkRequest :: "netkit \<Rightarrow> nat \<Rightarrow> msgreq \<Rightarrow> (jsval \<Rightarrow> bytes list \<Rightarrow> unit act) \<Rightarrow> unit act" where
  "sendNetlinkRequest nk n msgreq cb =
     act_seq (emit (Send msgreq))
       (let (err, bytes) = nk_reply nk n msgreq in if truthy err then cb err [] else cb err bytes)"

text \<open>The socket is closed before the reply is parsed, which may throw.\<close>

definition netfilterSend :: "netkit \<Rightarrow> props \<Rightarrow> nattr list \<Rightarrow> (jsval list \<Rightarrow> unit act) \<Rightarrow> unit act" where
  "netfilterSend nk opts attrs cb =
     (let err = nk_create nk netfilter_sock_opts in
      act_seq (emit (Create netfilter_sock_opts))
        (if truthy err then act_seq (emit Close) (cb [ErrorObj (''socket.create() Error: '' @ inspect err)])
         else
           act_bind (act_run (sendNetfilterCommand opts attrs)) (\<lambda>r.
             case r of
               NfErr e \<Rightarrow> act_seq (emit Close) (cb [ErrorObj e])
             | NfSent req \<Rightarrow>
                 sendNetlinkRequest nk 0 req (\<lambda>err bufs.
                   if truthy err then act_seq (emit Close) (cb [err])
                   else
                     act_seq (emit Close)
                       (act_bind (act_run (generateNetfilterResponse bufs)) (\<lambda>result. cb [Null, result]))))))"

section \<open>command\<close>

fun report_errors :: "string list \<Rightarrow> unit act" where
  "report_errors [] = act_return ()"
| "report_errors (e # es) = act_seq (user_callback [ErrorObj e]) (report_errors es)"

text \<open>
  \<open>command(command, cb)\<close>. \<open>build_command\<close> gives the errors of its setters to the function that builds the
  attributes and sends, and at the end calls it without an error.
\<close>

definition nfcommand :: "netkit \<Rightarrow> string \<Rightarrow> unit act" where
  "nfcommand nk command =
     act_bind (act_run (nf_parse command)) (\<lambda>opts.
     act_bind (act_run (build_command opts)) (\<lambda>(o1, errs).
     act_seq (report_errors errs)
       (act_bind (act_run (newNfAttributes (obj_get o1 ''type'') (obj_get o1 ''params''))) (\<lambda>attrs.
          netfilterSend nk o1 attrs user_callback))))"

section \<open>Answers\<close>

lemma counts_netfilterSend:
  assumes "\<And>r. \<not> P (Send r)" "\<And>os. \<not> P (Create os)" "\<And>args. counts P c (cb args)"
  shows "counts P (c + (if P Close then 1 else 0)) (netfilterSend nk opts attrs cb)"
  using assms
  by (auto simp: netfilterSend_def Let_def sendNetlinkRequest_def split: nf_sent.splits prod.splits)

lemma build_parsed:
  assumes "nf_parse s = Return opts"
  shows "\<exists>o1. build_command opts = Return (o1, [])"
proof -
  from nf_parse_wf [OF assms] obtain op fam ob where c: "wf_command (CommandLit op fam ob)" "opts = command_object (CommandLit op fam ob)"
    by (metis command_lit.exhaust)
  then show ?thesis using command_object_eq [OF c(1)] by auto
qed

lemma nfcommand_parsed:
  assumes "nf_parse s = Return opts" "build_command opts = Return (o1, [])"
  shows "nfcommand nk s = act_bind (act_run (newNfAttributes (obj_get o1 ''type'') (obj_get o1 ''params''))) (\<lambda>attrs.
    netfilterSend nk o1 attrs user_callback)"
  using assms by (simp add: nfcommand_def)

text \<open>
  C3. Every netfilter command that runs to its end, whatever its text and whatever the socket answers, calls
  its caller back exactly once and closes its socket exactly once, on errors too.
\<close>

theorem nfcommand_answers_once:
  "counts is_callback 1 (nfcommand nk s) \<and> counts is_close 1 (nfcommand nk s)"
proof (cases "nf_parse s")
  case (Return opts)
  obtain o1 where "build_command opts = Return (o1, [])" using build_parsed [OF Return] by blast
  note p = nfcommand_parsed [OF Return this, of nk]
  have "counts is_callback (1 + 0) (netfilterSend nk o1 attrs user_callback)" for attrs
    using counts_netfilterSend [of is_callback 1 user_callback nk o1 attrs] by simp
  moreover have "counts is_close (0 + 1) (netfilterSend nk o1 attrs user_callback)" for attrs
    using counts_netfilterSend [of is_close 0 user_callback nk o1 attrs] by simp
  ultimately show ?thesis by (simp add: p)
qed (simp_all add: nfcommand_def)

section \<open>The request and its reply\<close>

text \<open>
  C4. What a command does with its socket is what \<open>nf_command_text\<close> says: the request is sent as one list of
  messages on a socket of the class of netfilter, the socket is closed and the caller gets the error of the
  socket or the response; a reply that cannot be parsed is thrown after the close. A command that is
  refused only opens and closes the socket.
\<close>

theorem nfcommand_trace:
  assumes "nf_command_text s = Return ([], Return r)" "\<not> truthy (nk_create nk [(''sock_class'', Num 12)])"
  shows "nfcommand nk s =
    (case r of
       NfErr e \<Rightarrow> ([Create [(''sock_class'', Num 12)], Close, Callback [ErrorObj e]], Return ())
     | NfSent req \<Rightarrow>
         (case nk_reply nk 0 req of (err, bufs) \<Rightarrow>
            let begin_events = [Create [(''sock_class'', Num 12)], Send req, Close] in
            if truthy err then (begin_events @ [Callback [err]], Return ())
            else (case generateNetfilterResponse bufs of
                Return v \<Rightarrow> (begin_events @ [Callback [Null, v]], Return ())
              | Throw e \<Rightarrow> (begin_events, Throw e)
              | Diverge \<Rightarrow> (begin_events, Diverge))))"
proof -
  have c: "netfilter_sock_opts = [(''sock_class'', Num 12)]" by code_simp
  obtain opts where p: "nf_parse s = Return opts" "nf_command opts = Return ([], Return r)"
    using assms(1) by (auto simp: nf_command_text_def)
  obtain o1 where b: "build_command opts = Return (o1, [])" using build_parsed [OF p(1)] by blast
  then obtain attrs where a: "newNfAttributes (obj_get o1 ''type'') (obj_get o1 ''params'') = Return attrs"
     "sendNetfilterCommand o1 attrs = Return r"
    using p(2) by (auto simp: nf_command_def)
  have "nfcommand nk s = netfilterSend nk o1 attrs user_callback"
    by (simp add: nfcommand_parsed [OF p(1) b] a(1))
  then show ?thesis using assms(2)
    by (intro prod_eqI)
      (auto simp: netfilterSend_def c a(2) sendNetlinkRequest_def user_callback_def Let_def act_run_def act_bind_def
        split: nf_sent.splits prod.splits run.splits)
qed

lemma list_table_sent:
  "nf_command_text ''list table filter'' = Return ([], Return (NfSent [hdr_bytes 32 2561 769 0 0 @ nfgen_bytes 2 0 0 @
     [11, 0, 1, 0, 102, 105, 108, 116, 101, 114, 0, 0]]))"
proof -
  have "wf_command (CommandLit ''list'' None (TableLit ''filter''))" by code_simp
  then have p: "nf_parse (command_text (CommandLit ''list'' None (TableLit ''filter''))) = Return (command_object (CommandLit ''list'' None (TableLit ''filter'')))"
    by (intro nf_parse_spells spells_text)
  have "nf_command (command_object (CommandLit ''list'' None (TableLit ''filter''))) = Return ([], Return (NfSent
     [hdr_bytes 32 2561 769 0 0 @ nfgen_bytes 2 0 0 @ [11, 0, 1, 0, 102, 105, 108, 116, 101, 114, 0, 0]]))"
    by code_simp
  with p show ?thesis by (simp add: nf_command_text_def)
qed

lemma nfcommand_trace_witness:
  "nfcommand quiet_netkit ''list table filter'' =
    ([Create [(''sock_class'', Num 12)], Send [hdr_bytes 32 2561 769 0 0 @ nfgen_bytes 2 0 0 @
        [11, 0, 1, 0, 102, 105, 108, 116, 101, 114, 0, 0]], Close, Callback [Null, Arr []]], Return ())"
  using nfcommand_trace [OF list_table_sent, of quiet_netkit] by (simp add: generateNetfilterResponse_def)

end
