(* ===== verification/ProcEvents.thy ===== *)
theory ProcEvents
  imports IpCommand
begin

text \<open>
  Process events: the connector message of \<open>nl/prnetlink.js\<close> and the subscription and event parser of
  \<open>proc/nlprocess.js\<close>.
\<close>

section \<open>The connector message\<close>

definition cn_msg_fmt :: string where
  "cn_msg_fmt = ''<I(_idx)I(_val)I(_seq)I(_ack)H(_len)H(_flags)''"

definition pr_consts :: props where
  "pr_consts =
     [(''CN_IDX_PROC'', Num 0x1), (''CN_VAL_PROC'', Num 0x1), (''CN_IDX_CIFS'', Num 0x2), (''CN_VAL_CIFS'', Num 0x1),
      (''CN_W1_IDX'', Num 0x3), (''CN_W1_VAL'', Num 0x1), (''CN_IDX_V86D'', Num 0x4), (''CN_VAL_V86D_UVESAFB'', Num 0x1),
      (''CN_IDX_BB'', Num 0x5), (''CN_DST_IDX'', Num 0x6), (''CN_DST_VAL'', Num 0x1), (''CN_IDX_DM'', Num 0x7),
      (''CN_VAL_DM_USERSPACE_LOG'', Num 0x1), (''CN_IDX_DRBD'', Num 0x8), (''CN_VAL_DRBD'', Num 0x1),
      (''CN_KVP_IDX'', Num 0x9), (''CN_KVP_VAL'', Num 0x1), (''CN_VSS_IDX'', Num 0xA), (''CN_VSS_VAL'', Num 0x1),
      (''CN_NETLINK_USERS'', Num 11), (''PROC_CN_MCAST_LISTEN'', Num 1), (''PROC_CN_MCAST_IGNORE'', Num 2)]"

text \<open>The last assignment goes to a property that is no field of the format.\<close>

definition buildCnMsg :: "meta run" where
  "buildCnMsg =
     run_bind (metaObject cn_msg_fmt False) (\<lambda>o1. Return
       (zero_fields [''_idx'', ''_val'', ''_seq'', ''_ack'', ''_len'', ''_flags'', ''_pad1''] o1))"

definition connector_request :: "(meta \<times> bytes option list) run" where
  "connector_request =
     run_bind buildHdr (\<lambda>h0.
       let nl_hdr = meta_set ''_type'' (Num NLMSG_DONE) (meta_set ''_flags'' (Num 0) h0) in
     run_bind buildCnMsg (\<lambda>c0.
       let cn_msg = meta_set ''_len'' (Num 4) (meta_set ''_val'' (obj_get pr_consts ''CN_VAL_PROC'')
             (meta_set ''_idx'' (obj_get pr_consts ''CN_IDX_PROC'') c0)) in
     run_bind (meta_pack cn_msg) (\<lambda>b.
       Return (nl_hdr, [b, Some (le_bytes 4 (num_or_0 (obj_get pr_consts ''PROC_CN_MCAST_LISTEN'')))]))))"

definition sendConnectorMsg :: "netkit \<Rightarrow> nat \<Rightarrow> (jsval \<Rightarrow> bytes list \<Rightarrow> unit act) \<Rightarrow> unit act" where
  "sendConnectorMsg nk n cb = act_bind (act_run connector_request) (\<lambda>(nl_hdr, bufs). nl_send nk n nl_hdr bufs cb)"

section \<open>Events\<close>

definition proc_consts :: props where
  "proc_consts =
     [(''PROC_EVENT_NONE'', Num 0x00000000), (''PROC_EVENT_FORK'', Num 0x00000001), (''PROC_EVENT_EXEC'', Num 0x00000002),
      (''PROC_EVENT_UID'', Num 0x00000004), (''PROC_EVENT_GID'', Num 0x00000040), (''PROC_EVENT_SID'', Num 0x00000080),
      (''PROC_EVENT_PTRACE'', Num 0x00000100), (''PROC_EVENT_COMM'', Num 0x00000200),
      (''PROC_EVENT_COREDUMP'', Num 0x40000000), (''PROC_EVENT_EXIT'', Num 0x80000000)]"

text \<open>The fields of the data of an event, each a word at an offset.\<close>

fun read_fields :: "bytes \<Rightarrow> (string \<times> nat) list \<Rightarrow> props \<Rightarrow> props run" where
  "read_fields buf [] acc = Return acc"
| "read_fields buf ((k, off) # fs) acc =
     run_bind (readUInt32LE buf off) (\<lambda>v. read_fields buf fs (obj_set k (Num v) acc))"

definition proc_event :: "string \<Rightarrow> bytes \<Rightarrow> (string \<times> nat) list \<Rightarrow> jsval run" where
  "proc_event name buf fs =
     run_bind (read_fields buf fs []) (\<lambda>data. Return (Obj [(''event'', Str name), (''data'', Obj data)]))"

definition processProcEvent :: "jsval \<Rightarrow> jsval run" where
  "processProcEvent v =
     (case v of
        Buf buf0 \<Rightarrow>
          (let buf = js_slice buf0 36 (int (length buf0) - 1) in
           if length buf < 39 then Return Undef
           else
             run_bind (readUInt32LE buf 0) (\<lambda>w.
               if Num w = obj_get proc_consts ''PROC_EVENT_FORK'' then
                 proc_event ''fork'' buf [(''parent_pid'', 16), (''parent_tgid'', 20), (''child_pid'', 24), (''child_tgid'', 28)]
               else if Num w = obj_get proc_consts ''PROC_EVENT_EXEC'' then
                 proc_event ''exec'' buf [(''process_pid'', 16), (''process_tgid'', 20)]
               else if Num w = obj_get proc_consts ''PROC_EVENT_EXIT'' then
                 proc_event ''exit'' buf [(''process_pid'', 16), (''process_tgid'', 20), (''exitcode'', 24), (''signal'', 28)]
               else if Num w = obj_get proc_consts ''PROC_EVENT_UID'' then
                 proc_event ''uid'' buf [(''process_pid'', 16), (''process_tgid'', 20), (''ruid'', 24), (''euid'', 28)]
               else Return Undef))
      | _ \<Rightarrow> Return Undef)"

text \<open>
  \<open>onProcessChange(cb)\<close>: \<open>recvs\<close> are the messages that arrive once the subscription was answered.
\<close>

definition on_process :: "jsval \<times> bytes list \<Rightarrow> unit act" where
  "on_process r =
     (if truthy (fst r) then user_callback [ErrorObj (''onRecv() Error: '' @ inspect (fst r))]
      else
        act_bind (act_run (processProcEvent (case snd r of [] \<Rightarrow> Undef | b # bs \<Rightarrow> Buf b))) (\<lambda>result.
          if result \<noteq> Undef then user_callback [Null, result] else act_return ()))"

fun on_processes :: "(jsval \<times> bytes list) list \<Rightarrow> unit act" where
  "on_processes [] = act_return ()"
| "on_processes (r # rs) = act_seq (on_process r) (on_processes rs)"

definition onProcessChange :: "netkit \<Rightarrow> (jsval \<times> bytes list) list \<Rightarrow> unit act" where
  "onProcessChange nk recvs =
     (let sock_opts = [(''sock_class'', obj_get nl_consts ''NETLINK_CONNECTOR''), (''subscriptions'', obj_get pr_consts ''CN_IDX_PROC'')];
          err = nk_create nk sock_opts
      in
      act_seq (emit (Create sock_opts))
        (if truthy err then user_callback [ErrorObj (''socket.create() Error: '' @ inspect err)]
         else sendConnectorMsg nk 0 (\<lambda>err bufs.
           if truthy err then user_callback [ErrorObj (''sendConnectorMsg() Error: '' @ inspect err)]
           else on_processes recvs)))"

section \<open>What is reported\<close>

text \<open>The events the parser knows, with the names of the words that follow the time stamp.\<close>

definition known_events :: "(int \<times> string \<times> string list) list" where
  "known_events =
     [(1, ''fork'', [''parent_pid'', ''parent_tgid'', ''child_pid'', ''child_tgid'']),
      (2, ''exec'', [''process_pid'', ''process_tgid'']),
      (0x80000000, ''exit'', [''process_pid'', ''process_tgid'', ''exitcode'', ''signal'']),
      (4, ''uid'', [''process_pid'', ''process_tgid'', ''ruid'', ''euid''])]"

lemma slice_last:
  assumes "length hs = s" "ev \<noteq> []"
  shows "js_slice (hs @ ev) (int s) (int (length (hs @ ev)) - 1) = butlast ev"
proof -
  have "hs @ ev = hs @ butlast ev @ [last ev]" using assms(2) by simp
  moreover have "int (length (hs @ ev)) - 1 = int (s + length (butlast ev))"
    using assms by (cases ev) simp_all
  ultimately show ?thesis using js_slice_middle [OF assms(1) refl, of "butlast ev" "[last ev]"] by simp
qed

lemma proc_consts_values:
  "obj_get proc_consts ''PROC_EVENT_FORK'' = Num 1" "obj_get proc_consts ''PROC_EVENT_EXEC'' = Num 2"
  "obj_get proc_consts ''PROC_EVENT_EXIT'' = Num 0x80000000" "obj_get proc_consts ''PROC_EVENT_UID'' = Num 4"
  by code_simp+

lemma proc_event_words:
  assumes "readUInt32LE buf 16 = Return a" "readUInt32LE buf 20 = Return b" "readUInt32LE buf 24 = Return c" "readUInt32LE buf 28 = Return d"
    and "readUInt32LE buf 0 = Return w" "js_slice msg 36 (int (length msg) - 1) = buf" "39 \<le> length buf"
  shows "processProcEvent (Buf msg) =
    Return (case map_of known_events w of
      None \<Rightarrow> Undef
    | Some (name, keys) \<Rightarrow> Obj [(''event'', Str name), (''data'', Obj (zip keys (map Num [a, b, c, d])))])"
  using assms by (simp add: processProcEvent_def proc_consts_values proc_event_def known_events_def obj_set_def)

text \<open>
  C20. An event of the connector: behind the two headers of 36 bytes, the number of the event, the processor
  and the time stamp, and then its words. For the four known events the caller gets the name and the words
  under their names; every other event of at least 40 bytes is passed over.
\<close>

theorem proc_events_reported:
  assumes "length hs = 36" "length ts = 12" "8 \<le> length rest"
    and "\<forall>v \<in> {w, a, b, c, d}. 0 \<le> v \<and> v < 2 ^ 32"
  shows "processProcEvent (Buf (hs @ le_bytes 4 w @ ts @ le_bytes 4 a @ le_bytes 4 b @ le_bytes 4 c @ le_bytes 4 d @ rest)) =
    Return (case map_of known_events w of
      None \<Rightarrow> Undef
    | Some (name, keys) \<Rightarrow> Obj [(''event'', Str name), (''data'', Obj (zip keys (map Num [a, b, c, d])))])"
proof -
  let ?ev = "le_bytes 4 w @ ts @ le_bytes 4 a @ le_bytes 4 b @ le_bytes 4 c @ le_bytes 4 d @ rest"
  let ?buf = "le_bytes 4 w @ ts @ le_bytes 4 a @ le_bytes 4 b @ le_bytes 4 c @ le_bytes 4 d @ butlast rest"
  have "rest \<noteq> []" using assms(3) by auto
  then have s: "js_slice (hs @ ?ev) 36 (int (length (hs @ ?ev)) - 1) = ?buf"
    using slice_last [OF assms(1), of ?ev] assms(3) by (simp add: butlast_append del: le_bytes.simps length_append)
  have r: "readUInt32LE ?buf 0 = Return w" "readUInt32LE ?buf 16 = Return a" "readUInt32LE ?buf 20 = Return b"
    "readUInt32LE ?buf 24 = Return c" "readUInt32LE ?buf 28 = Return d"
    using readUInt32LE_at [of "[]" 0 w] readUInt32LE_at [of "le_bytes 4 w @ ts" 16 a]
      readUInt32LE_at [of "le_bytes 4 w @ ts @ le_bytes 4 a" 20 b]
      readUInt32LE_at [of "le_bytes 4 w @ ts @ le_bytes 4 a @ le_bytes 4 b" 24 c]
      readUInt32LE_at [of "le_bytes 4 w @ ts @ le_bytes 4 a @ le_bytes 4 b @ le_bytes 4 c" 28 d]
      assms(2,4) by simp_all
  have "39 \<le> length ?buf" using assms(2,3) by simp
  from proc_event_words [OF r(2-5) r(1) s this] show ?thesis .
qed

lemma proc_events_reported_witness:
  "processProcEvent (Buf (replicate 36 0 @ le_bytes 4 2 @ replicate 12 0 @ le_bytes 4 1234 @ le_bytes 4 77 @ le_bytes 4 0 @
     le_bytes 4 0 @ replicate 8 0)) =
   Return (Obj [(''event'', Str ''exec''), (''data'', Obj [(''process_pid'', Num 1234), (''process_tgid'', Num 77)])])"
  using proc_events_reported [of "replicate 36 0" "replicate 12 0" "replicate 8 0" 2 1234 77 0 0] by (simp add: known_events_def)

end
