(* ===== verification/IpSockets.thy ===== *)
theory IpSockets
  imports IpRoute IpAddress IpEvents NfSend ProcEvents
begin

text \<open>
  How the operations use their socket: what is sent goes to a socket that was created without an error, a
  socket is created once and closed at most once, nothing but callbacks comes after the close, and an operation
  that runs to its end leaves no open socket behind. Operations that fail with an exception keep the order but
  may leave the socket open.
\<close>

section \<open>Orderly use of a socket\<close>

text \<open>
  What a trace must satisfy: at most one socket is created; before whatever is sent a socket was created without
  an error; only a created socket is closed, and after that there are only callbacks.
\<close>

definition creates :: "ip_event \<Rightarrow> bool" where
  "creates e = (case e of Create os \<Rightarrow> True | _ \<Rightarrow> False)"

definition opens :: "netkit \<Rightarrow> ip_event \<Rightarrow> bool" where
  "opens nk e = (case e of Create os \<Rightarrow> \<not> truthy (nk_create nk os) | _ \<Rightarrow> False)"

lemma creates_simps [simp]:
  "creates (Create os)" "\<not> creates (Send r)" "\<not> creates Close" "\<not> creates (Callback args)"
  "opens nk (Create os) \<longleftrightarrow> \<not> truthy (nk_create nk os)" "\<not> opens nk (Send r)" "\<not> opens nk Close" "\<not> opens nk (Callback args)"
  by (simp_all add: creates_def opens_def)

lemma opens_creates: "opens nk e \<Longrightarrow> creates e"
  by (cases e) simp_all

definition orderly :: "netkit \<Rightarrow> ip_event list \<Rightarrow> bool" where
  "orderly nk es \<longleftrightarrow>
     length (filter creates es) \<le> 1 \<and>
     (\<forall>before e after. es = before @ e # after \<longrightarrow>
        (case e of
           Send r \<Rightarrow> \<exists>e \<in> set before. opens nk e
         | Close \<Rightarrow> (\<exists>e \<in> set before. creates e) \<and> (\<forall>e \<in> set after. is_callback e)
         | _ \<Rightarrow> True))"

text \<open>A socket that was created without an error and not closed.\<close>

definition left_open :: "netkit \<Rightarrow> ip_event list \<Rightarrow> bool" where
  "left_open nk es \<longleftrightarrow> (\<exists>e \<in> set es. opens nk e) \<and> Close \<notin> set es"

section \<open>The states of a socket\<close>

text \<open>The same as an automaton, which the operations are run on.\<close>

datatype sock_state = NoSock | Opened | Failed_create | Closed

fun sock_step :: "netkit \<Rightarrow> sock_state \<Rightarrow> ip_event \<Rightarrow> sock_state option" where
  "sock_step nk NoSock (Create os) = Some (if truthy (nk_create nk os) then Failed_create else Opened)"
| "sock_step nk Opened (Send r) = Some Opened"
| "sock_step nk Opened Close = Some Closed"
| "sock_step nk Failed_create Close = Some Closed"
| "sock_step nk s (Callback args) = Some s"
| "sock_step nk s e = None"

fun sock_run :: "netkit \<Rightarrow> sock_state \<Rightarrow> ip_event list \<Rightarrow> sock_state option" where
  "sock_run nk s [] = Some s"
| "sock_run nk s (e # es) = (case sock_step nk s e of None \<Rightarrow> None | Some s' \<Rightarrow> sock_run nk s' es)"

lemma sock_run_append:
  "sock_run nk s (es @ es') = (case sock_run nk s es of None \<Rightarrow> None | Some s' \<Rightarrow> sock_run nk s' es')"
  by (induction es arbitrary: s) (auto split: option.split)

text \<open>What the state says of the events so far.\<close>

definition sock_inv :: "netkit \<Rightarrow> sock_state \<Rightarrow> ip_event list \<Rightarrow> bool" where
  "sock_inv nk s es \<longleftrightarrow>
     length (filter creates es) = (if s = NoSock then 0 else 1) \<and>
     (s = Opened \<longrightarrow> (\<exists>e \<in> set es. opens nk e)) \<and> (s = Failed_create \<longrightarrow> \<not> (\<exists>e \<in> set es. opens nk e)) \<and>
     (Close \<in> set es \<longleftrightarrow> s = Closed)"

lemma creates_set: "length (filter creates es) \<noteq> 0 \<longleftrightarrow> (\<exists>e \<in> set es. creates e)"
  by (simp add: filter_empty_conv)

lemma orderly_at:
  "orderly nk (before @ e # after) \<Longrightarrow>
     case e of
       Send r \<Rightarrow> \<exists>e \<in> set before. opens nk e
     | Close \<Rightarrow> (\<exists>e \<in> set before. creates e) \<and> (\<forall>e \<in> set after. is_callback e)
     | _ \<Rightarrow> True"
  unfolding orderly_def by blast

lemma all_splits_snoc:
  "(\<forall>before x after. es @ [e] = before @ x # after \<longrightarrow> R before x after) \<longleftrightarrow>
     R es e [] \<and> (\<forall>before x after. es = before @ x # after \<longrightarrow> R before x (after @ [e]))"
proof (intro iffI conjI allI impI; (elim conjE)?)
  fix before x after
  assume *: "R es e []" "\<forall>before x after. es = before @ x # after \<longrightarrow> R before x (after @ [e])" "es @ [e] = before @ x # after"
  then show "R before x after" by (cases after rule: rev_cases) auto
qed auto

lemma orderly_snoc:
  assumes "orderly nk es" "creates e \<Longrightarrow> length (filter creates es) = 0" "\<And>r. e = Send r \<Longrightarrow> \<exists>e \<in> set es. opens nk e"
    "e = Close \<Longrightarrow> \<exists>e \<in> set es. creates e" "Close \<in> set es \<Longrightarrow> is_callback e"
  shows "orderly nk (es @ [e])"
  unfolding orderly_def all_splits_snoc
proof (intro conjI allI impI)
  show "length (filter creates (es @ [e])) \<le> 1" using assms(1,2) by (auto simp: orderly_def)
  show "case e of Send r \<Rightarrow> \<exists>e \<in> set es. opens nk e | Close \<Rightarrow> (\<exists>e \<in> set es. creates e) \<and> (\<forall>e \<in> set []. is_callback e) | _ \<Rightarrow> True"
    using assms(3,4) by (cases e) auto
  fix before x after assume x: "es = before @ x # after"
  have "case x of Send r \<Rightarrow> \<exists>e \<in> set before. opens nk e
      | Close \<Rightarrow> (\<exists>e \<in> set before. creates e) \<and> (\<forall>e \<in> set after. is_callback e) | _ \<Rightarrow> True"
    using assms(1) unfolding x by (rule orderly_at)
  then show "case x of Send r \<Rightarrow> \<exists>e \<in> set before. opens nk e
      | Close \<Rightarrow> (\<exists>e \<in> set before. creates e) \<and> (\<forall>e \<in> set (after @ [e]). is_callback e) | _ \<Rightarrow> True"
    using assms(5) x by (cases x) auto
qed

lemma sock_run_orderly: "sock_run nk NoSock es = Some s \<Longrightarrow> orderly nk es \<and> sock_inv nk s es"
proof (induction es arbitrary: s rule: rev_induct)
  case Nil
  then show ?case by (auto simp: orderly_def sock_inv_def)
next
  case (snoc e es)
  then obtain s0 where s0: "sock_run nk NoSock es = Some s0" "sock_step nk s0 e = Some s"
    by (auto simp: sock_run_append split: option.splits)
  have IH: "orderly nk es" "sock_inv nk s0 es" using snoc.IH [OF s0(1)] by simp_all
  from s0(2) show ?case
    using IH creates_set [of es] opens_creates [of nk]
    by (cases s0; cases e) (auto intro!: orderly_snoc simp: sock_inv_def is_callback_def split: if_splits)
qed

text \<open>
  \<open>safe nk Q s m\<close>: from the state \<open>s\<close> every event of \<open>m\<close> is allowed, and if \<open>m\<close> runs to its end, the
  final state satisfies \<open>Q\<close>.
\<close>

definition safe :: "netkit \<Rightarrow> (sock_state \<Rightarrow> bool) \<Rightarrow> sock_state \<Rightarrow> unit act \<Rightarrow> bool" where
  "safe nk Q s m = (case sock_run nk s (fst m) of None \<Rightarrow> False | Some s' \<Rightarrow> snd m = Return () \<longrightarrow> Q s')"

lemma safe_orderly:
  assumes "safe nk Q NoSock m"
  shows "orderly nk (fst m)" "snd m = Return () \<Longrightarrow> left_open nk (fst m) \<Longrightarrow> Q Opened"
proof -
  obtain s where s: "sock_run nk NoSock (fst m) = Some s" "snd m = Return () \<longrightarrow> Q s" using assms by (auto simp: safe_def split: option.splits)
  note o = sock_run_orderly [OF s(1)]
  then show "orderly nk (fst m)" by simp
  assume "snd m = Return ()" "left_open nk (fst m)"
  then have "s = Opened" using o creates_set [of "fst m"] opens_creates [of nk] by (cases s) (auto simp: left_open_def sock_inv_def)
  then show "Q Opened" using s(2) \<open>snd m = Return ()\<close> by simp
qed

named_theorems safe_rules

lemma safe_emit_seq [simp]:
  "safe nk Q s (act_seq (emit e) m) = (case sock_step nk s e of None \<Rightarrow> False | Some s' \<Rightarrow> safe nk Q s' m)"
  by (simp add: safe_def split: option.split)

lemma safe_emit [simp]: "safe nk Q s (emit e) = (case sock_step nk s e of None \<Rightarrow> False | Some s' \<Rightarrow> Q s')"
  by (simp add: safe_def split: option.split)

lemma safe_callback [simp]: "safe nk Q s (user_callback args) = Q s"
  by (cases s) (simp_all add: user_callback_def)

lemma safe_callback_seq [simp]: "safe nk Q s (act_seq (user_callback args) m) = safe nk Q s m"
  by (cases s) (simp_all add: user_callback_def)

lemma safe_return [simp]: "safe nk Q s (act_return u) = Q s"
  by (simp add: safe_def act_return_def)

lemma safe_fail [simp]: "r \<noteq> Return () \<Longrightarrow> safe nk Q s (act_run r)" "safe nk Q s (act_throw e)"
  by (simp_all add: safe_def act_run_def act_throw_def)

lemma safe_run_bind [safe_rules]: "(\<And>x. r = Return x \<Longrightarrow> safe nk Q s (f x)) \<Longrightarrow> safe nk Q s (act_bind (act_run r) f)"
  by (cases r) simp_all

lemma safe_hands_over:
  "hands_over cb m \<Longrightarrow> (\<And>err bufs. safe nk Q Opened (cb err bufs)) \<Longrightarrow> safe nk Q Opened m"
  by (induction rule: hands_over.induct) simp_all

text \<open>The contract of a command on an open socket, from its contract as a program.\<close>

context handing_over
begin

lemma command_safe: "(\<And>err bufs. safe nk Q Opened (cb err bufs)) \<Longrightarrow> safe nk Q Opened (command nk n opts cb)"
  by (rule safe_hands_over [OF hands_over])

lemma run_command_safe: "safe nk (\<lambda>s. s \<noteq> Opened) NoSock (run_command command nk opts)"
  by (auto simp: run_command_def Let_def intro!: command_safe)

end

section \<open>Operations\<close>

lemma sendInquiry_safe:
  assumes "\<And>args. safe nk Q Closed (cb args)"
  shows "safe nk Q NoSock (sendInquiry nk filters command cb)"
  using assms by (auto simp: sendInquiry_def Let_def intro!: info.command_safe safe_rules split: option.split)

lemma inquiry_safe: "safe nk (\<lambda>s. s \<noteq> Opened) NoSock (sendInquiry nk filters command user_callback)"
  by (rule sendInquiry_safe) simp

lemma link_safe: "safe nk (\<lambda>s. s \<noteq> Opened) NoSock (link nk operation ifname attrs)"
  by (auto simp: link_def Let_def inquiry_safe intro!: link.command_safe split: operation_kind.split)

lemma neighbor_safe: "safe nk (\<lambda>s. s \<noteq> Opened) NoSock (neighbor nk operation ifname inetdest lladdr)"
  by (auto simp: neighbor_def inquiry_safe neigh.run_command_safe intro!: safe_rules split: sum.split operation_kind.split)

lemma route_safe: "safe nk (\<lambda>s. s \<noteq> Opened) NoSock (route nk operation ifname inetdest inetsrc)"
  by (auto simp: route_def inquiry_safe route_command.run_command_safe intro!: safe_rules split: sum.split operation_kind.split)

lemma netfilterSend_safe: "safe nk (\<lambda>s. s \<noteq> Opened) NoSock (netfilterSend nk opts attrs user_callback)"
  by (auto simp: netfilterSend_def sendNetlinkRequest_def Let_def intro!: safe_rules split: nf_sent.split prod.split)

lemma report_errors_safe [simp]: "safe nk Q s (act_seq (report_errors es) m) = safe nk Q s m"
proof (induction es)
  case (Cons e es)
  have "act_seq (report_errors (e # es)) m = act_seq (user_callback [ErrorObj e]) (act_seq (report_errors es) m)"
    by (simp add: act_seq_def act_bind_assoc)
  then show ?case using Cons by simp
qed simp

lemma nfcommand_safe: "safe nk (\<lambda>s. s \<noteq> Opened) NoSock (nfcommand nk command)"
  by (auto simp: nfcommand_def netfilterSend_safe intro!: safe_rules split: prod.split)

text \<open>The operations that go on after they have answered: each message that arrives only calls back.\<close>

lemma safe_seq: "safe nk (\<lambda>s'. safe nk Q s' m') s m \<Longrightarrow> safe nk Q s (act_seq m m')"
  by (cases "snd m") (auto simp: safe_def act_seq_def act_bind_def sock_run_append split: option.splits)

lemma on_events_safe: "Q s \<Longrightarrow> safe nk Q s (on_events nk ifname links recvs)"
proof (induction recvs)
  case (Cons r rs)
  have "safe nk (\<lambda>s'. safe nk Q s' (on_events nk ifname links rs)) s (on_event nk ifname links r)"
    using Cons by (auto simp: on_event_def Let_def intro!: safe_rules)
  then show ?case by (simp add: safe_seq)
qed simp

lemma onNetworkChange_safe:
  assumes "\<And>gs. event_groups event_type = Some gs \<Longrightarrow> \<not> truthy (nk_create nk [(''subscriptions'', Num (group_bits gs))])"
  shows "safe nk (\<lambda>s. True) NoSock (onNetworkChange nk ifname event_type recvs)"
  using assms by (auto simp: onNetworkChange_def Let_def intro!: info.command_safe safe_rules on_events_safe split: option.split)

lemma on_processes_safe: "Q s \<Longrightarrow> safe nk Q s (on_processes recvs)"
proof (induction recvs)
  case (Cons r rs)
  have "safe nk (\<lambda>s'. safe nk Q s' (on_processes rs)) s (on_process r)"
    using Cons by (auto simp: on_process_def Let_def intro!: safe_rules split: option.split)
  then show ?case by (simp add: safe_seq)
qed simp

lemma onProcessChange_safe: "safe nk (\<lambda>s. True) NoSock (onProcessChange nk recvs)"
proof -
  have "hands_over cb (sendConnectorMsg nk n cb)" for n cb
    by (auto simp: sendConnectorMsg_def intro!: hands_over_intros split: prod.split)
  from safe_hands_over [OF this] show ?thesis
    by (simp add: onProcessChange_def Let_def on_processes_safe)
qed

section \<open>Operations that break the rules\<close>

text \<open>
  \<open>addIPv6Neighbor\<close> keeps the order, but has no call of \<open>close\<close>: on a socket that works it always ends with
  the socket open.
\<close>

lemma addIPv6Neighbor_order: "safe nk (\<lambda>s. True) NoSock (addIPv6Neighbor nk replied ifname inet6dest lladdr sock)"
  by (auto simp: addIPv6Neighbor_def send_ipv6_neighbor_def Let_def intro!: safe_rules split: sum.split)

lemma addIPv6Neighbor_leaks:
  assumes "\<not> truthy (nk_create nk [])"
  shows "sock_run nk NoSock (fst (send_ipv6_neighbor nk replied msg)) = Some Opened"
  using assms by (simp add: send_ipv6_neighbor_def user_callback_def Let_def act_return_def)

text \<open>\<open>onNetworkChange\<close> asks for the links even on a socket that could not be created.\<close>

lemma send_on_failed_socket:
  "truthy (nk_create nk os) \<Longrightarrow> \<not> orderly nk (Create os # Callback args # Send r # es)"
  using orderly_at [of nk "[Create os, Callback args]" "Send r" es] by auto

lemma network_change_on_failed_socket:
  assumes "event_groups event_type = Some gs" "truthy (nk_create nk [(''subscriptions'', Num (group_bits gs))])"
  shows "\<not> orderly nk (fst (onNetworkChange nk ifname event_type recvs))"
proof -
  have "\<exists>r es. fst (onNetworkChange nk ifname event_type recvs) =
      Create [(''subscriptions'', Num (group_bits gs))] # Callback [nk_create nk [(''subscriptions'', Num (group_bits gs))]] # Send r # es"
    using assms by (simp add: onNetworkChange_def Let_def getlink_command user_callback_def)
  then show ?thesis using send_on_failed_socket [OF assms(2)] by metis
qed

text \<open>
  \<open>address\<close> creates a socket of its own before an inquiry creates a second one, and only the second one is
  closed.
\<close>

lemma address_show_leaks:
  assumes "family_number family \<noteq> None" "ifname \<noteq> Null" "\<not> truthy (nk_create nk [])"
  shows "counts creates 2 (address nk (Str ''show'') family ifname addr label)"
    "counts is_close 1 (address nk (Str ''show'') family ifname addr label)"
proof -
  have "counts creates 1 (sendInquiry nk filters command user_callback)" for filters command
    using info.reports [of creates 0] by (auto simp: sendInquiry_def Let_def creates_def split: option.split)
  moreover have "counts is_close (Suc 0) (sendInquiry nk filters command user_callback)" for filters command
    by (rule sendInquiry_closes) simp_all
  ultimately show "counts creates 2 (address nk (Str ''show'') family ifname addr label)"
    "counts is_close 1 (address nk (Str ''show'') family ifname addr label)"
    using assms by (auto simp: address_def address_opts_def Let_def creates_def)
qed

end
