(* ===== verification/IpAddrLabel.thy ===== *)
theory IpAddrLabel
  imports IpAddress
begin

text \<open>
  \<open>ip/addrlabel.js\<close>: address labels. The builder of their message is looked up in the wrong module, so that
  the command throws once it has an interface; the code behind that call is modelled all the same.
\<close>

section \<open>The message\<close>

definition addrlbl_attributes :: "(string \<times> int) list" where
  "addrlbl_attributes = [(''IFA_ADDRESS'', 1), (''IFA_LABEL'', 2)]"

definition addrlbl_attribute :: "string \<Rightarrow> jsval" where
  "addrlbl_attribute k = (case map_of addrlbl_attributes k of Some n \<Rightarrow> Num n | None \<Rightarrow> Undef)"

definition ifaddrlblmsg_fmt :: string where
  "ifaddrlblmsg_fmt = ''<B(_family)B(_reserved)B(_prefix_len)B(_flags)B(_index)I(_sequence)''"

text \<open>
  \<open>buildIfAddrlblMsg\<close> of the module. It uses a variable \<open>bufferpack\<close> that no module makes global:
  \<open>metaObject_of\<close> is its function \<open>metaObject\<close>, if the variable is there.
\<close>

definition buildIfAddrlblMsg :: "(string \<Rightarrow> bool \<Rightarrow> meta run) option \<Rightarrow> meta run" where
  "buildIfAddrlblMsg metaObject_of =
     (case metaObject_of of
        None \<Rightarrow> Throw (ReferenceError ''bufferpack'')
      | Some new_object \<Rightarrow>
          run_bind (new_object ifaddrlblmsg_fmt False) (\<lambda>o1. Return
            (zero_fields [''_family'', ''_reserved'', ''_prefix_len'', ''_flags'', ''_index'', ''_sequence''] o1)))"

text \<open>\<open>rt.buildIfAddrlblMsg()\<close>: the builder is looked up in \<open>rt\<close>.\<close>

definition call_buildIfAddrlblMsg :: "meta run" where
  "call_buildIfAddrlblMsg = rt_build ''buildIfAddrlblMsg''"

section \<open>netlinkAddrLabelCommand\<close>

text \<open>
  The code behind the call, on the header and the message. The callbacks of this command take their arguments
  as a list. \<open>label_family\<close> is the family of the options or that of the text; when the text is no address,
  the callback gets the variable \<open>ans\<close>, which has no value yet. The mask goes to \<open>_prefix\<close>, which is no
  field of the message.
\<close>

definition label_headers :: "props \<Rightarrow> jsval \<Rightarrow> meta \<Rightarrow> meta \<Rightarrow> (meta \<times> meta) run" where
  "label_headers opts ifndex h1 m0 =
     run_bind (or_truthy opts ''flags'' ''_flags'' (set_truthy opts ''type'' ''_type'' h1)) (\<lambda>nl_hdr.
     run_bind (or_truthy opts ''family'' ''_family'' (meta_set ''_index'' ifndex m0)) (\<lambda>addrlabl_msg.
       Return (nl_hdr, addrlabl_msg)))"

definition label_family :: "props \<Rightarrow> string \<Rightarrow> jsval option" where
  "label_family opts prefix =
     (let family = (if has_own opts ''family'' \<and> truthy (obj_get opts ''family'') then obj_get opts ''family'' else Num AF_UNSPEC) in
      if family = Num AF_UNSPEC then
        (let f = isaddress prefix in
         if is_error f then None else Some (Num (if f = Str ''inet6'' then AF_INET6 else AF_INET)))
      else Some family)"

definition label_attributes_of :: "props \<Rightarrow> meta \<Rightarrow> jsval \<Rightarrow> bytes option list run" where
  "label_attributes_of opts addrlabl_msg destbuf =
     run_bind (meta_pack addrlabl_msg) (\<lambda>b.
     run_bind (as_hex_buffer b) (\<lambda>_.
     run_bind
       (if has_own opts ''label'' \<and> truthy (obj_get opts ''label'') then
          (case obj_get opts ''label'' of
             Str label \<Rightarrow>
               run_bind (buildRtattrBuf (addrlbl_attribute ''IFA_LABEL'') (Buf (bytes_of_string label))) (\<lambda>rt_attr.
               run_bind (as_hex_buffer rt_attr) (\<lambda>_. Return [b, rt_attr]))
           | _ \<Rightarrow> Throw (NotModelled ''label that is not a text''))
        else Return [b]) (\<lambda>bufs.
     run_bind (address_attribute (map_of addrlbl_attributes ''IFA_ADDRESS'') destbuf) (\<lambda>a. Return (bufs @ [a])))))"

definition label_command :: "netkit \<Rightarrow> nat \<Rightarrow> props \<Rightarrow> meta \<Rightarrow> meta \<Rightarrow> (jsval list \<Rightarrow> unit act) \<Rightarrow> unit act" where
  "label_command nk n opts nl_hdr addrlabl_msg cb =
     (let sent = (\<lambda>bufs. nl_send nk n nl_hdr bufs (\<lambda>err bs. cb (if truthy err then [err] else [err, Arr (map Buf bs)]))) in
      if has_own opts ''prefix'' \<and> obj_get opts ''prefix'' \<noteq> Null then
        (case obj_get opts ''prefix'' of
           Str prefix \<Rightarrow>
             (case label_family opts prefix of
                None \<Rightarrow> cb [Undef]
              | Some family \<Rightarrow>
                  let ans = toAddress (nk_native nk) (Str prefix) family in
                  if is_error ans then cb [ans]
                  else
                    act_bind (act_run (run_bind (get_prop ans ''mask'') (\<lambda>m.
                      label_attributes_of opts (meta_set ''_prefix'' (if truthy m then m else Num 0) addrlabl_msg) ans))) sent)
         | _ \<Rightarrow>
             act_seq (cb [ErrorObj ''Error: netlinkAddrCommand() ip address is not a string''])
               (act_bind (act_run (label_attributes_of opts addrlabl_msg Undef)) sent))
      else sent [])"

definition netlinkAddrLabelCommand :: "netkit \<Rightarrow> nat \<Rightarrow> props \<Rightarrow> (jsval list \<Rightarrow> unit act) \<Rightarrow> unit act" where
  "netlinkAddrLabelCommand nk n opts cb =
     (let ifndex = (if has_own opts ''ifname'' then ifNameToIndex (nk_native nk) (obj_get opts ''ifname'') else Undef) in
      if is_error ifndex then cb [ifndex]
      else
        act_bind (act_run buildHdr) (\<lambda>h0.
        act_bind (act_run call_buildIfAddrlblMsg) (\<lambda>m0.
        act_bind (act_run (label_headers opts ifndex
            (meta_set ''_type'' (rtc ''RTM_GETLINK'') (meta_set ''_flags'' (Num NLM_F_REQUEST) h0)) m0)) (\<lambda>(nl_hdr, addrlabl_msg).
          label_command nk n opts nl_hdr addrlabl_msg cb))))"

section \<open>addrlabel\<close>

definition label_opts :: "jsval \<Rightarrow> jsval \<Rightarrow> jsval \<Rightarrow> jsval \<Rightarrow> jsval \<Rightarrow> address_kind" where
  "label_opts operation family ifname prefix label =
     (if \<not> truthy operation \<or> operation = Str ''list'' then
        (if ifname = Null then AddrRefused (address_error operation '' ifname parameter required'')
         else AddrInquiry
           [(''type'', rtc ''RTM_GETADDRLABEL''), (''flags'', Num dump_flags), (''family'', family),
            (''ifname'', ifname), (''label'', label)])
      else if operation = Str ''add'' then
        (if prefix = Null then AddrRefused (address_error operation '' prefix required'')
         else AddrCommand
           [(''type'', rtc ''RTM_NEWADDRLABEL''),
            (''flags'', Num (js_or (js_or (js_or NLM_F_REQUEST NLM_F_CREATE) NLM_F_EXCL) NLM_F_ACK)), (''family'', family),
            (''prefix'', prefix), (''ifname'', ifname), (''label'', label)])
      else if operation = Str ''delete'' then
        (if prefix = Null \<and> label = Null then AddrRefused (address_error operation '' prefix or label parameters required'')
         else AddrCommand
           [(''type'', rtc ''RTM_DELADDR''), (''flags'', Num NLM_F_REQUEST), (''family'', family),
            (''prefix'', prefix), (''ifname'', ifname), (''label'', label)])
      else if operation = Str ''flush'' then
        AddrFlush [(''type'', rtc ''RTM_DELADDR''), (''flags'', Num NLM_F_REQUEST), (''family'', family),
                   (''ifname'', ifname), (''label'', Null)]
      else AddrUnsupported)"

fun label_flush_loop :: "netkit \<Rightarrow> props \<Rightarrow> nat \<Rightarrow> jsval list \<Rightarrow> unit act" where
  "label_flush_loop nk opts n [] = act_return ()"
| "label_flush_loop nk opts n (d # ds) =
     act_bind (act_run (run_bind (get_prop d ''event'') (\<lambda>ev. get_prop ev ''address''))) (\<lambda>a.
     act_seq (netlinkAddrLabelCommand nk n (obj_set ''prefix'' a opts) (\<lambda>args. act_return ()))
       (label_flush_loop nk opts (Suc n) ds))"

definition addrlabel :: "netkit \<Rightarrow> jsval \<Rightarrow> jsval \<Rightarrow> jsval \<Rightarrow> jsval \<Rightarrow> jsval \<Rightarrow> unit act" where
  "addrlabel nk operation family ifname prefix label =
     (let filters = Obj (filter (\<lambda>(k, v). truthy v) [(''address'', prefix), (''label'', label), (''family'', family)]);
          err = nk_create nk []
      in
      act_seq (emit (Create []))
     (act_seq (if truthy err then user_callback [err] else act_return ())
        (case label_opts operation family ifname prefix label of
           AddrInquiry opts \<Rightarrow> sendInquiry nk filters (Some opts) user_callback
         | AddrRefused args \<Rightarrow> user_callback args
         | AddrUnsupported \<Rightarrow> act_return ()
         | AddrFlush opts \<Rightarrow>
             sendInquiry nk filters (Some [(''type'', rtc ''RTM_GETADDR''), (''flags'', Num dump_flags)]) (\<lambda>args.
               case args of
                 [err] \<Rightarrow> user_callback [err]
               | [_, Arr bufs] \<Rightarrow>
                   act_seq (label_flush_loop nk opts 2 bufs) (act_seq (emit Close) (user_callback [Null]))
               | _ \<Rightarrow> act_return ())
         | AddrCommand opts \<Rightarrow>
             netlinkAddrLabelCommand nk 0 opts (\<lambda>args.
               user_callback (case args of
                  [] \<Rightarrow> [Null, Undef]
                | [err] \<Rightarrow> if truthy err then [err] else [Null, Undef]
                | err # bufs # _ \<Rightarrow> if truthy err then [err] else [Null, bufs])))))"

section \<open>The message the builder would make\<close>

text \<open>
  Even with the packing module in scope the message would not be the one of the kernel, which has twelve
  bytes: the index has one byte instead of four, in which it is clamped, and the mask is lost.
\<close>

lemma scan_ifaddrlblmsg:
  "scan_fmt ifaddrlblmsg_fmt =
     [int_field FB ''_family'', int_field FB ''_reserved'', int_field FB ''_prefix_len'', int_field FB ''_flags'',
      int_field FB ''_index'', int_field FI ''_sequence'']"
  "fmt_be ifaddrlblmsg_fmt = False"
  by code_simp+

lemma label_message_layout:
  "\<exists>m. buildIfAddrlblMsg (Some metaObject) = Return m \<and>
     meta_pack (meta_set ''_prefix'' p (meta_set ''_index'' (Num ix) m)) =
       Return (Some ([0, 0, 0, 0, word_of_int (clamp_el (unsigned_el 1) ix), 0, 0, 0, 0]))"
proof -
  obtain m where m: "buildIfAddrlblMsg (Some metaObject) = Return m" "m_format m = ifaddrlblmsg_fmt"
    "m_keylist m = [''_family'', ''_reserved'', ''_prefix_len'', ''_flags'', ''_index'', ''_sequence'']"
    "\<forall>k \<in> set (m_keylist m). meta_get m k = Num 0"
    by (simp add: buildIfAddrlblMsg_def metaObject_def scan_ifaddrlblmsg calcLength_def toValArray_def map_filter_def zero_fields_def)
  let ?m = "meta_set ''_prefix'' p (meta_set ''_index'' (Num ix) m)"
  have z: "word_of_int (clamp_el (unsigned_el (Suc 0)) 0) = (0 :: byte)" "le_bytes 4 (clamp_el (unsigned_el 4) 0) = [0, 0, 0, 0]" by code_simp+
  have "all_nums ?m" using m(3,4) by (simp add: all_nums_def num_of_def)
  then have "meta_pack ?m = Return (Some (enc_elems (fmt_be (m_format ?m)) (scan_fmt (m_format ?m)) (meta_nums ?m)))"
    by (rule meta_pack_nums) (use m in \<open>simp_all add: scan_ifaddrlblmsg\<close>)
  then show ?thesis using m by (simp add: meta_nums_def num_of_def scan_ifaddrlblmsg z)
qed

section \<open>Operations\<close>

text \<open>\<open>rt\<close> has no function of the name that is called.\<close>

lemma call_buildIfAddrlblMsg_throws: "call_buildIfAddrlblMsg = Throw TypeError"
  by code_simp

lemma label_command_never_sends:
  assumes "has_own opts ''ifname''"
  shows "netlinkAddrLabelCommand nk n opts cb =
    (let ix = ifNameToIndex (nk_native nk) (obj_get opts ''ifname'') in if is_error ix then cb [ix] else act_throw TypeError)"
proof -
  obtain h where "buildHdr = Return h" using buildHdr_value by blast
  then show ?thesis using assms by (simp add: netlinkAddrLabelCommand_def call_buildIfAddrlblMsg_throws Let_def \<open>buildHdr = Return h\<close>)
qed

text \<open>The error for a missing prefix, or for a prefix and a label that are both missing.\<close>

definition label_missing :: "string \<Rightarrow> jsval \<Rightarrow> jsval \<Rightarrow> string option" where
  "label_missing op1 prefix label =
     (if op1 = ''add'' \<and> prefix = Null then Some ''Error: address add prefix required''
      else if op1 = ''delete'' \<and> prefix = Null \<and> label = Null then Some ''Error: address delete prefix or label parameters required''
      else None)"

lemma label_opts_add_delete:
  assumes "op1 \<in> {''add'', ''delete''}"
  obtains msg where "label_missing op1 prefix label = Some msg" "label_opts (Str op1) family ifname prefix label = AddrRefused [ErrorObj msg]"
  | opts where "label_missing op1 prefix label = None" "label_opts (Str op1) family ifname prefix label = AddrCommand opts"
    "has_own opts ''ifname''" "obj_get opts ''ifname'' = ifname"
proof (cases "label_missing op1 prefix label")
  case None
  then have "\<exists>opts. label_opts (Str op1) family ifname prefix label = AddrCommand opts \<and> has_own opts ''ifname'' \<and> obj_get opts ''ifname'' = ifname"
    using assms by (auto simp: label_opts_def label_missing_def has_own_def split: if_splits)
  then show thesis using None that(2) by blast
next
  case (Some msg)
  then have "label_opts (Str op1) family ifname prefix label = AddrRefused [ErrorObj msg]"
    using assms by (auto simp: label_opts_def label_missing_def address_error_def split: if_splits)
  then show thesis using Some that(1) by blast
qed



end
