(* ===== verification/Logger.thy ===== *)
theory Logger
  imports Common
begin

text \<open>
  \<open>libs/colors.js\<close> and the logger of \<open>libs/common.js\<close>: colouring a text for a terminal, and printing it with
  the function set last.
\<close>

section \<open>colors\<close>

text \<open>The sequence \<open>\x1B[\<close> \<open>n\<close> \<open>m\<close>.\<close>

definition sgr :: "string \<Rightarrow> string" where
  "sgr n = CHR 0x1B # CHR ''['' # n @ ''m''"

definition console_styles :: "(string \<times> string \<times> string) list" where
  "console_styles = map (\<lambda>(name, on, off). (name, sgr on, sgr off))
     [(''boldFG'', ''1'', ''22''), (''italicFG'', ''3'', ''23''), (''underlineFG'', ''4'', ''24''), (''inverseFG'', ''7'', ''27''),
      (''strikethroughFG'', ''9'', ''29''), (''whiteFG'', ''37'', ''39''), (''greyFG'', ''90'', ''39''), (''blackFG'', ''30'', ''39''),
      (''blueFG'', ''34'', ''39''), (''cyanFG'', ''36'', ''39''), (''greenFG'', ''32'', ''39''), (''magentaFG'', ''35'', ''39''),
      (''redFG'', ''31'', ''39''), (''yellowFG'', ''33'', ''39''), (''whiteBG'', ''47'', ''49''), (''greyBG'', ''49;5;8'', ''49''),
      (''blackBG'', ''40'', ''49''), (''blueBG'', ''44'', ''49''), (''cyanBG'', ''46'', ''49''), (''greenBG'', ''42'', ''49''),
      (''magentaBG'', ''45'', ''49''), (''redBG'', ''41'', ''49''), (''yellowBG'', ''43'', ''49'')]"

definition color_span :: "string \<Rightarrow> string \<times> string" where
  "color_span color = (''<span style=\"color:'' @ color @ '';\">'', ''</span>'')"

definition background_span :: "string \<Rightarrow> string \<times> string" where
  "background_span color = (''<span style=\"background-color:'' @ color @ '';\">'', ''</span>'')"

definition browser_styles :: "(string \<times> string \<times> string) list" where
  "browser_styles =
     [(''bold'', ''<b>'', ''</b>''), (''italic'', ''<i>'', ''</i>''), (''underline'', ''<u>'', ''</u>''),
      (''inverse'', ''<span style=\"background-color:black;color:white;\">'', ''</span>''), (''strikethrough'', ''<del>'', ''</del>''),
      (''white'', color_span ''white''), (''grey'', color_span ''gray''), (''black'', color_span ''black''),
      (''blue'', color_span ''blue''), (''cyan'', color_span ''cyan''), (''green'', color_span ''green''),
      (''magenta'', color_span ''magenta''), (''red'', color_span ''red''), (''yellow'', color_span ''yellow''),
      (''whiteBG'', background_span ''white''), (''greyBG'', background_span ''gray''), (''blackBG'', background_span ''black''),
      (''blueBG'', background_span ''blue''), (''cyanBG'', background_span ''cyan''), (''greenBG'', background_span ''green''),
      (''magentaBG'', background_span ''magenta''), (''redBG'', background_span ''red''), (''yellowBG'', background_span ''yellow'')]"

text \<open>The mode is fixed when the module is loaded.\<close>

definition colors_mode :: string where
  "colors_mode = ''console''"

definition styles_of :: "string \<Rightarrow> (string \<times> string \<times> string) list" where
  "styles_of mode =
     (if mode = ''console'' then console_styles else if mode = ''browser'' then browser_styles else [])"

abbreviation "styles \<equiv> styles_of colors_mode"

text \<open>An unknown style gives the value back as it is, after a message on the console.\<close>

definition stylize :: "jsval \<Rightarrow> string \<Rightarrow> jsval" where
  "stylize str style =
     (case map_of styles style of
        Some (on, off) \<Rightarrow> Str (on @ to_string str @ off)
      | None \<Rightarrow> str)"

text \<open>
  The function exported under a style name, by the loop over the names, and a call of an export: a name that
  is not exported is \<open>undefined\<close>.
\<close>

definition addExport :: "string \<Rightarrow> (string \<Rightarrow> (jsval \<Rightarrow> jsval) option) \<Rightarrow> string \<Rightarrow> (jsval \<Rightarrow> jsval) option" where
  "addExport name exports = exports(name \<mapsto> (\<lambda>str. stylize str name))"

definition colors_exports :: "string \<Rightarrow> (jsval \<Rightarrow> jsval) option" where
  "colors_exports = fold addExport (map fst styles) Map.empty"

definition color_call :: "string \<Rightarrow> jsval \<Rightarrow> jsval run" where
  "color_call name str = (case colors_exports name of Some f \<Rightarrow> Return (f str) | None \<Rightarrow> Throw TypeError)"

section \<open>The logger\<close>

text \<open>
  What prints is set by the user of the module, who may set anything: a function, which is a value of a type
  parameter, or another value, which cannot be called. \<open>yellowFG.apply(undefined, arguments)\<close> passes all
  arguments on to a function of one parameter.
\<close>

datatype 'f printer = Function 'f | No_function jsval

record 'f logger =
  debug_logger :: "'f printer"
  error_logger :: "'f printer"

definition first_argument :: "jsval list \<Rightarrow> jsval" where
  "first_argument args = (case args of [] \<Rightarrow> Undef | a # _ \<Rightarrow> a)"

definition log_line :: "string \<Rightarrow> string \<Rightarrow> string \<Rightarrow> jsval list \<Rightarrow> string run" where
  "log_line prefix_style prefix text_style args =
     run_bind (color_call prefix_style (Str prefix)) (\<lambda>p.
     run_bind (color_call text_style (first_argument args)) (\<lambda>t. Return (to_string p @ to_string t)))"

datatype 'f log_call = Debug "jsval list" | Error "jsval list" | Set_debug_logger "'f printer" | Set_error_logger "'f printer"

text \<open>The call \<open>f(line)\<close>: the line is computed first, then the call throws if there is no function to call.\<close>

definition print_with :: "'f printer \<Rightarrow> string run \<Rightarrow> ('f \<times> string) list run" where
  "print_with p line =
     run_bind line (\<lambda>s. case p of Function f \<Rightarrow> Return [(f, s)] | No_function v \<Rightarrow> Throw TypeError)"

text \<open>One call of the logger: what it is afterwards, and what the call prints or how it fails.\<close>

fun log_step :: "'f logger \<Rightarrow> 'f log_call \<Rightarrow> 'f logger \<times> ('f \<times> string) list run" where
  "log_step l (Debug args) = (l, print_with (debug_logger l) (log_line ''greyFG'' ''dbg: '' ''yellowFG'' args))"
| "log_step l (Error args) = (l, print_with (error_logger l) (log_line ''redFG'' ''err: '' ''redFG'' args))"
| "log_step l (Set_debug_logger f) = (l\<lparr>debug_logger := f\<rparr>, Return [])"
| "log_step l (Set_error_logger f) = (l\<lparr>error_logger := f\<rparr>, Return [])"

text \<open>The outcomes of calls one after the other, whoever catches the errors in between.\<close>

fun log_run :: "'f logger \<Rightarrow> 'f log_call list \<Rightarrow> ('f \<times> string) list run list" where
  "log_run l [] = []"
| "log_run l (c # cs) = snd (log_step l c) # log_run (fst (log_step l c)) cs"

definition common_logger :: "'f \<Rightarrow> 'f logger" where
  "common_logger console_log = \<lparr>debug_logger = Function console_log, error_logger = Function console_log\<rparr>"

section \<open>asHexBuffer\<close>

text \<open>\<open>b.toString('hex')\<close>: of a number the argument is a radix, which is none; all other values ignore it.\<close>

definition asHexBuffer :: "jsval \<Rightarrow> string run" where
  "asHexBuffer b =
     (case b of
        Undef \<Rightarrow> Throw TypeError
      | Null \<Rightarrow> Throw TypeError
      | Num n \<Rightarrow> Throw RangeError
      | Buf bs \<Rightarrow> Return (to_hex bs)
      | _ \<Rightarrow> Return (to_string b))"

section \<open>What is printed, and by whom\<close>

lemma colors_exports_eq:
  "colors_exports name = (if name \<in> fst ` set styles then Some (\<lambda>str. stylize str name) else None)"
proof -
  have "fold addExport ns e name = (if name \<in> set ns then Some (\<lambda>str. stylize str name) else e name)" for ns e
    by (induction ns arbitrary: e) (auto simp: addExport_def)
  then show ?thesis by (simp add: colors_exports_def)
qed

text \<open>Every exported function puts its own codes around the text, whatever was exported after it.\<close>

lemma color_call_known:
  assumes "map_of styles name = Some (on, off)"
  shows "color_call name str = Return (Str (on @ to_string str @ off))"
  using assms map_of_SomeD [OF assms] by (force simp: color_call_def colors_exports_eq stylize_def)

lemma logger_styles:
  "map_of styles ''greyFG'' = Some (sgr ''90'', sgr ''39'')" "map_of styles ''yellowFG'' = Some (sgr ''33'', sgr ''39'')"
  "map_of styles ''redFG'' = Some (sgr ''31'', sgr ''39'')"
  by (simp_all add: styles_of_def colors_mode_def console_styles_def)

text \<open>The line of one message: the first argument only.\<close>

definition message_line :: "string \<Rightarrow> string \<Rightarrow> string \<Rightarrow> jsval list \<Rightarrow> string" where
  "message_line c prefix d args =
     sgr c @ prefix @ sgr ''39'' @ sgr d @ to_string (if args = [] then Undef else args ! 0) @ sgr ''39''"

lemma log_line_eq:
  "log_line ''greyFG'' ''dbg: '' ''yellowFG'' args = Return (message_line ''90'' ''dbg: '' ''33'' args)"
  "log_line ''redFG'' ''err: '' ''redFG'' args = Return (message_line ''31'' ''err: '' ''31'' args)"
  by (cases args; simp add: log_line_def color_call_known [OF logger_styles(1)] color_call_known [OF logger_styles(2)]
      color_call_known [OF logger_styles(3)] message_line_def first_argument_def)+

text \<open>What was set last by the calls \<open>cs\<close>, or \<open>p\<close> if nothing was.\<close>

definition last_set :: "('f log_call \<Rightarrow> 'f printer option) \<Rightarrow> 'f printer \<Rightarrow> 'f log_call list \<Rightarrow> 'f printer" where
  "last_set sel p cs = last (p # List.map_filter sel cs)"

definition sets_debug :: "'f log_call \<Rightarrow> 'f printer option" where
  "sets_debug c = (case c of Set_debug_logger f \<Rightarrow> Some f | _ \<Rightarrow> None)"

definition sets_error :: "'f log_call \<Rightarrow> 'f printer option" where
  "sets_error c = (case c of Set_error_logger f \<Rightarrow> Some f | _ \<Rightarrow> None)"

text \<open>What a call does after the calls \<open>before\<close>.\<close>

definition expected :: "'f logger \<Rightarrow> 'f log_call list \<Rightarrow> 'f log_call \<Rightarrow> ('f \<times> string) list run" where
  "expected l before c =
     (case c of
        Debug args \<Rightarrow>
          (case last_set sets_debug (debug_logger l) before of
             Function f \<Rightarrow> Return [(f, message_line ''90'' ''dbg: '' ''33'' args)]
           | No_function v \<Rightarrow> Throw TypeError)
      | Error args \<Rightarrow>
          (case last_set sets_error (error_logger l) before of
             Function f \<Rightarrow> Return [(f, message_line ''31'' ''err: '' ''31'' args)]
           | No_function v \<Rightarrow> Throw TypeError)
      | _ \<Rightarrow> Return [])"

lemma last_set_Cons: "last_set sel p (c # cs) = last_set sel (case sel c of Some g \<Rightarrow> g | None \<Rightarrow> p) cs"
  by (simp add: last_set_def map_filter_def split: option.split)

lemma expected_Cons:
  "expected l (c # before) d =
     expected \<lparr>debug_logger = (case sets_debug c of Some g \<Rightarrow> g | None \<Rightarrow> debug_logger l),
               error_logger = (case sets_error c of Some g \<Rightarrow> g | None \<Rightarrow> error_logger l)\<rparr> before d"
  by (cases d) (simp_all add: expected_def last_set_Cons)

text \<open>
  C40. Every message is printed once, by the function that was set last for its kind, in its colours and with
  only its first argument; when what was set last is no function, the call throws a \<open>TypeError\<close> and prints
  nothing, and the calls after it are not affected.
\<close>

theorem logger_prints:
  "log_run l cs = map (\<lambda>i. expected l (take i cs) (cs ! i)) [0..<length cs]"
proof (induction cs arbitrary: l)
  case (Cons c cs)
  let ?l = "\<lparr>debug_logger = (case sets_debug c of Some g \<Rightarrow> g | None \<Rightarrow> debug_logger l),
             error_logger = (case sets_error c of Some g \<Rightarrow> g | None \<Rightarrow> error_logger l)\<rparr>"
  have "log_step l c = (?l, expected l [] c)"
    by (cases c) (simp_all add: log_line_eq print_with_def expected_def last_set_def map_filter_def sets_debug_def sets_error_def)
  moreover have "map (\<lambda>i. expected l (take i (c # cs)) ((c # cs) ! i)) [0..<length (c # cs)] =
      expected l [] c # map (\<lambda>i. expected ?l (take i cs) (cs ! i)) [0..<length cs]"
    by (simp add: upt_conv_Cons map_Suc_upt [symmetric] expected_Cons del: upt_Suc)
  ultimately show ?case using Cons [of ?l] by simp
qed simp

text \<open>A logger that was set to \<open>undefined\<close> throws until it is set to a function again; the other one still prints.\<close>

lemma logger_example:
  "log_run (common_logger f) [Set_debug_logger (No_function Undef), Debug [Str ''a''], Error [Str ''b'', Str ''c''], Set_debug_logger (Function g), Debug []] =
     [Return [], Throw TypeError, Return [(f, message_line ''31'' ''err: '' ''31'' [Str ''b''])], Return [],
      Return [(g, message_line ''90'' ''dbg: '' ''33'' [])]]"
  by (simp add: common_logger_def print_with_def log_line_eq) (simp add: message_line_def)

end
