(* ===== verification/NodeNetkit.thy ===== *)
theory NodeNetkit
  imports IpSockets IpAddrLabel ProcEvents Logger
begin

text \<open>
  \<open>lib/node-netkit.js\<close>: the stream over a tunnel device, the functions and the constants of the module.
\<close>

section \<open>Tunnel devices\<close>

record tun =
  tun_fd :: int
  tun_stream :: bool     \<comment> \<open>there is a stream\<close>
  tun_isReading :: bool

text \<open>\<open>open()\<close>: the addon's \<open>_open\<close> sets the descriptor and gives \<open>ret\<close>.\<close>

definition tun_open :: "int \<Rightarrow> jsval \<Rightarrow> tun \<Rightarrow> tun \<times> bool" where
  "tun_open fd ret t0 =
     (let t = t0\<lparr>tun_fd := fd\<rparr> in
      if tun_fd t < 1 \<or> \<not> truthy ret then (t, False)
      else if \<not> tun_stream t then (t\<lparr>tun_stream := True, tun_isReading := True\<rparr>, True)
      else (t, True))"

text \<open>
  The duplex stream. \<open>_getData\<close> gives a buffer, if any, the number of bytes read and an error, if any, with
  its number; the parameter \<open>error\<close> hides the logger of that name, so that reporting an error throws.
\<close>

datatype tun_event =
    Push bytes             \<comment> \<open>\<open>push\<close>: data for the reader\<close>
  | SendData bytes         \<comment> \<open>\<open>_sendData\<close> of the addon\<close>
  | Written "jsval list"   \<comment> \<open>the callback of \<open>_write\<close>\<close>

definition tun_doRead :: "bytes option \<Rightarrow> int \<Rightarrow> int option \<Rightarrow> tun_event list \<times> unit run" where
  "tun_doRead buf readsize err =
     ((case buf of Some b \<Rightarrow> if 0 < readsize then [Push (js_slice b 0 readsize)] else [] | None \<Rightarrow> []),
      (case err of Some errno \<Rightarrow> if 0 < errno then Throw TypeError else Return () | None \<Rightarrow> Return ()))"

text \<open>
  \<open>_write\<close>: the text of a chunk is read from the undeclared variable \<open>str\<close>. \<open>failed\<close> is the error of the
  addon, if any.
\<close>

definition tun_write :: "jsval \<Rightarrow> jsval option \<Rightarrow> tun_event list \<times> unit run" where
  "tun_write chunk failed =
     (case chunk of
        Str s \<Rightarrow> ([], Throw (ReferenceError ''str''))
      | Buf b \<Rightarrow> ([SendData b, Written (case failed of None \<Rightarrow> [] | Some err \<Rightarrow> [err])], Return ())
      | _ \<Rightarrow> ([], Return ()))"

text \<open>A run of reads hands on what was read, in order, up to the first error.\<close>

fun tun_reads :: "(bytes option \<times> int \<times> int option) list \<Rightarrow> tun_event list \<times> unit run" where
  "tun_reads [] = ([], Return ())"
| "tun_reads ((buf, n, err) # rs) =
     (case tun_doRead buf n err of
        (es, Return u) \<Rightarrow> (es @ fst (tun_reads rs), snd (tun_reads rs))
      | (es, r) \<Rightarrow> (es, r))"

lemma tun_open_idempotent:
  assumes "tun_open fd ret t = (t', True)"
  shows "tun_stream t'" "tun_open fd ret t' = (t', True)"
  using assms by (auto simp: tun_open_def Let_def split: if_splits)

section \<open>The functions of the module\<close>

text \<open>
  The calls a user makes, one constructor for each function of \<open>nk\<close> that comes from another module, with its
  arguments before the callback and the messages that arrive later.
\<close>

datatype nk_call =
    OnNetworkChange jsval jsval "(jsval \<times> bytes list) list"
  | GetRoutes jsval
  | GetLinks jsval
  | GetAddresses jsval
  | Ipv4Neighbor jsval jsval jsval jsval
  | AddIPv6Neighbor jsval jsval jsval jsval bool
  | Neighbor jsval jsval jsval jsval
  | Route jsval jsval jsval jsval
  | Link jsval jsval "jsval option"
  | IpAddress jsval jsval jsval jsval jsval
  | IpAddrLabel jsval jsval jsval jsval jsval
  | OnProcessChange "(jsval \<times> bytes list) list"
  | Nnf string

text \<open>
  The functions are taken over as they are: what \<open>bind\<close> returns is dropped, so \<open>this\<close> is the object the
  function is called on, \<open>nk\<close>. \<open>ipv4Neighbor\<close> is \<open>neighbor\<close>.
\<close>

fun nk_run :: "netkit \<Rightarrow> nk_call \<Rightarrow> unit act" where
  "nk_run nk (OnNetworkChange ifname event_type recvs) = onNetworkChange nk ifname event_type recvs"
| "nk_run nk (GetRoutes filter_spec) = getRoutes nk filter_spec"
| "nk_run nk (GetLinks filter_spec) = getLinks nk filter_spec"
| "nk_run nk (GetAddresses filter_spec) = getAddresses nk filter_spec"
| "nk_run nk (Ipv4Neighbor operation ifname inetdest lladdr) = neighbor nk operation ifname inetdest lladdr"
| "nk_run nk (AddIPv6Neighbor ifname inet6dest lladdr sock replied) = addIPv6Neighbor nk replied ifname inet6dest lladdr sock"
| "nk_run nk (Neighbor operation ifname inetdest lladdr) = neighbor nk operation ifname inetdest lladdr"
| "nk_run nk (Route operation ifname inetdest inetsrc) = route nk operation ifname inetdest inetsrc"
| "nk_run nk (Link operation ifname attributes) = link nk operation ifname attributes"
| "nk_run nk (IpAddress operation family ifname addr label) = address nk operation family ifname addr label"
| "nk_run nk (IpAddrLabel operation family ifname prefix label) = addrlabel nk operation family ifname prefix label"
| "nk_run nk (OnProcessChange recvs) = onProcessChange nk recvs"
| "nk_run nk (Nnf command) = nfcommand nk command"

text \<open>
  \<open>errorFromErrno\<close>: the error of the addon with a property \<open>code\<close>, looked up in the addon's object \<open>ERR\<close>.
\<close>

definition errorFromErrno :: "(jsval \<Rightarrow> props) \<Rightarrow> jsval \<Rightarrow> jsval \<Rightarrow> props run" where
  "errorFromErrno native_errorFromErrno ERR errno =
     (let ret = native_errorFromErrno errno in
      run_bind (get_prop ERR (to_string (obj_get ret ''errno''))) (\<lambda>code. Return (obj_set ''code'' code ret)))"

definition newTapInterfaceRaw :: "(props \<Rightarrow> 'a) \<Rightarrow> 'a" where
  "newTapInterfaceRaw newTunInterface = newTunInterface [(''tap'', JBool True)]"

definition assignDebugLogger :: "'f printer \<Rightarrow> 'f log_call" where
  "assignDebugLogger func = Set_debug_logger func"

definition assignErrorLogger :: "'f printer \<Rightarrow> 'f log_call" where
  "assignErrorLogger func = Set_error_logger func"

text \<open>The addon does not export \<open>ERR\<close>: without it the call throws.\<close>

lemma errorFromErrno_throws: "errorFromErrno native Undef errno = Throw TypeError"
  by (simp add: errorFromErrno_def Let_def)

section \<open>The sockets of the calls\<close>

text \<open>
  The calls after which the socket stays open: those that wait for messages, and adding an IPv6 neighbour. The
  calls about addresses and labels use two sockets.
\<close>

fun keeps_socket :: "nk_call \<Rightarrow> bool" where
  "keeps_socket (OnNetworkChange ifname event_type recvs) = True"
| "keeps_socket (OnProcessChange recvs) = True"
| "keeps_socket (AddIPv6Neighbor ifname inet6dest lladdr sock replied) = True"
| "keeps_socket c = False"

fun single_socket :: "nk_call \<Rightarrow> bool" where
  "single_socket (IpAddress operation family ifname addr label) = False"
| "single_socket (IpAddrLabel operation family ifname prefix label) = False"
| "single_socket c = True"

text \<open>Watching the network, for a kind of event there is, on a socket that cannot be created.\<close>

fun watches_failed :: "netkit \<Rightarrow> nk_call \<Rightarrow> bool" where
  "watches_failed nk (OnNetworkChange ifname event_type recvs) =
     (case event_groups event_type of
        Some gs \<Rightarrow> truthy (nk_create nk [(''subscriptions'', Num (group_bits gs))])
      | None \<Rightarrow> False)"
| "watches_failed nk c = False"

text \<open>
  C5. Whatever is called on the module, with whatever arguments and answers of the socket and however it ends,
  except for the calls about addresses and labels: at most one socket is created, what is sent goes to a socket
  that was created without an error, only a created socket is closed, and after the close there are only
  callbacks; and a call that runs to its end leaves the socket open only if it watches the network or the
  processes or adds an IPv6 neighbour. The one exception is watching the network on a socket that cannot be
  created, which always breaks these rules.
\<close>

theorem netkit_sockets:
  assumes "single_socket c"
  shows "if watches_failed nk c then \<not> orderly nk (fst (nk_run nk c))
    else orderly nk (fst (nk_run nk c)) \<and>
      (snd (nk_run nk c) = Return () \<and> left_open nk (fst (nk_run nk c)) \<longrightarrow> keeps_socket c)"
proof (cases "watches_failed nk c")
  case True
  then show ?thesis using network_change_on_failed_socket by (cases c) (auto split: option.splits)
next
  case False
  have "safe nk (\<lambda>s. s = Opened \<longrightarrow> keeps_socket c) NoSock (nk_run nk c)"
  proof (cases c)
    case (OnNetworkChange ifname event_type recvs)
    then show ?thesis using False onNetworkChange_safe [of event_type nk ifname recvs] by (cases "event_groups event_type") auto
  qed (use assms onProcessChange_safe addIPv6Neighbor_order link_safe neighbor_safe route_safe nfcommand_safe inquiry_safe
      in \<open>simp_all add: getRoutes_def getAddresses_def getLinks_def Let_def\<close>)
  from safe_orderly [OF this] False show ?thesis by simp
qed

lemma netkit_sockets_witness:
  "orderly quiet_netkit (fst (nk_run quiet_netkit (Nnf ''list table filter''))) \<and>
    \<not> (snd (nk_run quiet_netkit (Nnf ''list table filter'')) = Return () \<and>
       left_open quiet_netkit (fst (nk_run quiet_netkit (Nnf ''list table filter''))))"
  using netkit_sockets [of "Nnf ''list table filter''" quiet_netkit] by simp

section \<open>Constants\<close>

definition nk_iff_flags :: "(string \<times> int) list" where
  "nk_iff_flags =
     [(''IFF_UP'', 0x1), (''IFF_BROADCAST'', 0x2), (''IFF_DEBUG'', 0x4), (''IFF_LOOPBACK'', 0x8), (''IFF_POINTOPOINT'', 0x10),
      (''IFF_NOTRAILERS'', 0x20), (''IFF_RUNNING'', 0x40), (''IFF_NOARP'', 0x80), (''IFF_PROMISC'', 0x100),
      (''IFF_ALLMULTI'', 0x200), (''IFF_MASTER'', 0x400), (''IFF_SLAVE'', 0x800), (''IFF_MULTICAST'', 0x1000),
      (''IFF_PORTSEL'', 0x2000), (''IFF_AUTOMEDIA'', 0x4000), (''IFF_DYNAMIC'', 0x8000), (''IFF_LOWER_UP'', 0x10000),
      (''IFF_DORMANT'', 0x20000), (''IFF_ECHO'', 0x40000)]"

definition nk_rt_flags :: "(string \<times> int) list" where
  "nk_rt_flags =
     [(''RT_UP'', 0x0001), (''RT_GATEWAY'', 0x0002), (''RT_HOST'', 0x0004), (''RT_REINSTATE'', 0x0008), (''RT_DYNAMIC'', 0x0010),
      (''RT_MODIFIED'', 0x0020), (''RT_MTU'', 0x0040), (''RT_MSS'', 0x0040), (''RT_WINDOW'', 0x0080), (''RT_IRTT'', 0x0100),
      (''RT_REJECT'', 0x0200), (''RT_DEFAULT'', 0x00010000), (''RT_ALLONLINK'', 0x00020000), (''RT_ADDRCONF'', 0x00040000),
      (''RT_NONEXTHOP'', 0x00200000), (''RT_EXPIRES'', 0x00400000), (''RT_CACHE'', 0x01000000), (''RT_FLOW'', 0x02000000),
      (''RT_POLICY'', 0x04000000), (''RT_LOCAL'', 0x80000000)]"

definition nk_sk :: "(string \<times> int) list" where
  "nk_sk =
     [(''SOCK_DGRAM'', 1), (''SOCK_STREAM'', 2), (''SOCK_RAW'', 3), (''SOCK_RDM'', 4), (''SOCK_SEQPACKET'', 5), (''SOCK_DCCP'', 6),
      (''SOCK_PACKET'', 10), (''SOCK_CLOEXEC'', 0x40000000), (''SOCK_NONBLOCK'', 0x40000000)]"

definition nk_families :: "(string \<times> int) list" where
  "nk_families = [(''AF_INET6'', 10), (''AF_INET'', 2), (''AF_NETLINK'', 16), (''AF_UNSPEC'', 0)]"

lemma iff_flags_table: "net_device_flags = map (\<lambda>(k, v). (v, k)) nk_iff_flags"
  by (simp add: net_device_flags_def nk_iff_flags_def)

end
