(* ===== verification/JsDouble.thy ===== *)
theory JsDouble
  imports Complex_Main "HOL-Library.Log_Nat" NodeBuffer
begin

text \<open>
  Numbers of JavaScript where they are not integers: doubles as exact rationals with the special values, and
  the operations with the rounding of IEEE 754 (to nearest, ties to even). Needed by the floating-point codec
  of \<open>libs/bufferpack.js\<close> only.
\<close>

section \<open>Powers of two\<close>

definition pow2 :: "int \<Rightarrow> rat" where
  "pow2 k = (if 0 \<le> k then 2 ^ nat k else 1 / 2 ^ nat (- k))"

lemma pow2_powi: "pow2 k = 2 powi k"
  by (auto simp: pow2_def power_int_def field_simps)

lemma pow2_pos [simp]: "0 < pow2 k" "0 \<le> pow2 k" "pow2 k \<noteq> 0" "\<not> pow2 k < 0" "\<not> pow2 k \<le> 0"
proof -
  show "0 < pow2 k" by (simp add: pow2_def)
  then show "0 \<le> pow2 k" "pow2 k \<noteq> 0" "\<not> pow2 k < 0" "\<not> pow2 k \<le> 0" by linarith+
qed

lemma pow2_add: "pow2 (a + b) = pow2 a * pow2 b"
  by (simp add: pow2_powi power_int_add)

lemma pow2_diff: "pow2 (a - b) = pow2 a / pow2 b"
  by (simp add: pow2_powi power_int_diff)

lemma pow2_minus: "pow2 (- a) = 1 / pow2 a"
  by (simp add: pow2_powi power_int_minus_divide)

lemma pow2_less_iff [simp]: "pow2 a < pow2 b \<longleftrightarrow> a < b"
proof -
  have *: "pow2 a < pow2 b" if "a < b" for a b
    using that power_int_strict_increasing [of a b "2 :: rat"] by (simp add: pow2_powi)
  show ?thesis using * [of a b] * [of b a] by (cases a b rule: linorder_cases) auto
qed

lemma pow2_le_iff [simp]: "pow2 a \<le> pow2 b \<longleftrightarrow> a \<le> b"
  by (simp add: linorder_not_less [symmetric])

lemma pow2_nat: "pow2 (int n) = of_int (2 ^ n)"
  by (simp add: pow2_def)

lemma pow2_nonneg: "0 \<le> k \<Longrightarrow> pow2 k = of_int (2 ^ nat k)"
  by (simp add: pow2_def)

definition floor_log2 :: "rat \<Rightarrow> int" where
  "floor_log2 x =
     (let (n, d) = quotient_of x; k = bitlen n - bitlen d in if pow2 k \<le> x then k else k - 1)"

lemma floor_log2_bounds:
  assumes "0 < x"
  shows "pow2 (floor_log2 x) \<le> x" "x < pow2 (floor_log2 x + 1)"
proof -
  obtain n d where q: "quotient_of x = (n, d)" by (cases "quotient_of x")
  have d: "0 < d" and x: "x = of_int n / of_int d"
    using quotient_of_denom_pos [OF q] quotient_of_div [OF q] by simp_all
  then have n: "0 < n" using assms by (simp add: zero_less_divide_iff)
  have b: "2 ^ nat (bitlen a - 1) \<le> a" "a < 2 ^ nat (bitlen a)" "1 \<le> bitlen a" if "0 < a" for a
    using bitlen_bounds [OF that] bitlen_ge_iff_power [of 1 a] that by simp_all
  have p: "pow2 (bitlen a - 1) \<le> of_int a" "of_int a < pow2 (bitlen a)" if "0 < a" for a
    using b [OF that] by (simp_all add: pow2_nonneg)
  let ?k = "bitlen n - bitlen d"
  have "pow2 (?k - 1) * of_int d \<le> pow2 (?k - 1) * pow2 (bitlen d)"
    by (rule mult_left_mono) (use p(2) [OF d] in simp_all)
  also have "\<dots> = pow2 (bitlen n - 1)" by (simp add: pow2_add [symmetric])
  also have "\<dots> \<le> of_int n" by (rule p(1) [OF n])
  finally have lower: "pow2 (?k - 1) \<le> x" using d by (simp add: x field_simps)
  have "of_int n < pow2 (bitlen n)" by (rule p(2) [OF n])
  also have "\<dots> = pow2 (?k + 1) * pow2 (bitlen d - 1)" by (simp add: pow2_add [symmetric])
  also have "\<dots> \<le> pow2 (?k + 1) * of_int d" by (rule mult_left_mono) (use p(1) [OF d] in simp_all)
  finally have upper: "x < pow2 (?k + 1)" using d by (simp add: x field_simps)
  show "pow2 (floor_log2 x) \<le> x" "x < pow2 (floor_log2 x + 1)"
    using lower upper by (auto simp: floor_log2_def q Let_def)
qed

lemma floor_log2_unique:
  assumes "pow2 k \<le> x" "x < pow2 (k + 1)"
  shows "floor_log2 x = k"
proof -
  have "0 < x" using assms(1) pow2_pos(1) [of k] by linarith
  note b = floor_log2_bounds [OF this]
  have "pow2 k < pow2 (floor_log2 x + 1)" "pow2 (floor_log2 x) < pow2 (k + 1)" using assms b by linarith+
  then show ?thesis by simp
qed

section \<open>Doubles\<close>

text \<open>\<open>Infinity True\<close> is the negative one; \<open>Fin 0\<close> is the positive zero.\<close>

datatype js_double = NaN | Infinity bool | NegZero | Fin rat

definition round_even :: "rat \<Rightarrow> int" where
  "round_even x = (let f = \<lfloor>x\<rfloor>; r = x - of_int f in if r < 1 / 2 \<or> r = 1 / 2 \<and> even f then f else f + 1)"

definition round_double :: "rat \<Rightarrow> js_double" where
  "round_double x =
     (if x = 0 then Fin 0
      else
        let ulp = pow2 (max (floor_log2 \<bar>x\<bar>) (-1022) - 52); y = of_int (round_even (\<bar>x\<bar> / ulp)) * ulp in
        if y = 0 then (if x < 0 then NegZero else Fin 0)
        else if pow2 1024 \<le> y then Infinity (x < 0)
        else Fin (if x < 0 then - y else y))"

definition d_neg :: "js_double \<Rightarrow> bool" where
  "d_neg a = (case a of NaN \<Rightarrow> False | Infinity s \<Rightarrow> s | NegZero \<Rightarrow> True | Fin x \<Rightarrow> x < 0)"

text \<open>A zero with a sign, and the result of a multiplication or division that is not zero by itself.\<close>

definition signed_zero :: "bool \<Rightarrow> js_double" where
  "signed_zero s = (if s then NegZero else Fin 0)"

definition d_val :: "js_double \<Rightarrow> rat" where
  "d_val a = (case a of Fin x \<Rightarrow> x | _ \<Rightarrow> 0)"

definition d_abs :: "js_double \<Rightarrow> js_double" where
  "d_abs a = (case a of NaN \<Rightarrow> NaN | Infinity s \<Rightarrow> Infinity False | NegZero \<Rightarrow> Fin 0 | Fin x \<Rightarrow> Fin \<bar>x\<bar>)"

definition is_inf :: "js_double \<Rightarrow> bool" where
  "is_inf a = (case a of Infinity s \<Rightarrow> True | _ \<Rightarrow> False)"

definition d_mul :: "js_double \<Rightarrow> js_double \<Rightarrow> js_double" where
  "d_mul a b =
     (if a = NaN \<or> b = NaN then NaN
      else if is_inf a \<or> is_inf b then
        (if a \<in> {NegZero, Fin 0} \<or> b \<in> {NegZero, Fin 0} then NaN else Infinity (d_neg a \<noteq> d_neg b))
      else if d_val a * d_val b = 0 then signed_zero (d_neg a \<noteq> d_neg b)
      else round_double (d_val a * d_val b))"

definition d_div :: "js_double \<Rightarrow> js_double \<Rightarrow> js_double" where
  "d_div a b =
     (if a = NaN \<or> b = NaN \<or> is_inf a \<and> is_inf b then NaN
      else if is_inf a then Infinity (d_neg a \<noteq> d_neg b)
      else if is_inf b then signed_zero (d_neg a \<noteq> d_neg b)
      else if d_val b = 0 then (if d_val a = 0 then NaN else Infinity (d_neg a \<noteq> d_neg b))
      else if d_val a = 0 then signed_zero (d_neg a \<noteq> d_neg b)
      else round_double (d_val a / d_val b))"

definition d_add :: "js_double \<Rightarrow> js_double \<Rightarrow> js_double" where
  "d_add a b =
     (if a = NaN \<or> b = NaN then NaN
      else if is_inf a \<and> is_inf b then (if a = b then a else NaN)
      else if is_inf a then a else if is_inf b then b
      else if a = NegZero \<and> b = NegZero then NegZero
      else round_double (d_val a + d_val b))"

definition d_less :: "js_double \<Rightarrow> js_double \<Rightarrow> bool" where
  "d_less a b =
     (if a = NaN \<or> b = NaN then False
      else if is_inf a \<or> is_inf b then a \<noteq> b \<and> (a = Infinity True \<or> b = Infinity False)
      else d_val a < d_val b)"

definition d_geq :: "js_double \<Rightarrow> js_double \<Rightarrow> bool" where
  "d_geq a b \<longleftrightarrow> a \<noteq> NaN \<and> b \<noteq> NaN \<and> \<not> d_less a b"

text \<open>\<open>Math.pow(2, k)\<close> for an integer \<open>k\<close>.\<close>

definition d_pow2 :: "int \<Rightarrow> js_double" where
  "d_pow2 k = round_double (pow2 k)"

text \<open>\<open>x & 0xff\<close> as a byte: \<open>ToInt32\<close> cuts the fraction off and takes the value modulo \<open>2 ^ 32\<close>.\<close>

definition d_int :: "js_double \<Rightarrow> int" where
  "d_int a = (case a of Fin x \<Rightarrow> (if x < 0 then - \<lfloor>- x\<rfloor> else \<lfloor>x\<rfloor>) | _ \<Rightarrow> 0)"

definition d_byte :: "js_double \<Rightarrow> byte" where
  "d_byte a = word_of_int (d_int a)"

section \<open>When operations are exact\<close>

definition dbl :: "rat \<Rightarrow> bool" where
  "dbl x \<longleftrightarrow> (\<exists>k j. x = of_int k * pow2 j \<and> \<bar>k\<bar> < 2 ^ 53 \<and> -1074 \<le> j \<and> j \<le> 971)"

lemma dblI: "x = of_int k * pow2 j \<Longrightarrow> \<bar>k\<bar> < 2 ^ 53 \<Longrightarrow> -1074 \<le> j \<Longrightarrow> j \<le> 971 \<Longrightarrow> dbl x"
  unfolding dbl_def by blast

lemma round_even_near:
  assumes "\<bar>x - of_int n\<bar> < 1 / 2"
  shows "round_even x = n"
proof (cases "of_int n \<le> x")
  case True
  then have "\<lfloor>x\<rfloor> = n" using assms by (intro floor_unique) linarith+
  then show ?thesis using assms True by (simp add: round_even_def Let_def)
next
  case False
  have "of_int (n - 1) \<le> x" "x < of_int (n - 1) + 1" using assms False by (simp_all add: abs_if split: if_splits)
  then have "\<lfloor>x\<rfloor> = n - 1" by (rule floor_unique)
  then show ?thesis using assms False by (simp add: round_even_def Let_def)
qed

lemma round_double_near:
  assumes "0 < y" "floor_log2 y \<le> E" "-1022 \<le> E" "floor_log2 y = E \<or> E = -1022"
    "\<bar>y - X\<bar> < pow2 (E - 53)" "X = of_int n * pow2 (E - 52)" "X < pow2 1024" "0 < n"
  shows "round_double y = Fin X"
proof -
  have m: "max (floor_log2 \<bar>y\<bar>) (-1022) = E" using assms(1-4) by auto
  have "y / pow2 (E - 52) - of_int n = (y - X) / pow2 (E - 52)"
    by (simp add: assms(6) diff_divide_distrib)
  then have "\<bar>y / pow2 (E - 52) - of_int n\<bar> = \<bar>y - X\<bar> / pow2 (E - 52)" by (simp add: abs_divide)
  also have "\<dots> < pow2 (E - 53) / pow2 (E - 52)" using assms(5) by (simp add: divide_strict_right_mono)
  also have "\<dots> = pow2 (- 1)" by (simp only: pow2_diff [symmetric]) simp
  also have "\<dots> = 1 / 2" by (simp add: pow2_def)
  finally have "round_even (y / pow2 (E - 52)) = n" by (rule round_even_near)
  moreover have "0 < X" using assms(6,8) by simp
  moreover have "\<bar>y\<bar> = y" "y \<noteq> 0" "\<not> y < 0" using assms(1) by simp_all
  ultimately show ?thesis using assms(7) m by (simp only: round_double_def Let_def assms(6)) auto
qed

lemma round_double_exact:
  assumes "dbl x" "0 < x"
  shows "round_double x = Fin x"
proof -
  obtain k j where x: "x = of_int k * pow2 j" and k: "\<bar>k\<bar> < 2 ^ 53" and j: "-1074 \<le> j" "j \<le> 971"
    using assms(1) by (auto simp: dbl_def)
  have k0: "0 < k" using assms(2) by (simp add: x zero_less_mult_iff del: pow2_le_iff)
  let ?E = "max (floor_log2 x) (-1022)"
  note b = floor_log2_bounds [OF assms(2)]
  have "of_int k < (2 :: rat) ^ 53" using k k0 by (metis abs_of_pos of_int_less_iff of_int_numeral of_int_power)
  also have "\<dots> = pow2 53" by (simp add: pow2_def)
  finally have k53: "of_int k < pow2 53" .
  have xlt: "x < pow2 (53 + j)" using k53 by (simp add: x pow2_add)
  have "?E - 52 \<le> j"
  proof (cases "floor_log2 x \<le> -1022")
    case False
    have "pow2 (floor_log2 x) < pow2 (53 + j)" using b(1) xlt by linarith
    then show ?thesis using False by simp
  qed (use j in simp)
  then have "pow2 j = of_int (2 ^ nat (j - (?E - 52))) * pow2 (?E - 52)"
    by (simp only: pow2_nonneg [symmetric] pow2_add [symmetric]) simp
  then have "x = of_int (k * 2 ^ nat (j - (?E - 52))) * pow2 (?E - 52)"
    by (simp add: x)
  moreover have "0 < k * 2 ^ nat (j - (?E - 52))" using k0 by simp
  moreover have "x < pow2 1024" by (rule less_le_trans [OF xlt]) (use j in simp)
  ultimately show ?thesis
    by (intro round_double_near [where E = ?E]) (use assms(2) in auto)
qed

lemma round_double_minus: "round_double x = Fin z \<Longrightarrow> x \<noteq> 0 \<Longrightarrow> z \<noteq> 0 \<Longrightarrow> round_double (- x) = Fin (- z)"
  by (auto simp: round_double_def Let_def split: if_splits)

lemma round_double_exact_neg: "dbl x \<Longrightarrow> 0 < x \<Longrightarrow> round_double (- x) = Fin (- x)"
  by (rule round_double_minus) (simp_all add: round_double_exact)

lemma dbl_pow2: "-1074 \<le> k \<Longrightarrow> k \<le> 1023 \<Longrightarrow> dbl (pow2 k)"
proof -
  assume k: "-1074 \<le> k" "k \<le> 1023"
  have "pow2 k = of_int (2 ^ 52) * pow2 (k - 52)" by (simp add: pow2_diff) (simp add: pow2_def)
  from dblI [OF this] have "-1022 \<le> k \<Longrightarrow> dbl (pow2 k)" using k by simp
  moreover have "k \<le> 971 \<Longrightarrow> dbl (pow2 k)" using k by (intro dblI [of _ 1 k]) simp_all
  ultimately show ?thesis by linarith
qed

lemma d_ops_exact:
  "dbl (x * y) \<Longrightarrow> 0 \<le> x \<Longrightarrow> 0 < y \<Longrightarrow> d_mul (Fin x) (Fin y) = Fin (x * y)"
  "dbl (x / y) \<Longrightarrow> 0 \<le> x \<Longrightarrow> 0 < y \<Longrightarrow> d_div (Fin x) (Fin y) = Fin (x / y)"
  "dbl (x + y) \<Longrightarrow> 0 \<le> x + y \<Longrightarrow> d_add (Fin x) (Fin y) = Fin (x + y)"
  "d_less (Fin x) (Fin y) \<longleftrightarrow> x < y" "d_geq (Fin x) (Fin y) \<longleftrightarrow> y \<le> x"
proof -
  show "d_mul (Fin x) (Fin y) = Fin (x * y)" if "dbl (x * y)" "0 \<le> x" "0 < y"
    using that by (cases "x = 0") (auto simp: d_mul_def is_inf_def d_val_def round_double_exact signed_zero_def d_neg_def)
  show "d_div (Fin x) (Fin y) = Fin (x / y)" if "dbl (x / y)" "0 \<le> x" "0 < y"
    using that by (cases "x = 0") (auto simp: d_div_def is_inf_def d_val_def round_double_exact signed_zero_def d_neg_def)
  show "d_add (Fin x) (Fin y) = Fin (x + y)" if "dbl (x + y)" "0 \<le> x + y"
  proof -
    have "round_double 0 = Fin 0" by (simp add: round_double_def)
    then show ?thesis using that round_double_exact [of "x + y"] by (cases "x + y = 0") (auto simp: d_add_def is_inf_def d_val_def)
  qed
  show "d_less (Fin x) (Fin y) \<longleftrightarrow> x < y" "d_geq (Fin x) (Fin y) \<longleftrightarrow> y \<le> x"
    by (auto simp: d_less_def d_geq_def is_inf_def d_val_def)
qed

lemma d_pow2_exact: "-1074 \<le> k \<Longrightarrow> k \<le> 1023 \<Longrightarrow> d_pow2 k = Fin (pow2 k)"
  by (simp add: d_pow2_def round_double_exact dbl_pow2)

text \<open>
  Half a unit in the last place, less a bit, is added to a number that has room for it: the result is rounded
  up to the exact half.
\<close>

lemma round_double_add_half:
  assumes x: "x = of_int n * pow2 q" "0 < n" and F: "floor_log2 x = F" "-1022 \<le> F" "F \<le> 1022"
    and j: "0 < j" "F - q + int j \<le> 52"
  shows "round_double (x + (pow2 (q - int j) - pow2 (q - int j - 53))) = Fin (of_int (n * 2 ^ j + 1) * pow2 (q - int j))"
proof -
  let ?s = "q - int j" and ?X = "of_int (n * 2 ^ j + 1) * pow2 (q - int j)"
  let ?y = "x + (pow2 ?s - pow2 (?s - 53))"
  have x0: "0 < x" using x by simp
  note b = floor_log2_bounds [OF x0, unfolded F(1)]
  have "1 \<le> (of_int n :: rat)" using x(2) by simp
  then have "pow2 q \<le> x" unfolding x(1) using mult_right_mono [of 1 "of_int n" "pow2 q"] by simp
  then have "pow2 q < pow2 (F + 1)" using b(2) by linarith
  then have q: "q \<le> F" by simp
  have "pow2 (F + 1) = of_int (2 ^ nat (F + 1 - q)) * pow2 q"
    using q by (simp only: pow2_nonneg [symmetric] pow2_add [symmetric]) simp
  then have "of_int n * pow2 q < of_int (2 ^ nat (F + 1 - q)) * pow2 q" using b(2) x(1) by simp
  then have "n + 1 \<le> 2 ^ nat (F + 1 - q)" by (simp del: of_int_power)
  then have "of_int (n + 1) * pow2 q \<le> of_int (2 ^ nat (F + 1 - q)) * pow2 q" by (intro mult_right_mono) (simp_all only: of_int_le_iff pow2_pos)
  then have xq: "x + pow2 q \<le> pow2 (F + 1)" using \<open>pow2 (F + 1) = _\<close> by (simp add: x(1) algebra_simps)
  have sq: "pow2 ?s < pow2 q" "pow2 (?s - 53) < pow2 ?s" using j(1) by simp_all
  have y: "pow2 F \<le> ?y" "?y < pow2 (F + 1)" using b(1) xq sq pow2_pos(1) [of "?s - 53"] by linarith+
  have Xx: "?X = x + pow2 ?s"
  proof -
    have "pow2 q = of_int (2 ^ j) * pow2 ?s" by (simp only: pow2_nat [symmetric] pow2_add [symmetric]) simp
    then show ?thesis by (simp add: x(1) algebra_simps)
  qed
  show ?thesis
  proof (rule round_double_near)
    show "0 < ?y" using y(1) pow2_pos(1) [of F] by linarith
    show "floor_log2 ?y \<le> F" "floor_log2 ?y = F \<or> F = -1022" using floor_log2_unique [OF y] by simp_all
    have "\<bar>?y - ?X\<bar> = pow2 (?s - 53)" unfolding Xx by simp
    also have "\<dots> < pow2 (F - 53)" using q j(1) by simp
    finally show "\<bar>?y - ?X\<bar> < pow2 (F - 53)" .
    have "pow2 ?s = of_int (2 ^ nat (?s - (F - 52))) * pow2 (F - 52)"
      using j(2) by (simp only: pow2_nonneg [symmetric] pow2_add [symmetric]) simp
    then show "?X = of_int ((n * 2 ^ j + 1) * 2 ^ nat (?s - (F - 52))) * pow2 (F - 52)" by simp
    have "?X < pow2 (F + 1)" using xq sq Xx by linarith
    also have "\<dots> \<le> pow2 1024" using F(3) by simp
    finally show "?X < pow2 1024" .
    show "0 < (n * 2 ^ j + 1) * 2 ^ nat (?s - (F - 52))" using x(2) by (simp add: add_pos_pos)
  qed (use F in simp_all)
qed

lemma d_pow2_overflow:
  assumes "1024 \<le> k"
  shows "d_pow2 k = Infinity False"
proof -
  have "floor_log2 (pow2 k) = k" by (rule floor_log2_unique) simp_all
  moreover have "round_even (pow2 52) = 2 ^ 52"
    by (rule round_even_near) (simp add: pow2_def)
  moreover have "(4503599627370496 :: rat) * pow2 (k - 52) = pow2 k"
    by (simp add: pow2_diff) (simp add: pow2_def)
  ultimately show ?thesis using assms
    by (simp add: d_pow2_def round_double_def Let_def max_def pow2_diff [symmetric])
qed

end
