(* ===== verification/Ieee754.thy ===== *)
theory Ieee754
  imports JsDouble BufferPack
begin

text \<open>
  The floating-point element functions \<open>_De754\<close> and \<open>_En754\<close> of \<open>libs/bufferpack.js\<close>, the bits they read
  and write, and the value of IEEE 754 they stand for. The logarithm is a parameter of the encoder, because
  JavaScript only says that it is an approximation.
\<close>

section \<open>Elements\<close>

text \<open>The rows \<open>f\<close> and \<open>d\<close> of \<open>_elLut\<close>.\<close>

record float_el =
  fl_len :: nat
  fl_mLen :: nat
  fl_rt :: rat

definition float_f :: float_el where
  "float_f = \<lparr>fl_len = 4, fl_mLen = 23, fl_rt = pow2 (- 24) - pow2 (- 77)\<rparr>"

definition float_d :: float_el where
  "float_d = \<lparr>fl_len = 8, fl_mLen = 52, fl_rt = 0\<rparr>"

definition fl_eLen :: "float_el \<Rightarrow> nat" where
  "fl_eLen el = fl_len el * 8 - fl_mLen el - 1"

definition fl_eMax :: "float_el \<Rightarrow> int" where
  "fl_eMax el = 2 ^ fl_eLen el - 1"

definition fl_eBias :: "float_el \<Rightarrow> int" where
  "fl_eBias el = fl_eMax el div 2"

section \<open>_De754\<close>

text \<open>
  The loops that collect bits: as long as bits are missing, the next byte is shifted in. The list holds the
  bytes in the order the code visits them, the most significant first.
\<close>

fun de_bits :: "int \<Rightarrow> int \<Rightarrow> bytes \<Rightarrow> int \<times> int \<times> bytes" where
  "de_bits acc nBits [] = (acc, nBits, [])"
| "de_bits acc nBits (b # bs) = (if 0 < nBits then de_bits (acc * 256 + uint b) (nBits - 8) bs else (acc, nBits, b # bs))"

text \<open>The \<open>switch\<close> on the exponent, and the value it leads to.\<close>

definition de_fields :: "float_el \<Rightarrow> bool \<Rightarrow> int \<Rightarrow> int \<Rightarrow> js_double" where
  "de_fields el s e m =
     (let value = (\<lambda>m e. d_mul (d_mul (Fin (if s then -1 else 1)) m) (d_pow2 (e - int (fl_mLen el))))
      in if e = 0 then value (Fin (of_int m)) (1 - fl_eBias el)
         else if e = fl_eMax el then (if m \<noteq> 0 then NaN else d_mul (Fin (if s then -1 else 1)) (Infinity False))
         else value (d_add (Fin (of_int m)) (d_pow2 (int (fl_mLen el)))) (e - fl_eBias el))"

fun de_bytes :: "float_el \<Rightarrow> bytes \<Rightarrow> js_double" where
  "de_bytes el [] = NaN"
| "de_bytes el (s0 # bs1) =
     (let (e1, n1, bs2) = de_bits (take_bit 7 (uint s0)) (- 7 + int (fl_eLen el)) bs1;
          (m, n2, bs3) = de_bits (take_bit (nat (- n1)) e1) (n1 + int (fl_mLen el)) bs2
      in de_fields el (drop_bit 7 (uint s0) \<noteq> 0) (drop_bit (nat (- n1)) e1) m)"

text \<open>The element lies inside the array, as \<open>unpack\<close> checks; it is read from its most significant byte on.\<close>

definition De754 :: "bool \<Rightarrow> float_el \<Rightarrow> bytes \<Rightarrow> nat \<Rightarrow> js_double" where
  "De754 be el a p = (let bs = take (fl_len el) (drop p a) in de_bytes el (if be then bs else rev bs))"

section \<open>_En754\<close>

text \<open>
  The fields of a number that is not negative. \<open>log2_of\<close> is \<open>Math.floor(Math.log(v) / Math.LN2)\<close> for a
  positive number; for zero this is \<open>-Infinity\<close>, the exponent \<open>None\<close>.
\<close>

definition at_least :: "int option \<Rightarrow> int \<Rightarrow> bool" where
  "at_least e n = (case e of None \<Rightarrow> False | Some k \<Rightarrow> n \<le> k)"

text \<open>
  The steps of the function: the correction of the logarithm, what is added to round, the correction of the
  exponent after rounding, and the fields.
\<close>

definition en_log_correction :: "js_double \<Rightarrow> int option \<Rightarrow> js_double \<Rightarrow> int option \<times> js_double" where
  "en_log_correction v e c = (if d_less (d_mul v c) (Fin 1) then (map_option (\<lambda>e. e - 1) e, d_mul c (Fin 2)) else (e, c))"

definition en_rounding_term :: "float_el \<Rightarrow> int option \<Rightarrow> js_double \<Rightarrow> js_double" where
  "en_rounding_term el e c =
     (if at_least e (1 - fl_eBias el) then d_div (Fin (fl_rt el)) c
      else d_mul (Fin (fl_rt el)) (d_pow2 (1 - fl_eBias el)))"

definition en_carry :: "js_double \<Rightarrow> int option \<Rightarrow> js_double \<Rightarrow> int option \<times> js_double" where
  "en_carry v e c = (if d_geq (d_mul v c) (Fin 2) then (map_option (\<lambda>e. e + 1) e, d_div c (Fin 2)) else (e, c))"

definition en_split :: "float_el \<Rightarrow> js_double \<Rightarrow> int option \<Rightarrow> js_double \<Rightarrow> js_double \<times> int" where
  "en_split el v e c =
     (if at_least e (fl_eMax el - fl_eBias el) then (Fin 0, fl_eMax el)
      else if at_least e (1 - fl_eBias el) then
        (d_mul (d_add (d_mul v c) (Fin (- 1))) (d_pow2 (int (fl_mLen el))), the e + fl_eBias el)
      else (d_mul (d_mul v (d_pow2 (fl_eBias el - 1))) (d_pow2 (int (fl_mLen el))), 0))"

definition en_fields :: "float_el \<Rightarrow> (rat \<Rightarrow> int) \<Rightarrow> js_double \<Rightarrow> js_double \<times> int" where
  "en_fields el log2_of v0 =
     (if v0 = NaN \<or> v0 = Infinity False then (Fin (if v0 = NaN then 1 else 0), fl_eMax el)
      else
        let e0 = (if d_val v0 = 0 then None else Some (log2_of (d_val v0)));
            c0 = (case e0 of None \<Rightarrow> Infinity False | Some e \<Rightarrow> d_pow2 (- e));
            (e1, c1) = en_log_correction v0 e0 c0;
            v = d_add v0 (en_rounding_term el e1 c1);
            (e2, c2) = en_carry v e1 c1
        in en_split el v e2 c2)"

lemmas en_step_defs = en_log_correction_def en_rounding_term_def en_carry_def en_split_def

text \<open>The loops that write, least significant byte first: the significand, then the exponent with what is left of it.\<close>

function mant_loop :: "nat \<Rightarrow> js_double \<Rightarrow> bytes \<times> js_double \<times> nat" where
  "mant_loop mLen m =
     (if 8 \<le> mLen then
        (let (bs, m', r) = mant_loop (mLen - 8) (d_div m (Fin 256)) in (d_byte m # bs, m', r))
      else ([], m, mLen))"
  by pat_completeness auto
termination by (relation "measure fst") auto

function exp_loop :: "nat \<Rightarrow> js_double \<Rightarrow> bytes" where
  "exp_loop eLen e = (if 0 < eLen then d_byte e # exp_loop (eLen - 8) (d_div e (Fin 256)) else [])"
  by pat_completeness auto
termination by (relation "measure fst") auto

declare mant_loop.simps [simp del] exp_loop.simps [simp del]

definition En754 :: "bool \<Rightarrow> float_el \<Rightarrow> (rat \<Rightarrow> int) \<Rightarrow> js_double \<Rightarrow> bytes" where
  "En754 be el log2_of v =
     (let s = (if d_less v (Fin 0) then 1 else 0);
          (m, e) = en_fields el log2_of (d_abs v);
          (bs, m', r) = mant_loop (fl_mLen el) m;
          all = bs @ exp_loop (fl_eLen el + r) (Fin (of_int (js_or (e * 2 ^ r) (d_int m'))));
          out = butlast all @ [last all OR word_of_int (s * 128)]
      in if be then rev out else out)"

section \<open>The numbers of IEEE 754\<close>

text \<open>The number with sign \<open>s\<close>, biased exponent \<open>e\<close> and fraction \<open>k\<close>, and the fields of a word.\<close>

definition ieee_value :: "float_el \<Rightarrow> bool \<Rightarrow> int \<Rightarrow> int \<Rightarrow> js_double" where
  "ieee_value el s e k =
     (if e = fl_eMax el then (if k = 0 then Infinity s else NaN)
      else if e = 0 \<and> k = 0 then signed_zero s
      else
        let x = (if e = 0 then of_int k / 2 ^ fl_mLen el * pow2 (1 - fl_eBias el)
                 else (1 + of_int k / 2 ^ fl_mLen el) * pow2 (e - fl_eBias el))
        in Fin (if s then - x else x))"

definition ieee_word :: "float_el \<Rightarrow> int \<Rightarrow> js_double" where
  "ieee_word el w =
     ieee_value el (2 ^ (8 * fl_len el - 1) \<le> w) (w div 2 ^ fl_mLen el mod 2 ^ fl_eLen el) (w mod 2 ^ fl_mLen el)"

text \<open>The two formats: single and double precision.\<close>

definition float_els :: "float_el set" where
  "float_els = {float_f, float_d}"

lemma float_el_simps [simp]:
  "fl_len float_f = 4" "fl_mLen float_f = 23" "fl_rt float_f = pow2 (- 24) - pow2 (- 77)" "fl_eLen float_f = 8"
  "fl_eMax float_f = 255" "fl_eBias float_f = 127"
  "fl_len float_d = 8" "fl_mLen float_d = 52" "fl_rt float_d = 0" "fl_eLen float_d = 11"
  "fl_eMax float_d = 2047" "fl_eBias float_d = 1023"
  by (simp_all add: float_f_def float_d_def fl_eLen_def fl_eMax_def fl_eBias_def)

lemma float_f_d [simp]: "float_f \<noteq> float_d" "float_d \<noteq> float_f"
  by (simp_all add: float_f_def float_d_def)

section \<open>Decoding\<close>

lemma d_mul_one: "d_mul (Fin 1) (Fin x) = round_double x" "d_mul (Fin (- 1)) (Fin x) = (if x = 0 then NegZero else round_double (- x))"
  by (auto simp: d_mul_def is_inf_def d_val_def signed_zero_def d_neg_def round_double_def)

text \<open>The last expression of \<open>_De754\<close> is exact.\<close>

lemma de_value:
  assumes "0 \<le> m" "m < 2 ^ 53" "-1074 \<le> j" "j \<le> 971"
  shows "d_mul (d_mul (Fin (if s then -1 else 1)) (Fin (of_int m))) (d_pow2 j) =
    (if m = 0 then signed_zero s else Fin (if s then - (of_int m * pow2 j) else of_int m * pow2 j))"
proof -
  have p: "d_pow2 j = Fin (pow2 j)" using assms by (simp add: d_pow2_exact)
  have "dbl (of_int m)" by (rule dblI [of _ m 0]) (use assms in \<open>simp_all add: pow2_def\<close>)
  moreover have "dbl (of_int m * pow2 j)" by (rule dblI [of _ m j]) (use assms in simp_all)
  ultimately have "0 < m \<Longrightarrow> ?thesis" using assms(1)
    by (simp add: p d_mul_one round_double_exact round_double_exact_neg)
       (simp add: d_mul_def is_inf_def d_val_def round_double_exact round_double_exact_neg)
  moreover have "m = 0 \<Longrightarrow> ?thesis"
    by (simp add: p d_mul_one round_double_def) (simp add: d_mul_def is_inf_def d_val_def signed_zero_def d_neg_def)
  ultimately show ?thesis using assms(1) by linarith
qed

text \<open>The fields of a word, from its two highest bytes \<open>x\<close> and the rest \<open>y\<close> of \<open>q\<close> bits.\<close>

lemma word_fields:
  fixes x y :: int
  assumes "0 \<le> y" "y < 2 ^ q"
  shows "(x * 2 ^ q + y) div 2 ^ (q + r) = x div 2 ^ r" "(x * 2 ^ q + y) mod 2 ^ (q + r) = x mod 2 ^ r * 2 ^ q + y"
proof -
  have m: "y mod 2 ^ q = y" using assms by (rule mod_pos_pos_trivial)
  have "y div 2 ^ q = 0" using assms by (rule div_pos_pos_trivial)
  moreover have "(x * 2 ^ q + y) div 2 ^ q = x + y div 2 ^ q" by (rule div_mult_self3) simp
  ultimately have d: "(x * 2 ^ q + y) div 2 ^ q = x" by linarith
  have "(x * 2 ^ q + y) mod 2 ^ q = y mod 2 ^ q" by (rule mod_mult_self3)
  note d = d this [unfolded m]
  show "(x * 2 ^ q + y) div 2 ^ (q + r) = x div 2 ^ r" 
    by (subst power_add, subst zdiv_zmult2_eq) (simp, simp only: d)
  show "(x * 2 ^ q + y) mod 2 ^ (q + r) = x mod 2 ^ r * 2 ^ q + y" 
    by (subst power_add, subst zmod_zmult2_eq) (simp, simp only: d mult.commute [of "2 ^ q"])
qed

text \<open>What is left of the two highest bytes when the sign is taken off.\<close>

lemma high_bytes:
  fixes b0 b1 :: byte
  defines "x \<equiv> uint b0 * 256 + uint b1"
  shows "take_bit 7 (uint b0) * 256 + uint b1 = x mod 2 ^ 15" "drop_bit 7 (uint b0) \<noteq> 0 \<longleftrightarrow> 2 ^ 15 \<le> x"
proof -
  have b: "0 \<le> uint b1" "uint b1 < 256" using uint_lt2p [of b1] by simp_all
  have "x mod (256 * 128) = 256 * (x div 256 mod 128) + x mod 256" by (rule zmod_zmult2_eq) simp
  moreover have "x div 256 = uint b0" "x mod 256 = uint b1" using b by (simp_all add: x_def)
  ultimately show "take_bit 7 (uint b0) * 256 + uint b1 = x mod 2 ^ 15" by (simp add: take_bit_eq_mod)
  have "drop_bit 7 (uint b0) = 0 \<longleftrightarrow> uint b0 < 128" by (auto simp: drop_bit_eq_div zdiv_eq_0_iff)
  moreover have "uint b0 < 128 \<longleftrightarrow> x < 2 ^ 15" 
  proof -
    have p: "(2 :: int) ^ 15 = 32768" by simp
    show ?thesis unfolding x_def p using b by (intro iffI) linarith+
  qed
  ultimately show "drop_bit 7 (uint b0) \<noteq> 0 \<longleftrightarrow> 2 ^ 15 \<le> x" by linarith
qed

lemma uint_byte: "0 \<le> uint (b :: byte)" "uint (b :: byte) < 256"
  using uint_lt2p [of b] by simp_all

lemma de_fields_value:
  assumes "el \<in> float_els" "0 \<le> e" "e \<le> fl_eMax el" "0 \<le> m" "m < 2 ^ fl_mLen el"
  shows "de_fields el s e m = ieee_value el s e m"
proof -
  have inf: "d_mul (Fin (if s then -1 else 1)) (Infinity False) = Infinity s" by (auto simp: d_mul_def is_inf_def d_neg_def)
  define M where "M = fl_mLen el"
  have M: "(M = 23 \<and> el = float_f) \<or> (M = 52 \<and> el = float_d)" using assms(1) by (auto simp: float_els_def M_def)
  then have M52: "(2 :: int) ^ M \<le> 2 ^ 52" by auto
  have sum: "d_add (Fin (of_int m)) (d_pow2 (int M)) = Fin (of_int (m + 2 ^ M))"
  proof -
    have "d_pow2 (int M) = Fin (pow2 (int M))" using M by (intro d_pow2_exact) auto
    moreover have "dbl (of_int m + pow2 (int M))"
      by (rule dblI [of _ "m + 2 ^ M" 0]) (use assms(4,5) M52 in \<open>simp_all add: pow2_nat M_def [symmetric], simp add: pow2_def\<close>)
    moreover have "0 < (of_int m :: rat) + pow2 (int M)" using assms(4) by (simp add: add_nonneg_pos)
    ultimately show ?thesis by (simp add: d_ops_exact pow2_nat)
  qed
  have b: "m < 2 ^ 53" "m + 2 ^ M < 2 ^ 53" using assms(5) M52 by (simp_all add: M_def [symmetric])
  consider "e = fl_eMax el" | "e = 0" | "0 < e" "e < fl_eMax el" using assms(2,3) by linarith
  then show ?thesis
  proof cases
    case 1
    then show ?thesis using assms(1) by (auto simp: de_fields_def Let_def inf ieee_value_def float_els_def)
  next
    case 2
    have "-1074 \<le> 1 - fl_eBias el - int M" "1 - fl_eBias el - int M \<le> 971" using M by auto
    from de_value [OF assms(4) b(1) this, of s] show ?thesis using 2 M
      by (auto simp: de_fields_def Let_def ieee_value_def M_def [symmetric] pow2_diff pow2_nat)
  next
    case 3
    have "-1074 \<le> e - fl_eBias el - int M" "e - fl_eBias el - int M \<le> 971" using M 3 by auto
    moreover have "0 \<le> m + 2 ^ M" using assms(4) by simp
    ultimately have "d_mul (d_mul (Fin (if s then -1 else 1)) (Fin (of_int (m + 2 ^ M)))) (d_pow2 (e - fl_eBias el - int M)) =
      Fin (if s then - (of_int (m + 2 ^ M) * pow2 (e - fl_eBias el - int M)) else of_int (m + 2 ^ M) * pow2 (e - fl_eBias el - int M))"
      using de_value [of "m + 2 ^ M" "e - fl_eBias el - int M" s] b(2) assms(4)
      by (simp add: add_nonneg_pos less_imp_neq [symmetric] del: of_int_add)
    moreover have "of_int (m + 2 ^ M) * pow2 (e - fl_eBias el - int M) = (1 + of_int m / 2 ^ M) * pow2 (e - fl_eBias el)"
    proof -
      have "pow2 (e - fl_eBias el - int M) = pow2 (e - fl_eBias el) / 2 ^ M" by (simp only: pow2_diff [of _ "int M"]) (simp add: pow2_nat)
      then show ?thesis by (simp add: field_simps)
    qed
    ultimately show ?thesis using 3
      by (simp only: de_fields_def Let_def ieee_value_def M_def [symmetric] sum) auto
  qed
qed

lemma list_of_length:
  "length xs = 4 \<Longrightarrow> \<exists>a b c d. xs = [a, b, c, d]"
  "length xs = 8 \<Longrightarrow> \<exists>a b c d e f g h. xs = [a, b, c, d, e, f, g, h]"
  by (auto simp: length_Suc_conv numeral_eq_Suc)

text \<open>The element as its two highest bytes \<open>x\<close> and the rest \<open>y\<close>.\<close>

definition high_val :: "bytes \<Rightarrow> int" where
  "high_val msb = uint (msb ! 0) * 256 + uint (msb ! 1)"

definition low_val :: "bytes \<Rightarrow> int" where
  "low_val msb = le_val (rev (drop 2 msb))"

lemma de_bytes_bits:
  assumes "el \<in> float_els" "length msb = fl_len el" "r = fl_mLen el mod 8"
  shows "de_bytes el msb =
      de_fields el (2 ^ 15 \<le> high_val msb) (high_val msb mod 2 ^ 15 div 2 ^ r)
        (high_val msb mod 2 ^ 15 mod 2 ^ r * 2 ^ (fl_mLen el - r) + low_val msb)"
proof -
  have *: "2 ^ 15 \<le> high_val (b0 # b1 # bs) \<longleftrightarrow> drop_bit 7 (uint b0) \<noteq> 0"
    "high_val (b0 # b1 # bs) mod 2 ^ 15 = take_bit 7 (uint b0) * 256 + uint b1" for b0 b1 bs
    using high_bytes [of b0 b1] by (simp_all add: high_val_def)
  from assms(1) consider "el = float_f" | "el = float_d" by (auto simp: float_els_def)
  then show ?thesis
  proof cases
    case 1
    then obtain b0 b1 b2 b3 where m: "msb = [b0, b1, b2, b3]" using list_of_length(1) [of msb] assms(2) by auto
    have r: "r = 7" using assms(3) 1 by simp
    show ?thesis unfolding m 1 r *
      by (simp add: low_val_def take_bit_eq_mod drop_bit_eq_div algebra_simps)
  next
    case 2
    then obtain b0 b1 b2 b3 b4 b5 b6 b7 where m: "msb = [b0, b1, b2, b3, b4, b5, b6, b7]"
      using list_of_length(2) [of msb] assms(2) by auto
    have r: "r = 4" using assms(3) 2 by simp
    show ?thesis unfolding m 2 r *
      by (simp add: low_val_def take_bit_eq_mod drop_bit_eq_div algebra_simps)
  qed
qed

lemma le_val_rev_split:
  assumes "2 \<le> length msb"
  shows "le_val (rev msb) = high_val msb * 2 ^ (8 * (length msb - 2)) + low_val msb"
    "0 \<le> low_val msb" "low_val msb < 2 ^ (8 * (length msb - 2))" "0 \<le> high_val msb" "high_val msb < 2 ^ 16"
proof -
  obtain b0 b1 bs where m: "msb = b0 # b1 # bs" using assms by (auto simp: numeral_2_eq_2 Suc_le_length_iff)
  have v: "le_val (xs @ ys) = le_val xs + 256 ^ length xs * le_val ys" for xs ys
    by (induction xs) (simp_all add: algebra_simps)
  have p: "(256 :: int) ^ n = 2 ^ (8 * n)" for n by (simp add: power_mult)
  show "le_val (rev msb) = high_val msb * 2 ^ (8 * (length msb - 2)) + low_val msb"
    by (simp add: m v high_val_def low_val_def p algebra_simps)
  show "0 \<le> low_val msb" "low_val msb < 2 ^ (8 * (length msb - 2))"
    using le_val_bounds [of "rev bs"] by (simp_all add: m low_val_def p)
  show "0 \<le> high_val msb" "high_val msb < 2 ^ 16"
    using uint_byte [of b0] uint_byte [of b1] by (simp_all add: m high_val_def)
qed

lemma De754_bits:
  assumes "el \<in> float_els" "length bs = fl_len el"
  shows "De754 be el (pre @ bs @ post) (length pre) = ieee_word el (le_val (if be then rev bs else bs))"
proof -
  define msb where "msb = (if be then bs else rev bs)"
  define r where "r = fl_mLen el mod 8"
  define q where "q = fl_mLen el - r"
  have len: "length msb = fl_len el" using assms(2) by (simp add: msb_def)
  have par: "fl_mLen el = q + r" "8 * (length msb - 2) = q" "2 \<le> length msb" "fl_eLen el = 15 - r" "r \<le> 15" "8 * fl_len el - 1 = q + 15"
    using assms(1) by (auto simp: float_els_def len q_def r_def)
  note w = le_val_rev_split [OF par(3), unfolded par(2)]
  let ?W = "le_val (rev msb)" and ?X = "high_val msb" and ?Y = "low_val msb"
  have W: "?W div 2 ^ (q + r) = ?X div 2 ^ r" "?W mod 2 ^ (q + r) = ?X mod 2 ^ r * 2 ^ q + ?Y"
    using word_fields [OF w(2,3), of ?X r] by (simp_all add: w(1))
  have e: "?X mod 2 ^ 15 div 2 ^ r = ?X div 2 ^ r mod 2 ^ fl_eLen el"
    using drop_bit_take_bit [of r 15 ?X] by (simp add: par(4) take_bit_eq_mod drop_bit_eq_div)
  have f: "?X mod 2 ^ 15 mod 2 ^ r = ?X mod 2 ^ r"
    by (rule mod_mod_cancel) (rule le_imp_power_dvd [OF par(5)])
  have s: "2 ^ 15 \<le> ?X \<longleftrightarrow> 2 ^ (q + 15) \<le> ?W"
  proof -
    have "2 ^ 15 * 2 ^ q \<le> ?X * 2 ^ q" if "2 ^ 15 \<le> ?X" using that by (rule mult_right_mono) simp
    moreover have "(?X + 1) * 2 ^ q \<le> 2 ^ 15 * 2 ^ q" if "?X < 2 ^ 15" using that by (intro mult_right_mono) simp_all
    moreover have "(2 :: int) ^ (q + 15) = 2 ^ 15 * 2 ^ q" "(?X + 1) * 2 ^ q = ?X * 2 ^ q + 2 ^ q"
      by (simp_all add: power_add algebra_simps)
    ultimately show ?thesis using w(1-3) by linarith
  qed
  have "De754 be el (pre @ bs @ post) (length pre) = de_bytes el msb"
    using assms(2) by (simp add: De754_def msb_def)
  also have "\<dots> = de_fields el (2 ^ 15 \<le> ?X) (?X mod 2 ^ 15 div 2 ^ r) (?X mod 2 ^ 15 mod 2 ^ r * 2 ^ q + ?Y)"
    using de_bytes_bits [OF assms(1) len r_def] by (simp add: q_def)
  also have "\<dots> = de_fields el (2 ^ (q + 15) \<le> ?W) (?W div 2 ^ fl_mLen el mod 2 ^ fl_eLen el) (?W mod 2 ^ fl_mLen el)"
    by (simp only: par(1) W e f s)
  also have "\<dots> = ieee_word el ?W"
    unfolding ieee_word_def par(6)
    using de_fields_value [OF assms(1), of "?W div 2 ^ fl_mLen el mod 2 ^ fl_eLen el" "?W mod 2 ^ fl_mLen el"]
    by (simp add: fl_eMax_def)
  finally show ?thesis by (simp add: msb_def split: if_splits)
qed

text \<open>
  C26. Decoding reads the number of IEEE 754: for single and double precision, in both byte orders and at every
  offset, \<open>_De754\<close> gives the zero, denormalised or normalised number, infinity or NaN that the sign, the
  exponent and the fraction of the word stand for, exactly.
\<close>

theorem De754_word:
  assumes "el \<in> float_els" "length bs = fl_len el"
  shows "De754 be el (pre @ bs @ post) (length pre) = ieee_word el (le_val (if be then rev bs else bs))"
  using assms by (rule De754_bits)

lemma De754_word_witness: "De754 True float_f [7, 0xC0, 0x49, 0x0F, 0xDB, 7] 1 = ieee_word float_f 0xC0490FDB"
  using De754_word [of float_f "[0xC0, 0x49, 0x0F, 0xDB]" True "[7]" "[7]"] by (simp add: float_els_def)

end
