(* ===== verification/Ieee754En.thy ===== *)
theory Ieee754En
  imports Ieee754
begin

text \<open>
  What \<open>_En754\<close> of \<open>libs/bufferpack.js\<close> writes: the word of every number the format has, with the round trip
  through \<open>_De754\<close>.
\<close>

section \<open>Scaling\<close>

text \<open>The numbers of the encoder are an integer of at most 53 bits times a power of two.\<close>

definition scaled :: "int \<Rightarrow> int \<Rightarrow> rat" where
  "scaled n q = of_int n * pow2 q"

lemma dbl_scaled: "0 \<le> n \<Longrightarrow> n < 2 ^ 53 \<Longrightarrow> -1074 \<le> q \<Longrightarrow> q \<le> 971 \<Longrightarrow> dbl (scaled n q)"
  by (rule dblI [of _ n q]) (simp_all add: scaled_def)

lemma scaled_nonneg: "0 \<le> n \<Longrightarrow> 0 \<le> scaled n q"
  by (simp add: scaled_def)

lemma scaled_pow2: "scaled n q * pow2 p = scaled n (q + p)"
  by (simp add: scaled_def pow2_add)

lemma scaled_mul:
  assumes "0 \<le> n" "n < 2 ^ 53" "-1074 \<le> q + p" "q + p \<le> 971"
  shows "d_mul (Fin (scaled n q)) (Fin (pow2 p)) = Fin (scaled n (q + p))"
proof -
  show ?thesis using assms d_ops_exact(1) [of "scaled n q" "pow2 p"] dbl_scaled [of n "q + p"]
    by (simp add: scaled_nonneg scaled_pow2)
qed

lemma scaled_div_256:
  assumes "0 \<le> n" "n < 2 ^ 53" "-1066 \<le> q" "q \<le> 971"
  shows "d_div (Fin (scaled n q)) (Fin 256) = Fin (scaled n (q - 8))"
proof -
  have "scaled n q / 256 = scaled n (q - 8)" by (simp add: scaled_def pow2_diff) (simp add: pow2_def)
  then show ?thesis using assms d_ops_exact(2) [of "scaled n q" 256] dbl_scaled [of n "q - 8"] by (simp add: scaled_nonneg)
qed

lemma floor_scaled: "0 \<le> n \<Longrightarrow> d_int (Fin (scaled n (- int j))) = n div 2 ^ j"
proof -
  assume "0 \<le> n"
  moreover have "\<lfloor>scaled n (- int j)\<rfloor> = n div 2 ^ j"
    using floor_divide_of_int_eq [of n "2 ^ j", where 'a = rat] by (simp add: scaled_def pow2_minus pow2_nat divide_inverse)
  ultimately show ?thesis using scaled_nonneg [of n "- int j"] by (simp add: d_int_def)
qed

section \<open>The loops\<close>

lemma mant_loop_scaled:
  assumes "0 \<le> n" "n < 2 ^ 53" "r < 8" "j + 8 * b \<le> 1000"
  shows "mant_loop (8 * b + r) (Fin (scaled n (- int j))) =
    (le_bytes b (n div 2 ^ j), Fin (scaled n (- int (j + 8 * b))), r)"
  using assms(4)
proof (induction b arbitrary: j)
  case 0
  then show ?case using assms(3) by (simp add: mant_loop.simps)
next
  case (Suc b)
  have d: "d_div (Fin (scaled n (- int j))) (Fin 256) = Fin (scaled n (- int (j + 8)))"
    using scaled_div_256 [OF assms(1,2), of "- int j"] Suc.prems by simp
  have "n div 2 ^ (j + 8) = n div 2 ^ j div 256" by (simp add: power_add zdiv_zmult2_eq)
  then show ?case using Suc.IH [of "j + 8"] Suc.prems floor_scaled [OF assms(1), of j]
    by (subst mant_loop.simps) (simp add: d d_byte_def algebra_simps)
qed

lemma exp_loop_scaled:
  assumes "0 \<le> n" "n < 2 ^ 53" "j + 16 \<le> 1000"
  shows "exp_loop 15 (Fin (scaled n (- int j))) = le_bytes 2 (n div 2 ^ j)"
proof -
  have d: "d_div (Fin (scaled n (- int j))) (Fin 256) = Fin (scaled n (- int (j + 8)))"
    using scaled_div_256 [OF assms(1,2), of "- int j"] assms(3) by simp
  have "n div 2 ^ (j + 8) = n div 2 ^ j div 256" by (simp add: power_add zdiv_zmult2_eq)
  then show ?thesis using floor_scaled [OF assms(1), of j] floor_scaled [OF assms(1), of "j + 8"]
    by (simp add: exp_loop.simps [of 15] exp_loop.simps [of 7] exp_loop.simps [of 0] d d_byte_def numeral_2_eq_2)
qed

text \<open>Bits that do not overlap.\<close>

lemma or_disjoint: "0 \<le> (b :: int) \<Longrightarrow> b < 2 ^ r \<Longrightarrow> a * 2 ^ r OR b = a * 2 ^ r + b"
proof -
  assume b: "0 \<le> b" "b < 2 ^ r"
  then have t: "take_bit r b = b" by (simp add: take_bit_int_eq_self)
  have "concat_bit r b a = b OR push_bit r a" by (simp add: concat_bit_def t)
  moreover have "concat_bit r b a = b + push_bit r a" by (simp add: concat_bit_eq t)
  ultimately show ?thesis by (simp add: push_bit_eq_mult or.commute add.commute)
qed

lemma js_or_disjoint:
  assumes "0 \<le> a" "0 \<le> b" "b < 2 ^ r" "a * 2 ^ r + b < 2 ^ 31"
  shows "js_or (a * 2 ^ r) b = a * 2 ^ r + b"
proof -
  have "0 \<le> a * 2 ^ r" using assms(1) by simp
  then have "to_int32 (a * 2 ^ r) = a * 2 ^ r" "to_int32 b = b"
    using assms(2,4) by (intro to_int32_id; linarith)+
  then show ?thesis using or_disjoint [OF assms(2,3), of a] by (simp add: js_or_def)
qed

section \<open>The bytes of the fields\<close>

definition en_bytes :: "float_el \<Rightarrow> bool \<Rightarrow> int \<Rightarrow> int \<Rightarrow> bytes" where
  "en_bytes el s e k = le_bytes (fl_len el) ((if s then 2 ^ (8 * fl_len el - 1) else 0) + e * 2 ^ fl_mLen el + k)"

lemma div_less_bound: "(w :: int) < n * c \<Longrightarrow> 0 < c \<Longrightarrow> w div c < n"
proof (rule ccontr)
  assume "w < n * c" "0 < c" "\<not> w div c < n"
  then have "n * c \<le> w div c * c" by (intro mult_right_mono) simp_all
  also have "\<dots> \<le> w" using div_mult_mod_eq [of w c] pos_mod_sign [OF \<open>0 < c\<close>, of w] by linarith
  finally show False using \<open>w < n * c\<close> by simp
qed

lemma set_sign_bit:
  assumes "0 \<le> w" "w < 2 ^ (8 * Suc n + 7)"
  shows "butlast (le_bytes (n + 2) w) @ [last (le_bytes (n + 2) w) OR word_of_int ((if s then 1 else 0) * 128)] =
    le_bytes (n + 2) ((if s then 2 ^ (8 * (n + 2) - 1) else 0) + w)"
proof -
  let ?t = "w div 256 ^ (n + 1)"
  have p: "(256 :: int) ^ (n + 1) = 2 ^ (8 * Suc n)" by (simp only: power_mult [of 2 8]) simp
  have l: "le_bytes (n + 2) v = le_bytes (n + 1) v @ [word_of_int (v div 256 ^ (n + 1))]" for v
    using le_bytes_append [of "n + 1" 1 v] by simp
  have q: "(2 :: int) ^ (8 * (n + 2) - 1) = 128 * 256 ^ (n + 1)" unfolding p by (simp add: power_add)
  have t: "0 \<le> ?t" "?t < 128"
  proof -
    have "w < 128 * 256 ^ (n + 1)" using assms(2) unfolding p by (simp add: power_add)
    then show "?t < 128" by (rule div_less_bound) simp
  qed (use assms(1) in \<open>simp add: pos_imp_zdiv_nonneg_iff\<close>)
  have "(word_of_int ?t OR word_of_int 128 :: byte) = word_of_int (128 + ?t)"
  proof -
    have "128 OR ?t = 128 + ?t" using or_disjoint [of ?t 7 1] t by simp
    then have "(word_of_int (128 + ?t) :: byte) = word_of_int (128 OR ?t)" by (simp only:)
    also have "\<dots> = word_of_int 128 OR word_of_int ?t" by (rule of_int_or_eq)
    finally show ?thesis by (simp only: or.commute)
  qed
  moreover have "(2 ^ (8 * (n + 2) - 1) + w) div 256 ^ (n + 1) = 128 + ?t" unfolding q by (rule div_mult_self3) simp
  moreover have "le_bytes (n + 1) (2 ^ (8 * (n + 2) - 1) + w) = le_bytes (n + 1) w"
    unfolding q by (metis le_bytes_mod mod_mult_self3)
  ultimately show ?thesis by (cases s) (simp_all only: l butlast_snoc last_snoc append_same_eq, simp_all)
qed

text \<open>The exponent \<open>e\<close> of \<open>L\<close> bits in front of a fraction of \<open>8 * b + r\<close> bits: the two loops write the bytes of the whole.\<close>

lemma field_bytes:
  fixes e k :: int
  assumes e: "0 \<le> e" "e + 1 \<le> 2 ^ L" and k: "0 \<le> k" "k < 2 ^ (8 * b + r)" and L: "L + r = 15"
  shows "0 \<le> k div 2 ^ (8 * b)" "k div 2 ^ (8 * b) < 2 ^ r" "e * 2 ^ r + k div 2 ^ (8 * b) < 2 ^ 15"
    "le_bytes b k @ le_bytes 2 (e * 2 ^ r + k div 2 ^ (8 * b)) = le_bytes (b + 2) (e * 2 ^ (8 * b + r) + k)"
    "0 \<le> e * 2 ^ (8 * b + r) + k" "e * 2 ^ (8 * b + r) + k < 2 ^ (8 * Suc b + 7)"
proof -
  let ?top = "k div 2 ^ (8 * b)" and ?w = "e * 2 ^ (8 * b + r) + k"
  show top: "0 \<le> ?top" "?top < 2 ^ r"
    by (use k(1) in \<open>simp add: pos_imp_zdiv_nonneg_iff\<close>) (rule div_less_bound, use k(2) in \<open>simp_all add: power_add mult.commute\<close>)
  show "0 \<le> ?w" using e(1) k(1) by simp
  have "(e + 1) * 2 ^ r \<le> 2 ^ L * 2 ^ r" using e(2) by (rule mult_right_mono) simp
  also have "\<dots> = 2 ^ 15" using L by (simp flip: power_add)
  finally show "e * 2 ^ r + ?top < 2 ^ 15" using top(2) by (simp add: algebra_simps)
  have "(e + 1) * 2 ^ (8 * b + r) \<le> 2 ^ L * 2 ^ (8 * b + r)" using e(2) by (rule mult_right_mono) simp
  also have "\<dots> = 2 ^ (L + (8 * b + r))" by (simp only: power_add)
  also have "L + (8 * b + r) = 8 * Suc b + 7" using L by simp
  finally show "?w < 2 ^ (8 * Suc b + 7)" using k(2) by (simp add: algebra_simps)
  have p: "(256 :: int) ^ b = 2 ^ (8 * b)" by (simp only: power_mult) simp
  have w: "?w = e * 2 ^ r * 2 ^ (8 * b) + k" by (simp add: power_add)
  have "?w div 256 ^ b = e * 2 ^ r + ?top" unfolding p w by (rule div_mult_self3) simp
  moreover have "?w mod 256 ^ b = k mod 256 ^ b" unfolding p w by (rule mod_mult_self3)
  then have "le_bytes b ?w = le_bytes b k" using le_bytes_mod [of b ?w] le_bytes_mod [of b k] by simp
  ultimately show "le_bytes b k @ le_bytes 2 (e * 2 ^ r + ?top) = le_bytes (b + 2) ?w" by (simp only: le_bytes_append)
qed

text \<open>What follows the fields in \<open>_En754\<close>, on a significand with \<open>j\<close> bits behind the point.\<close>

lemma En754_fields:
  assumes "el \<in> float_els" "en_fields el log2_of (d_abs v) = (Fin (scaled n (- int j)), e)" "d_less v (Fin 0) = s"
    "0 \<le> n" "n < 2 ^ 53" "j \<le> 60" "n div 2 ^ j = k" "k < 2 ^ fl_mLen el" "0 \<le> e" "e \<le> fl_eMax el"
  shows "En754 be el log2_of v = (if be then rev (en_bytes el s e k) else en_bytes el s e k)"
proof -
  define r where "r = fl_mLen el mod 8"
  define b where "b = fl_mLen el div 8"
  have par: "fl_mLen el = 8 * b + r" "r < 8" "fl_eLen el + r = 15" "fl_len el = b + 2" "b \<le> 6"
    using assms(1) by (auto simp: r_def b_def float_els_def)
  have e: "e + 1 \<le> 2 ^ fl_eLen el" using assms(10) by (simp add: fl_eMax_def)
  have k: "0 \<le> k" "k < 2 ^ (8 * b + r)" using assms(4,7,8) par(1) by (auto simp: pos_imp_zdiv_nonneg_iff)
  note W = field_bytes [OF assms(9) e k par(3)]
  let ?top = "k div 2 ^ (8 * b)"
  have ml: "mant_loop (fl_mLen el) (Fin (scaled n (- int j))) = (le_bytes b k, Fin (scaled n (- int (j + 8 * b))), r)"
    using mant_loop_scaled [OF assms(4,5) par(2), of j b] par(5) assms(6) by (simp add: par(1) assms(7))
  have rest: "d_int (Fin (scaled n (- int (j + 8 * b)))) = ?top"
    using floor_scaled [OF assms(4), of "j + 8 * b"] assms(7) by (simp add: power_add zdiv_zmult2_eq)
  have or: "js_or (e * 2 ^ r) ?top = e * 2 ^ r + ?top" by (rule js_or_disjoint) (use W assms(9) in simp_all)
  have "0 \<le> e * 2 ^ r + ?top" using W(1) assms(9) by simp
  then have el: "exp_loop 15 (Fin (of_int (e * 2 ^ r + ?top))) = le_bytes 2 (e * 2 ^ r + ?top)"
    using exp_loop_scaled [of "e * 2 ^ r + ?top" 0] W(3) by (simp add: scaled_def pow2_def)
  have "en_bytes el s e k = le_bytes (b + 2) ((if s then 2 ^ (8 * (b + 2) - 1) else 0) + (e * 2 ^ (8 * b + r) + k))"
    by (simp only: en_bytes_def par(1,4) add.assoc)
  then show ?thesis
    by (simp only: En754_def Let_def assms(2,3) prod.case ml rest or par(3) el W(4) set_sign_bit [OF W(5,6), of s])
qed

section \<open>The fields of a number\<close>

text \<open>
  What the encoder relies on: the logarithm, rounded down, is off by at most one. It corrects an estimate that
  is too high by its first \<open>if\<close> and one that is too low by the second.
\<close>

definition log2_estimate :: "(rat \<Rightarrow> int) \<Rightarrow> bool" where
  "log2_estimate log2_of \<longleftrightarrow> (\<forall>x > 0. \<bar>log2_of x - floor_log2 x\<bar> \<le> 1)"

lemma scaled_less: "scaled n q < pow2 p \<longleftrightarrow> of_int n < pow2 (p - q)"
  by (simp add: scaled_def pow2_diff field_simps)

lemma pow2_le_scaled: "pow2 p \<le> scaled n q \<longleftrightarrow> pow2 (p - q) \<le> of_int n"
  by (simp add: scaled_def pow2_diff field_simps)

lemma pow2_diff_nat: "pow2 (a - int n) = pow2 a / 2 ^ n"
  by (simp only: pow2_diff) (simp add: pow2_nat)

lemma scaled_shift: "scaled n (q + int j) = scaled (n * 2 ^ j) q"
  by (simp add: scaled_def pow2_add pow2_nat)

text \<open>
  Rounding leaves at most two more bits behind the point and the number between its neighbours. The rounding
  term is half a unit in the last place for single precision, nothing for double precision.
\<close>

definition rounded :: "int \<Rightarrow> int \<Rightarrow> int \<Rightarrow> nat \<Rightarrow> bool" where
  "rounded N q n j \<longleftrightarrow> N * 2 ^ j \<le> n \<and> n < (N + 1) * 2 ^ j \<and> j \<le> 2 \<and> n < 2 ^ 53 \<and> -1074 \<le> q - int j"

lemma add_rounding:
  assumes el: "el \<in> float_els" and n: "0 < n" "n < 2 ^ (fl_mLen el + 1)"
    and F: "floor_log2 (scaled n q) = F" "F \<le> q + int (fl_mLen el)" "-1022 \<le> F \<or> el = float_d" "F \<le> 1022 \<or> el = float_d"
      "-1074 \<le> q" "q \<le> 971"
    and h: "el = float_f \<Longrightarrow> q = h - 24 + int i \<and> 0 < i \<and> i \<le> 2" "-149 \<le> q \<or> el = float_d"
  shows "\<exists>n' j. d_add (Fin (scaled n q)) (Fin (fl_rt el * pow2 h)) = Fin (scaled n' (q - int j)) \<and> rounded n q n' j"
proof -
  from el consider "el = float_d" | "el = float_f" by (auto simp: float_els_def)
  then show ?thesis
  proof cases
    case 1
    then have n53: "n < 2 ^ 53" using n(2) by simp
    have "d_add (Fin (scaled n q)) (Fin (fl_rt el * pow2 h)) = Fin (scaled n q)"
      using 1 d_ops_exact(3) [of "scaled n q" 0] dbl_scaled [of n q] n n53 F(5,6) by (simp add: scaled_nonneg)
    then show ?thesis using n53 F(5) by (intro exI [of _ n] exI [of _ 0]) (simp add: rounded_def)
  next
    case 2
    note i = h(1) [OF 2]
    have rt: "fl_rt el * pow2 h = pow2 (q - int i) - pow2 (q - int i - 53)"
    proof -
      have "pow2 (q - int i) = pow2 (- 24) * pow2 h" "pow2 (q - int i - 53) = pow2 (- 77) * pow2 h"
        using i by (simp_all flip: pow2_add)
      then show ?thesis using 2 by (simp add: left_diff_distrib)
    qed
    have "F - q + int i \<le> 52" using F(2) i 2 by simp
    moreover have "-1022 \<le> F" "F \<le> 1022" using F(3,4) 2 by simp_all
    ultimately have "0 < i \<longrightarrow> round_double (scaled n q + (pow2 (q - int i) - pow2 (q - int i - 53))) =
        Fin (of_int (n * 2 ^ i + 1) * pow2 (q - int i))"
      using round_double_add_half [of "scaled n q" n q F i] n(1) F(1) by (simp add: scaled_def)
    with i
    have td: "round_double (scaled n q + fl_rt el * pow2 h) = Fin (scaled (n * 2 ^ i + 1) (q - int i))"
      by (simp add: scaled_def rt)
    have da: "d_add (Fin (scaled n q)) (Fin (fl_rt el * pow2 h)) = Fin (scaled (n * 2 ^ i + 1) (q - int i))"
      unfolding td [symmetric] by (simp add: d_add_def is_inf_def d_val_def)
    have q: "-149 \<le> q" using h(2) 2 by simp
    have "n * 2 ^ i + 1 \<le> (2 ^ 24 - 1) * 2 ^ 2 + 1"
    proof -
      have "n \<le> 2 ^ 24 - 1" "(2 :: int) ^ i \<le> 2 ^ 2" using n(2) i 2 by (simp_all only: power_increasing) (simp_all add: power_increasing)
      then show ?thesis using n(1) by (intro add_right_mono mult_mono) simp_all
    qed
    moreover have "(1 :: int) < 2 ^ i" using i by simp
    ultimately show ?thesis using da i q
      by (intro exI [of _ "n * 2 ^ i + 1"] exI [of _ i]) (simp add: rounded_def distrib_right)
  qed
qed

lemma rounding_term:
  assumes "el \<in> float_els" "-900 \<le> h \<or> el = float_d" "h \<le> 900 \<or> el = float_d"
  shows "0 \<le> fl_rt el" "dbl (fl_rt el * pow2 h)"
proof -
  have r: "pow2 (- 24) - pow2 (- 77) = scaled (2 ^ 53 - 1) (- 77)" by (simp add: scaled_def pow2_def)
  have "dbl (scaled (2 ^ 53 - 1) (- 77) * pow2 h)" if "-900 \<le> h" "h \<le> 900"
    unfolding scaled_pow2 using that by (intro dbl_scaled) simp_all
  moreover have "dbl 0" by (rule dblI [of _ 0 0]) simp_all
  ultimately show "0 \<le> fl_rt el" "dbl (fl_rt el * pow2 h)"
    using assms by (auto simp: float_els_def r scaled_nonneg)
qed

subsection \<open>Normalised numbers\<close>

text \<open>The two formats by the size \<open>M\<close> of the fraction and the bias \<open>B\<close>.\<close>

definition float_par :: "float_el \<Rightarrow> nat \<Rightarrow> int \<Rightarrow> bool" where
  "float_par el M B \<longleftrightarrow> M = 23 \<and> B = 127 \<and> el = float_f \<or> M = 52 \<and> B = 1023 \<and> el = float_d"

lemma float_parD:
  assumes "float_par el M B"
  shows "el \<in> float_els" "fl_mLen el = M" "fl_eBias el = B" "fl_eMax el = 2 * B + 1" "d_pow2 (int M) = Fin (pow2 (int M))"
    "d_pow2 (1 - B) = Fin (pow2 (1 - B))" "d_pow2 (B - 1) = Fin (pow2 (B - 1))" "(2 :: int) ^ (M + 1) \<le> 2 ^ 53" "(2 :: int) ^ M \<le> 2 ^ 53"
proof -
  show "el \<in> float_els" "fl_mLen el = M" "fl_eBias el = B" "fl_eMax el = 2 * B + 1" "(2 :: int) ^ (M + 1) \<le> 2 ^ 53" "(2 :: int) ^ M \<le> 2 ^ 53"
    using assms by (auto simp: float_par_def float_els_def)
  show "d_pow2 (int M) = Fin (pow2 (int M))" "d_pow2 (1 - B) = Fin (pow2 (1 - B))" "d_pow2 (B - 1) = Fin (pow2 (B - 1))"
    using assms by (auto simp: float_par_def intro!: d_pow2_exact)
qed

text \<open>The exponent is \<open>E\<close>, the significand \<open>N\<close> with its leading one.\<close>

definition normal_num :: "float_el \<Rightarrow> nat \<Rightarrow> int \<Rightarrow> int \<Rightarrow> int \<Rightarrow> bool" where
  "normal_num el M B E N \<longleftrightarrow> float_par el M B \<and> 1 - B \<le> E \<and> E \<le> B \<and> 2 ^ M \<le> N \<and> N < 2 ^ (M + 1)"

lemma normal_numD:
  assumes "normal_num el M B E N"
  shows "float_par el M B" "1 - B \<le> E" "E \<le> B" "2 ^ M \<le> N" "N < 2 ^ (M + 1)" "0 < N" "N < 2 ^ 53"
    "pow2 (int M) \<le> of_int N" "of_int N < pow2 (int M + 1)"
    "floor_log2 (scaled N (E - int M)) = E" "0 < scaled N (E - int M)"
proof -
  show N: "float_par el M B" "1 - B \<le> E" "E \<le> B" "2 ^ M \<le> N" "N < 2 ^ (M + 1)" using assms by (simp_all add: normal_num_def)
  show N0: "0 < N" by (rule less_le_trans [OF _ N(4)]) simp
  show "N < 2 ^ 53" using N(5) float_parD(8) [OF N(1)] by linarith
  show p: "pow2 (int M) \<le> of_int N" "of_int N < pow2 (int M + 1)"
    using N(4,5) by (simp_all only: pow2_nonneg) (simp_all add: nat_add_distrib flip: of_int_le_iff of_int_less_iff [where 'a = rat])
  show "0 < scaled N (E - int M)" using N0 by (simp add: scaled_def)
  show "floor_log2 (scaled N (E - int M)) = E"
    by (rule floor_log2_unique) (use p in \<open>simp_all add: pow2_le_scaled scaled_less add.commute\<close>)
qed

text \<open>Scaling factors are doubled and halved without rounding.\<close>

lemma pow2_double: "-1074 \<le> k \<Longrightarrow> k \<le> 1023 \<Longrightarrow> d_mul (Fin (pow2 (k - 1))) (Fin 2) = Fin (pow2 k)"
proof -
  assume "-1074 \<le> k" "k \<le> 1023"
  moreover have "pow2 (k - 1) * 2 = pow2 k" using pow2_add [of "k - 1" 1] by (simp add: pow2_def)
  ultimately show ?thesis using d_ops_exact(1) [of "pow2 (k - 1)" 2] dbl_pow2 [of k] by simp
qed

lemma pow2_half: "-1074 \<le> k \<Longrightarrow> k \<le> 1023 \<Longrightarrow> d_div (Fin (pow2 (k + 1))) (Fin 2) = Fin (pow2 k)"
proof -
  assume "-1074 \<le> k" "k \<le> 1023"
  moreover have "pow2 (k + 1) / 2 = pow2 k" using pow2_add [of k 1] by (simp add: pow2_def)
  ultimately show ?thesis using d_ops_exact(2) [of "pow2 (k + 1)" 2] dbl_pow2 [of k] by simp
qed

lemma one_two_pow2: "1 = pow2 0" "2 = pow2 1"
  by (simp_all add: pow2_def)

text \<open>An estimate of the logarithm that is too high is corrected.\<close>

lemma log_correction_normal:
  assumes n: "normal_num el M B E N" and g: "g = E - 1 \<or> g = E \<or> g = E + 1"
  shows "en_log_correction (Fin (scaled N (E - int M))) (Some g) (d_pow2 (- g)) =
    (Some (if g = E + 1 then E else g), Fin (pow2 (- (if g = E + 1 then E else g))))"
proof -
  note N = normal_numD [OF n]
  have par: "M = 23 \<and> B = 127 \<or> M = 52 \<and> B = 1023" using N(1) by (auto simp: float_par_def)
  have m: "d_mul (Fin (scaled N (E - int M))) (Fin (pow2 (- g))) = Fin (scaled N (E - int M - g))"
    using scaled_mul [of N "E - int M" "- g"] N(6,7) g par by auto
  have c: "d_pow2 (- g) = Fin (pow2 (- g))" using g par N(2,3) by (intro d_pow2_exact) auto
  have "pow2 (int M - 1) < pow2 (int M)" by simp
  then have half: "pow2 (int M - 1) < of_int N" "\<not> of_int N < pow2 (int M - 1)" "\<not> of_int N < pow2 (int M)"
    using N(8) by linarith+
  have "d_less (Fin (scaled N (E - int M - g))) (Fin 1) \<longleftrightarrow> g = E + 1"
    unfolding d_ops_exact(4) one_two_pow2(1) scaled_less using g N(8,9) half by (auto simp: add.commute)
  moreover have "d_mul (Fin (pow2 (- E - 1))) (Fin 2) = Fin (pow2 (- E))" using pow2_double [of "- E"] N(2,3) par by auto
  ultimately show ?thesis unfolding en_log_correction_def c m by (auto simp: algebra_simps)
qed

text \<open>The rounding term follows the exponent, down to the smallest one of normalised numbers.\<close>

lemma rounding_term_normal:
  assumes n: "normal_num el M B E N" and h: "h = E - 1 \<or> h = E"
  shows "\<exists>n j. d_add (Fin (scaled N (E - int M))) (en_rounding_term el (Some h) (Fin (pow2 (- h)))) = Fin (scaled n (E - int M - int j)) \<and>
    rounded N (E - int M) n j"
proof -
  note N = normal_numD [OF n]
  note fp = float_parD [OF N(1)]
  have par: "M = 23 \<and> B = 127 \<and> el = float_f \<or> M = 52 \<and> B = 1023 \<and> el = float_d" using N(1) by (simp add: float_par_def)
  define h' where "h' = (if 1 - B \<le> h then h else 1 - B)"
  have h': "h' = E - 1 \<or> h' = E" using h N(2) by (auto simp: h'_def)
  have rt: "0 \<le> fl_rt el" "dbl (fl_rt el * pow2 h')" using rounding_term [OF fp(1), of h'] par N(2,3) h' by auto
  have "en_rounding_term el (Some h) (Fin (pow2 (- h))) = Fin (fl_rt el * pow2 h')"
    using rt d_ops_exact(2) [of "fl_rt el" "pow2 (- h)"] d_ops_exact(1) [of "fl_rt el" "pow2 (1 - B)"]
    by (simp add: en_rounding_term_def at_least_def fp h'_def pow2_minus split: if_splits)
  moreover have "E - int M = h' - 24 + int (nat (E - h' + 1)) \<and> 0 < nat (E - h' + 1) \<and> nat (E - h' + 1) \<le> 2" if "el = float_f"
    using that par h' by auto
  ultimately show ?thesis
    using add_rounding [OF fp(1) N(6), of "E - int M" E h' "nat (E - h' + 1)"] N(2,3,5,10) par by (auto simp: fp(2))
qed

lemma rounded_normal:
  assumes n: "normal_num el M B E N" and r: "rounded N (E - int M) n j"
  shows "2 ^ (M + j) \<le> n" "n < 2 ^ (M + j + 1)" "pow2 (int M + int j) \<le> of_int n" "of_int n < pow2 (int M + int j + 1)"
    "i = E - 1 \<or> i = E \<Longrightarrow> d_mul (Fin (scaled n (E - int M - int j))) (Fin (pow2 (- i))) = Fin (scaled n (E - int M - int j - i))"
proof -
  note N = normal_numD [OF n]
  note v = r [unfolded rounded_def]
  have "2 ^ M * 2 ^ j \<le> n" by (rule order_trans [OF mult_right_mono [OF N(4)]]) (use v in simp_all)
  moreover have "n < 2 ^ (M + 1) * 2 ^ j" by (rule less_le_trans [OF _ mult_right_mono [of "N + 1"]]) (use N(5) v in simp_all)
  ultimately show b: "2 ^ (M + j) \<le> n" "n < 2 ^ (M + j + 1)" by (simp_all add: power_add)
  then show "pow2 (int M + int j) \<le> of_int n" "of_int n < pow2 (int M + int j + 1)"
    by (simp_all only: pow2_nonneg) (simp_all add: nat_add_distrib flip: of_int_le_iff of_int_less_iff [where 'a = rat])
  have "0 \<le> n" by (rule order_trans [OF _ b(1)]) simp
  then show "d_mul (Fin (scaled n (E - int M - int j))) (Fin (pow2 (- i))) = Fin (scaled n (E - int M - int j - i))"
    if "i = E - 1 \<or> i = E"
    using scaled_mul [of n "E - int M - int j" "- i"] v that N(1) by (auto simp: float_par_def)
qed

text \<open>An estimate that is too low is corrected after rounding.\<close>

lemma carry_normal:
  assumes n: "normal_num el M B E N" and r: "rounded N (E - int M) n j" and h: "h = E - 1 \<or> h = E"
  shows "en_carry (Fin (scaled n (E - int M - int j))) (Some h) (Fin (pow2 (- h))) = (Some E, Fin (pow2 (- E)))"
proof -
  note N = normal_numD [OF n]
  note R = rounded_normal [OF n r]
  have "d_geq (Fin (scaled n (E - int M - int j - h))) (Fin 2) \<longleftrightarrow> h = E - 1"
    unfolding d_ops_exact(5) one_two_pow2(2) pow2_le_scaled using h R(3,4) by (auto simp: algebra_simps)
  moreover have "d_div (Fin (pow2 (- E + 1))) (Fin 2) = Fin (pow2 (- E))"
    using pow2_half [of "- E"] N(1-3) by (auto simp: float_par_def)
  ultimately show ?thesis using h unfolding en_carry_def R(5) [OF h] by auto
qed

text \<open>The fraction with at most two more bits behind the point, which the byte loops cut off.\<close>

definition fields_are :: "js_double \<times> int \<Rightarrow> int \<Rightarrow> int \<Rightarrow> bool" where
  "fields_are r e k \<longleftrightarrow> (\<exists>n j. r = (Fin (scaled n (- int j)), e) \<and> 0 \<le> n \<and> n < 2 ^ 53 \<and> j \<le> 60 \<and> n div 2 ^ j = k)"

lemma fields_areI: "r = (Fin (scaled n (- int j)), e) \<Longrightarrow> 0 \<le> n \<Longrightarrow> n < 2 ^ 53 \<Longrightarrow> j \<le> 60 \<Longrightarrow> n div 2 ^ j = k \<Longrightarrow> fields_are r e k"
  unfolding fields_are_def by blast

lemma div_between: "k * 2 ^ j \<le> n \<Longrightarrow> n < (k + 1) * 2 ^ j \<Longrightarrow> (n :: int) div 2 ^ j = k"
  by (rule int_div_pos_eq [of _ _ _ "n - k * 2 ^ j"]) (simp_all add: algebra_simps)

lemma split_normal:
  assumes n: "normal_num el M B E N" and r: "rounded N (E - int M) n j"
  shows "fields_are (en_split el (Fin (scaled n (E - int M - int j))) (Some E) (Fin (pow2 (- E)))) (E + B) (N - 2 ^ M)"
proof -
  note N = normal_numD [OF n]
  note fp = float_parD [OF N(1)]
  note R = rounded_normal [OF n r]
  note v = r [unfolded rounded_def]
  let ?K = "n - 2 ^ (M + j)" and ?p = "- int M - int j"
  have K: "0 \<le> ?K" "?K < 2 ^ 53" "?K div 2 ^ j = N - 2 ^ M"
  proof -
    show "0 \<le> ?K" using R(1) by simp
    show "?K < 2 ^ 53" by (rule le_less_trans [of _ n]) (use v in simp_all)
    show "?K div 2 ^ j = N - 2 ^ M" by (rule div_between) (use v in \<open>simp_all add: power_add algebra_simps\<close>)
  qed
  have p: "-1074 \<le> ?p" "?p \<le> 971" using v N(1) by (auto simp: float_par_def)
  have "1 = scaled (2 ^ (M + j)) ?p"
    using scaled_shift [of 1 ?p "M + j"] by (simp add: scaled_def pow2_def)
  then have "scaled n ?p + - 1 = scaled ?K ?p" by (simp add: scaled_def algebra_simps)
  then have sub: "d_add (Fin (scaled n ?p)) (Fin (- 1)) = Fin (scaled ?K ?p)"
    using d_ops_exact(3) [of "scaled n ?p" "- 1"] dbl_scaled [OF K(1,2) p] scaled_nonneg [OF K(1)] by simp
  have top: "d_mul (Fin (scaled ?K ?p)) (Fin (pow2 (int M))) = Fin (scaled ?K (- int j))"
    using scaled_mul [OF K(1,2), of ?p "int M"] v by simp
  have "E - int M - int j - E = ?p" by simp
  with R(5) [of E] have "d_mul (Fin (scaled n (E - int M - int j))) (Fin (pow2 (- E))) = Fin (scaled n ?p)" by simp
  then have "en_split el (Fin (scaled n (E - int M - int j))) (Some E) (Fin (pow2 (- E))) = (Fin (scaled ?K (- int j)), E + B)"
    using N(2,3) by (simp add: en_split_def at_least_def fp sub top)
  then show ?thesis by (rule fields_areI) (use K v in simp_all)
qed

lemma en_fields_pos:
  "0 < x \<Longrightarrow> en_fields el log2_of (Fin x) =
    (let (e1, c1) = en_log_correction (Fin x) (Some (log2_of x)) (d_pow2 (- log2_of x));
         v = d_add (Fin x) (en_rounding_term el e1 c1);
         (e2, c2) = en_carry v e1 c1
     in en_split el v e2 c2)"
  by (simp add: en_fields_def d_val_def Let_def)

lemma log2_estimateD: "log2_estimate log2_of \<Longrightarrow> 0 < x \<Longrightarrow> floor_log2 x = F \<Longrightarrow> log2_of x = F - 1 \<or> log2_of x = F \<or> log2_of x = F + 1"
  by (auto simp: log2_estimate_def abs_le_iff dest!: spec [of _ x])

lemma en_fields_normal:
  assumes el: "el \<in> float_els" and e: "0 < e" "e < fl_eMax el" and k: "0 \<le> k" "k < 2 ^ fl_mLen el"
    and x: "x = scaled (2 ^ fl_mLen el + k) (e - fl_eBias el - int (fl_mLen el))" and lg: "log2_estimate log2_of"
  shows "fields_are (en_fields el log2_of (Fin x)) e k"
proof -
  define M where "M = fl_mLen el"
  define B where "B = fl_eBias el"
  define E where "E = e - B"
  define N where "N = 2 ^ M + k"
  have fp: "float_par el M B" using el by (auto simp: float_els_def float_par_def M_def B_def)
  have n: "normal_num el M B E N"
    using fp e k float_parD(4) [OF fp] by (simp add: normal_num_def E_def N_def M_def)
  have xN: "x = scaled N (E - int M)" by (simp add: x N_def E_def B_def M_def)
  note N = normal_numD [OF n, folded xN]
  define g where "g = log2_of x"
  define h where "h = (if g = E + 1 then E else g)"
  have g: "g = E - 1 \<or> g = E \<or> g = E + 1" using log2_estimateD [OF lg N(11,10)] by (simp only: g_def)
  then have h: "h = E - 1 \<or> h = E" by (auto simp: h_def)
  obtain n' j where v: "d_add (Fin x) (en_rounding_term el (Some h) (Fin (pow2 (- h)))) = Fin (scaled n' (E - int M - int j))"
    "rounded N (E - int M) n' j"
    using rounding_term_normal [OF n h] unfolding xN by blast
  have "en_fields el log2_of (Fin x) = en_split el (Fin (scaled n' (E - int M - int j))) (Some E) (Fin (pow2 (- E)))"
    using log_correction_normal [OF n g, folded xN h_def]
    by (simp add: en_fields_pos [OF N(11)] g_def [symmetric] v(1) carry_normal [OF n v(2) h])
  then show ?thesis using split_normal [OF n v(2)] by (simp add: E_def N_def)
qed

subsection \<open>Denormalised numbers\<close>

text \<open>A denormalised number, whose exponent may be too small for the power of two that should scale it.\<close>

definition denormal_num :: "float_el \<Rightarrow> nat \<Rightarrow> int \<Rightarrow> int \<Rightarrow> bool" where
  "denormal_num el M B k \<longleftrightarrow> float_par el M B \<and> 0 < k \<and> k < 2 ^ M"

lemma denormal_numD:
  assumes "denormal_num el M B k"
  shows "float_par el M B" "0 < k" "k < 2 ^ M" "k < 2 ^ 53" "0 < scaled k (1 - B - int M)"
    "1 - B - int M \<le> floor_log2 (scaled k (1 - B - int M))" "floor_log2 (scaled k (1 - B - int M)) \<le> - B"
proof -
  let ?q = "1 - B - int M" and ?x = "scaled k (1 - B - int M)"
  show k: "float_par el M B" "0 < k" "k < 2 ^ M" using assms by (simp_all add: denormal_num_def)
  show "k < 2 ^ 53" using k(3) float_parD(9) [OF k(1)] by linarith
  show x0: "0 < ?x" using k by (simp add: scaled_def)
  note b = floor_log2_bounds [OF x0]
  have "pow2 ?q \<le> ?x" using k(2) mult_right_mono [of 1 "of_int k" "pow2 ?q"] by (simp add: scaled_def)
  then have "pow2 ?q < pow2 (floor_log2 ?x + 1)" using b(2) by linarith
  then show "?q \<le> floor_log2 ?x" by simp
  have "of_int k < pow2 (int M)" using k(3) unfolding pow2_nat of_int_less_iff .
  then have "?x < pow2 (1 - B)" by (simp add: scaled_less)
  then have "pow2 (floor_log2 ?x) < pow2 (1 - B)" using b(1) by linarith
  then show "floor_log2 ?x \<le> - B" by simp
qed

text \<open>After the first correction the exponent is that of a denormalised number; it is the last of them only with an exact power of two.\<close>

lemma log_correction_denormal:
  assumes n: "denormal_num el M B k" and x: "x = scaled k (1 - B - int M)" and F: "floor_log2 x = F"
    and g: "g = F - 1 \<or> g = F \<or> g = F + 1"
  obtains h c where "en_log_correction (Fin x) (Some g) (d_pow2 (- g)) = (Some h, c)" "h \<le> - B" "h = - B \<Longrightarrow> c = Fin (pow2 B)"
proof (cases "- g \<le> 1023")
  case False
  note D = denormal_numD [OF n, folded x]
  have "d_pow2 (- g) = Infinity False" using False by (intro d_pow2_overflow) simp
  moreover have "\<not> d_less (d_mul (Fin x) (Infinity False)) (Fin 1)"
    using D(5) by (simp add: d_mul_def is_inf_def d_neg_def d_less_def)
  moreover have "g < - B" using False D(1) by (auto simp: float_par_def)
  ultimately show thesis using that [of g "Infinity False"] by (simp add: en_log_correction_def)
next
  case True
  note D = denormal_numD [OF n, folded x, unfolded F]
  have c: "d_pow2 (- g) = Fin (pow2 (- g))" by (rule d_pow2_exact [OF _ True]) (use g D(1,7) in \<open>auto simp: float_par_def\<close>)
  have "d_mul (Fin x) (Fin (pow2 (- g))) = Fin (scaled k (1 - B - int M - g))"
    using scaled_mul [of k "1 - B - int M" "- g"] D(1,2,4,6,7) g True by (auto simp: x float_par_def)
  then have l: "d_less (d_mul (Fin x) (d_pow2 (- g))) (Fin 1) \<longleftrightarrow> x < pow2 g"
    by (simp only: c d_ops_exact(4) one_two_pow2(1) scaled_less x) simp
  show thesis
  proof (cases "x < pow2 g")
    case less: True
    have "d_mul (Fin (pow2 (- g))) (Fin 2) = Fin (pow2 B)" if "g - 1 = - B"
    proof -
      have "- g = B - 1" using that by simp
      then show ?thesis using pow2_double [of B] D(1) by (auto simp: float_par_def)
    qed
    moreover have "g - 1 \<le> - B" using g D(7) by auto
    ultimately show thesis
      using that [of "g - 1" "d_mul (Fin (pow2 (- g))) (Fin 2)"] less by (simp add: en_log_correction_def l) (simp add: c)
  next
    case False
    then have "pow2 g < pow2 (F + 1)" using floor_log2_bounds(2) [OF D(5), unfolded F] by linarith
    then have "g \<le> F" by simp
    then show thesis using that [of g "Fin (pow2 (- g))"] False D(7) by (auto simp: en_log_correction_def l [unfolded c] c)
  qed
qed

lemma rounding_term_denormal:
  assumes n: "denormal_num el M B k" and h: "h \<le> - B"
  shows "\<exists>n j. d_add (Fin (scaled k (1 - B - int M))) (en_rounding_term el (Some h) c) = Fin (scaled n (1 - B - int M - int j)) \<and>
    rounded k (1 - B - int M) n j"
proof -
  note D = denormal_numD [OF n]
  note fp = float_parD [OF D(1)]
  have par: "M = 23 \<and> B = 127 \<and> el = float_f \<or> M = 52 \<and> B = 1023 \<and> el = float_d" using D(1) by (simp add: float_par_def)
  have rt: "0 \<le> fl_rt el" "dbl (fl_rt el * pow2 (1 - B))" using rounding_term [OF fp(1), of "1 - B"] par by auto
  have "en_rounding_term el (Some h) c = Fin (fl_rt el * pow2 (1 - B))"
    using rt d_ops_exact(1) [of "fl_rt el" "pow2 (1 - B)"] h by (simp add: en_rounding_term_def at_least_def fp)
  moreover have "k < 2 ^ (M + 1)" using D(2,3) by simp
  ultimately show ?thesis
    using add_rounding [OF fp(1) D(2), of "1 - B - int M" "floor_log2 (scaled k (1 - B - int M))" "1 - B" 1] par D(6,7) by (auto simp: fp(2))
qed

lemma carry_denormal:
  assumes n: "denormal_num el M B k" and r: "rounded k (1 - B - int M) n j" and h: "h \<le> - B" "h = - B \<Longrightarrow> c = Fin (pow2 B)"
  obtains h2 c2 where "en_carry (Fin (scaled n (1 - B - int M - int j))) (Some h) c = (Some h2, c2)" "h2 \<le> - B"
proof (cases "h = - B")
  case True
  note D = denormal_numD [OF n]
  note v = r [unfolded rounded_def]
  have n0: "0 \<le> n" using v D(2) order_trans [of 0 "k * 2 ^ j" n] by simp
  have "n < 2 ^ M * 2 ^ j" by (rule less_le_trans [OF _ mult_right_mono [of "k + 1"]]) (use v D(3) in simp_all)
  then have nM: "of_int n < pow2 (int (M + j))" unfolding pow2_nat of_int_less_iff by (simp add: power_add)
  have "d_mul (Fin (scaled n (1 - B - int M - int j))) c = Fin (scaled n (1 - B - int M - int j + B))"
    using scaled_mul [of n "1 - B - int M - int j" B] n0 v D(1) h(2) [OF True] by (auto simp: float_par_def)
  moreover have "1 - (1 - B - int M - int j + B) = int (M + j)" by simp
  ultimately have "\<not> d_geq (d_mul (Fin (scaled n (1 - B - int M - int j))) c) (Fin 2)"
    using nM by (simp only: d_ops_exact(5) one_two_pow2(2) pow2_le_scaled not_le)
  then show thesis using that [of h c] h(1) by (simp add: en_carry_def)
next
  case False
  then show thesis using that h(1)
    by (cases "d_geq (d_mul (Fin (scaled n (1 - B - int M - int j))) c) (Fin 2)") (auto simp: en_carry_def)
qed

lemma split_denormal:
  assumes n: "denormal_num el M B k" and r: "rounded k (1 - B - int M) n j" and h: "h \<le> - B"
  shows "fields_are (en_split el (Fin (scaled n (1 - B - int M - int j))) (Some h) c) 0 k"
proof -
  note D = denormal_numD [OF n]
  note fp = float_parD [OF D(1)]
  note v = r [unfolded rounded_def]
  let ?q = "1 - B - int M - int j"
  have n0: "0 \<le> n" using v D(2) order_trans [of 0 "k * 2 ^ j" n] by simp
  have s: "?q + (B - 1) = - int M - int j" by simp
  have "d_mul (Fin (scaled n ?q)) (Fin (pow2 (B - 1))) = Fin (scaled n (- int M - int j))"
    using scaled_mul [of n ?q "B - 1"] n0 v D(1) unfolding s by (auto simp: float_par_def)
  moreover have "d_mul (Fin (scaled n (- int M - int j))) (Fin (pow2 (int M))) = Fin (scaled n (- int j))"
    using scaled_mul [of n "- int M - int j" "int M"] n0 v by simp
  moreover have "0 < B" using D(1) by (auto simp: float_par_def)
  ultimately have "en_split el (Fin (scaled n ?q)) (Some h) c = (Fin (scaled n (- int j)), 0)"
    using h by (simp add: en_split_def at_least_def fp)
  then show ?thesis by (rule fields_areI) (use n0 v div_between [of k j n] in simp_all)
qed

lemma en_fields_denormal:
  assumes el: "el \<in> float_els" and k: "0 < k" "k < 2 ^ fl_mLen el"
    and x: "x = scaled k (1 - fl_eBias el - int (fl_mLen el))" and lg: "log2_estimate log2_of"
  shows "fields_are (en_fields el log2_of (Fin x)) 0 k"
proof -
  define M where "M = fl_mLen el"
  define B where "B = fl_eBias el"
  have n: "denormal_num el M B k"
    using el k by (auto simp: denormal_num_def float_els_def float_par_def M_def B_def)
  have xk: "x = scaled k (1 - B - int M)" by (simp add: x B_def M_def)
  have x0: "0 < x" using denormal_numD(5) [OF n] by (simp add: xk)
  obtain h c where e1: "en_log_correction (Fin x) (Some (log2_of x)) (d_pow2 (- log2_of x)) = (Some h, c)" "h \<le> - B"
    "h = - B \<Longrightarrow> c = Fin (pow2 B)"
    using log_correction_denormal [OF n xk refl log2_estimateD [OF lg x0 refl]] by blast
  obtain n' j where v: "d_add (Fin x) (en_rounding_term el (Some h) c) = Fin (scaled n' (1 - B - int M - int j))"
    "rounded k (1 - B - int M) n' j"
    using rounding_term_denormal [OF n e1(2)] unfolding xk by blast
  obtain h2 c2 where e2: "en_carry (Fin (scaled n' (1 - B - int M - int j))) (Some h) c = (Some h2, c2)" "h2 \<le> - B"
    using carry_denormal [OF n v(2) e1(2,3)] by blast
  show ?thesis using split_denormal [OF n v(2) e2(2), of c2] by (simp add: en_fields_pos [OF x0] e1(1) v(1) e2(1))
qed

subsection \<open>Zero and the special values\<close>

text \<open>For zero the logarithm is minus infinity and the scaling factor infinite.\<close>

lemma en_fields_zero:
  assumes "el \<in> float_els"
  shows "fields_are (en_fields el log2_of (Fin 0)) 0 0"
proof -
  from assms consider "el = float_d" | "el = float_f" by (auto simp: float_els_def)
  then show ?thesis
  proof cases
    case 1
    have p: "d_pow2 (- 1022) = Fin (pow2 (- 1022))" "d_pow2 1022 = Fin (pow2 1022)" "d_pow2 52 = Fin (pow2 52)"
      by (simp_all add: d_pow2_exact)
    have "en_fields float_d log2_of (Fin 0) = (Fin (scaled 0 (- int 0)), 0)"
      by (simp add: en_fields_def en_step_defs d_val_def at_least_def d_mul_def is_inf_def d_less_def d_geq_def d_add_def round_double_def p
          signed_zero_def d_neg_def scaled_def Let_def)
    then show ?thesis unfolding fields_are_def 1 by (intro exI [of _ 0]) simp
  next
    case 2
    let ?n = "9007199254740991 :: int"
    have p: "d_pow2 (- 126) = Fin (pow2 (- 126))" "d_pow2 126 = Fin (pow2 126)" "d_pow2 23 = Fin (pow2 23)"
      by (simp_all add: d_pow2_exact)
    have r: "pow2 (- 24) - pow2 (- 77) = scaled ?n (- 77)" by (simp add: scaled_def pow2_def)
    have a: "d_mul (Fin (scaled ?n (- 77))) (Fin (pow2 (- 126))) = Fin (scaled ?n (- 203))"
      using scaled_mul [of ?n "- 77" "- 126"] by simp
    have b: "d_add (Fin 0) (Fin (scaled ?n (- 203))) = Fin (scaled ?n (- 203))"
      using d_ops_exact(3) [of 0 "scaled ?n (- 203)"] dbl_scaled [of ?n "- 203"] scaled_nonneg [of ?n "- 203"] by simp
    have c: "d_mul (Fin 0) (Infinity False) = NaN" "\<not> d_less NaN (Fin 1)" by (simp_all add: d_mul_def is_inf_def d_less_def)
    have d: "d_mul (Fin (scaled ?n (- 203))) (Fin (pow2 126)) = Fin (scaled ?n (- 77))"
      "d_mul (Fin (scaled ?n (- 77))) (Fin (pow2 23)) = Fin (scaled ?n (- 54))"
      using scaled_mul [of ?n "- 203" 126] scaled_mul [of ?n "- 77" 23] by simp_all
    have "en_fields float_f log2_of (Fin 0) = (Fin (scaled ?n (- int 54)), 0)"
      unfolding en_fields_def en_step_defs Let_def float_el_simps
      by (simp add: d_val_def c at_least_def p r a b d)
    then show ?thesis unfolding fields_are_def 2 by (intro exI [of _ ?n] exI [of _ 54]) simp
  qed
qed

lemma en_fields_special:
  "fields_are (en_fields el log2_of NaN) (fl_eMax el) 1" "fields_are (en_fields el log2_of (Infinity False)) (fl_eMax el) 0"
proof -
  have "en_fields el log2_of NaN = (Fin (scaled 1 (- int 0)), fl_eMax el)"
    "en_fields el log2_of (Infinity False) = (Fin (scaled 0 (- int 0)), fl_eMax el)"
    by (simp_all add: en_fields_def scaled_def pow2_def)
  then show "fields_are (en_fields el log2_of NaN) (fl_eMax el) 1" "fields_are (en_fields el log2_of (Infinity False)) (fl_eMax el) 0"
    unfolding fields_are_def by (intro exI [of _ 1] exI [of _ 0], simp, intro exI [of _ 0], simp)
qed

section \<open>Writing and reading back\<close>

lemma ieee_value_abs:
  assumes "el \<in> float_els" "0 \<le> e" "e \<le> fl_eMax el" "0 \<le> k" "k < 2 ^ fl_mLen el"
  shows "d_abs (ieee_value el s e k) = ieee_value el False e k"
    "d_less (ieee_value el s e k) (Fin 0) \<longleftrightarrow> s \<and> ieee_value el s e k \<notin> {NaN, NegZero}"
proof -
  have c: "e = fl_eMax el \<Longrightarrow> d_abs (ieee_value el s e k) = ieee_value el False e k \<and>
      (d_less (ieee_value el s e k) (Fin 0) \<longleftrightarrow> s \<and> ieee_value el s e k \<notin> {NaN, NegZero})"
    by (simp add: ieee_value_def d_abs_def d_less_def is_inf_def)
  have z: "e \<noteq> fl_eMax el \<Longrightarrow> e = 0 \<Longrightarrow> k = 0 \<Longrightarrow> d_abs (ieee_value el s e k) = ieee_value el False e k \<and>
      (d_less (ieee_value el s e k) (Fin 0) \<longleftrightarrow> s \<and> ieee_value el s e k \<notin> {NaN, NegZero})"
    by (simp add: ieee_value_def d_abs_def d_less_def is_inf_def signed_zero_def d_val_def)
  have f: "d_abs (ieee_value el s e k) = ieee_value el False e k \<and>
      (d_less (ieee_value el s e k) (Fin 0) \<longleftrightarrow> s \<and> ieee_value el s e k \<notin> {NaN, NegZero})"
    if *: "e \<noteq> fl_eMax el" "\<not> (e = 0 \<and> k = 0)"
  proof -
    obtain x where x: "0 < x" "\<And>s. ieee_value el s e k = Fin (if s then - x else x)"
    proof -
      have "0 < (if e = 0 then of_int k / 2 ^ fl_mLen el * pow2 (1 - fl_eBias el)
                 else (1 + of_int k / 2 ^ fl_mLen el) * pow2 (e - fl_eBias el))"
        using * assms(2,4) by (auto simp: add_pos_nonneg)
      then show thesis using that * unfolding ieee_value_def Let_def by simp
    qed
    then show ?thesis by (auto simp: d_abs_def d_less_def is_inf_def d_val_def)
  qed
  show "d_abs (ieee_value el s e k) = ieee_value el False e k"
    "d_less (ieee_value el s e k) (Fin 0) \<longleftrightarrow> s \<and> ieee_value el s e k \<notin> {NaN, NegZero}"
    using c z f by blast+
qed

text \<open>The fields that are written for a number: NaN has one pattern, and the negative zero loses its sign.\<close>

definition written_fields :: "float_el \<Rightarrow> bool \<Rightarrow> int \<Rightarrow> int \<Rightarrow> bool \<times> int \<times> int" where
  "written_fields el s e k =
     (if e = fl_eMax el \<and> k \<noteq> 0 then (False, e, 1) else if e = 0 \<and> k = 0 then (False, 0, 0) else (s, e, k))"

lemma en_fields_value:
  assumes "el \<in> float_els" "0 \<le> e" "e \<le> fl_eMax el" "0 \<le> k" "k < 2 ^ fl_mLen el" "log2_estimate log2_of"
    "written_fields el s e k = (s', e', k')"
  shows "fields_are (en_fields el log2_of (ieee_value el False e k)) e' k'"
proof -
  have m: "0 < fl_eMax el" using assms(1) by (auto simp: float_els_def)
  consider "e = fl_eMax el" "k = 0" | "e = fl_eMax el" "k \<noteq> 0" | "e = 0" "k = 0" | "e = 0" "0 < k" | "0 < e" "e < fl_eMax el"
    using assms(2-4) by linarith
  then show ?thesis
  proof cases
    case 4
    have "ieee_value el False e k = Fin (scaled k (1 - fl_eBias el - int (fl_mLen el)))"
      unfolding scaled_def pow2_diff_nat using 4 m by (simp add: ieee_value_def)
    then show ?thesis using en_fields_denormal [OF assms(1) 4(2) assms(5) refl assms(6)] assms(7) 4 m
      by (simp add: written_fields_def)
  next
    case 5
    have "ieee_value el False e k = Fin (scaled (2 ^ fl_mLen el + k) (e - fl_eBias el - int (fl_mLen el)))"
      unfolding scaled_def pow2_diff_nat using 5 by (simp add: ieee_value_def field_simps)
    then show ?thesis using en_fields_normal [OF assms(1) 5 assms(4,5) refl assms(6)] assms(7) 5
      by (simp add: written_fields_def)
  qed (use assms(1,7) m en_fields_zero en_fields_special [of el log2_of]
      in \<open>auto simp: ieee_value_def written_fields_def signed_zero_def\<close>)
qed

lemma En754_value:
  assumes "el \<in> float_els" "0 \<le> e" "e \<le> fl_eMax el" "0 \<le> k" "k < 2 ^ fl_mLen el" "log2_estimate log2_of"
    "written_fields el s e k = (s', e', k')"
  shows "En754 be el log2_of (ieee_value el s e k) = (if be then rev (en_bytes el s' e' k') else en_bytes el s' e' k')"
proof -
  obtain n j where f: "en_fields el log2_of (ieee_value el False e k) = (Fin (scaled n (- int j)), e')"
     "0 \<le> n" "n < 2 ^ 53" "j \<le> 60" "n div 2 ^ j = k'"
    using en_fields_value [OF assms] by (auto simp: fields_are_def)
  have s: "d_less (ieee_value el s e k) (Fin 0) = s'"
    unfolding ieee_value_abs(2) [OF assms(1-5)] using assms(1,7)
    by (auto simp: ieee_value_def written_fields_def signed_zero_def Let_def float_els_def split: if_splits)
  have b: "k' < 2 ^ fl_mLen el" "0 \<le> e'" "e' \<le> fl_eMax el"
    using assms(1-5,7) by (auto simp: written_fields_def float_els_def split: if_splits)
  show ?thesis
    by (rule En754_fields [OF assms(1) _ s f(2-5) b]) (simp add: ieee_value_abs(1) [OF assms(1-5)] f(1))
qed

text \<open>The fields of a word, and the word of its fields.\<close>

lemma word_of_fields:
  assumes "el \<in> float_els" "0 \<le> e" "e \<le> fl_eMax el" "0 \<le> k" "k < 2 ^ fl_mLen el"
    "w = (if s then 2 ^ (8 * fl_len el - 1) else 0) + e * 2 ^ fl_mLen el + k"
  shows "0 \<le> w" "w < 2 ^ (8 * fl_len el)" "ieee_word el w = ieee_value el s e k"
proof -
  define M where "M = fl_mLen el"
  define L where "L = fl_eLen el"
  have n: "8 * fl_len el - 1 = L + M" "8 * fl_len el = L + M + 1" using assms(1) by (auto simp: float_els_def L_def M_def)
  have e: "e < 2 ^ L" using assms(3) by (simp add: fl_eMax_def L_def)
  define t where "t = e * 2 ^ M + k"
  have t: "0 \<le> t" "t < 2 ^ (L + M)"
  proof -
    have "(e + 1) * 2 ^ M \<le> 2 ^ L * 2 ^ M" by (rule mult_right_mono) (use e in simp_all)
    then show "t < 2 ^ (L + M)" using assms(5) by (simp add: t_def M_def power_add algebra_simps)
  qed (use assms(2,4) in \<open>simp add: t_def\<close>)
  have w: "w = (if s then 2 ^ (L + M) else 0) + t" by (simp only: assms(6) n(1) t_def M_def add.assoc)
  show "0 \<le> w" "w < 2 ^ (8 * fl_len el)" using t by (simp_all add: w n(2))
  have k: "0 \<le> k" "k < 2 ^ M" using assms(4,5) by (simp_all add: M_def)
  have wd: "w = ((if s then 2 ^ L else 0) + e) * 2 ^ M + k" by (simp add: w t_def power_add algebra_simps)
  have d: "w div 2 ^ M = (if s then 2 ^ L else 0) + e" "w mod 2 ^ M = k"
    using word_fields [OF k, of "(if s then 2 ^ L else 0) + e" 0] by (simp_all add: wd)
  have "((if s then 2 ^ L else 0) + e) mod 2 ^ L = e" using assms(2) e by simp
  moreover have "2 ^ (L + M) \<le> w \<longleftrightarrow> s" using t by (simp add: w)
  ultimately show "ieee_word el w = ieee_value el s e k"
    unfolding ieee_word_def n(1) M_def [symmetric] L_def [symmetric] d by simp
qed

lemma fields_of_word:
  assumes "el \<in> float_els" "0 \<le> w" "w < 2 ^ (8 * fl_len el)"
  obtains s e k where "0 \<le> e" "e \<le> fl_eMax el" "0 \<le> k" "k < 2 ^ fl_mLen el"
    "w = (if s then 2 ^ (8 * fl_len el - 1) else 0) + e * 2 ^ fl_mLen el + k"
proof -
  define M where "M = fl_mLen el"
  define L where "L = fl_eLen el"
  have n: "8 * fl_len el - 1 = L + M" "8 * fl_len el = L + M + 1" using assms(1) by (auto simp: float_els_def L_def M_def)
  define s where "s \<longleftrightarrow> 2 ^ (L + M) \<le> w"
  define t where "t = w - (if s then 2 ^ (L + M) else 0)"
  have t: "0 \<le> t" "t < 2 ^ L * 2 ^ M" using assms(2,3) by (auto simp: t_def s_def n(2) power_add)
  have "t div 2 ^ M < 2 ^ L" using t(2) by (rule div_less_bound) simp
  then have e: "0 \<le> t div 2 ^ M" "t div 2 ^ M \<le> fl_eMax el"
    using t(1) by (simp_all add: fl_eMax_def L_def pos_imp_zdiv_nonneg_iff)
  have k: "0 \<le> t mod 2 ^ M" "t mod 2 ^ M < 2 ^ fl_mLen el" by (simp_all add: M_def)
  have "t div 2 ^ M * 2 ^ M + t mod 2 ^ M = t" by (rule div_mult_mod_eq)
  then have "w = (if s then 2 ^ (8 * fl_len el - 1) else 0) + t div 2 ^ M * 2 ^ fl_mLen el + t mod 2 ^ M"
    unfolding n(1) M_def [symmetric] t_def by linarith
  from that [OF e k this] show thesis .
qed

lemma roundtrip_fields:
  assumes "el \<in> float_els" "0 \<le> w" "w < 2 ^ (8 * fl_len el)" "log2_estimate log2_of" "v = ieee_word el w"
  shows "De754 be el (pre @ En754 be el log2_of v @ post) (length pre) = (if v = NegZero then Fin 0 else v) \<and>
    (v \<notin> {NaN, NegZero} \<longrightarrow> En754 be el log2_of v = (if be then rev (le_bytes (fl_len el) w) else le_bytes (fl_len el) w))"
proof -
  obtain s e k where f: "0 \<le> e" "e \<le> fl_eMax el" "0 \<le> k" "k < 2 ^ fl_mLen el"
    "w = (if s then 2 ^ (8 * fl_len el - 1) else 0) + e * 2 ^ fl_mLen el + k"
    using fields_of_word [OF assms(1-3)] by blast
  have v: "v = ieee_value el s e k" by (simp add: assms(5) word_of_fields(3) [OF assms(1) f])
  obtain s' e' k' where wf: "written_fields el s e k = (s', e', k')" by (cases "written_fields el s e k")
  have b: "0 \<le> e'" "e' \<le> fl_eMax el" "0 \<le> k'" "k' < 2 ^ fl_mLen el"
    using wf f assms(1) by (auto simp: written_fields_def float_els_def split: if_splits)
  note en = En754_value [OF assms(1) f(1-4) assms(4) wf, of be, folded v]
  note w' = word_of_fields [OF assms(1) b refl, of s']
  have p: "(2 :: int) ^ (8 * fl_len el) = 256 ^ fl_len el" by (simp add: power_mult)
  have l: "length (en_bytes el s' e' k') = fl_len el" by (simp add: en_bytes_def)
  have "De754 be el (pre @ En754 be el log2_of v @ post) (length pre) = ieee_word el (le_val (en_bytes el s' e' k'))"
    using De754_bits [OF assms(1), of "En754 be el log2_of v" be pre post] l unfolding en by (cases be) simp_all
  also have "\<dots> = ieee_value el s' e' k'"
    using w' by (simp add: en_bytes_def le_val_le_bytes flip: p)
  also have "\<dots> = (if v = NegZero then Fin 0 else v)"
    using wf assms(1) by (auto simp: v written_fields_def ieee_value_def signed_zero_def Let_def float_els_def split: if_splits)
  finally have "De754 be el (pre @ En754 be el log2_of v @ post) (length pre) = (if v = NegZero then Fin 0 else v)" .
  moreover have "en_bytes el s' e' k' = le_bytes (fl_len el) w" if "v \<notin> {NaN, NegZero}"
  proof -
    have "(s', e', k') = (s, e, k) \<or> (e = 0 \<and> k = 0 \<and> \<not> s \<and> s' = s \<and> e' = e \<and> k' = k)"
      using wf that assms(1) by (auto simp: v written_fields_def ieee_value_def signed_zero_def float_els_def split: if_splits)
    then show ?thesis using f(5) by (auto simp: en_bytes_def)
  qed
  ultimately show ?thesis by (simp add: en)
qed

text \<open>
  C25. Writing a number and reading it back: for every number of single or double precision, denormalised ones,
  infinities and NaN included, in both byte orders and at every offset, \<open>_De754\<close> gives back the number whose
  bytes \<open>_En754\<close> wrote, if the computed logarithm is off by at most one; and except for the patterns of NaN
  the bytes are those of the word itself. Only the negative zero comes back as the positive one, since the
  sign is taken from \<open>v < 0\<close>.
\<close>

theorem En754_De754_roundtrip:
  assumes "el \<in> float_els" "0 \<le> w" "w < 2 ^ (8 * fl_len el)" "log2_estimate log2_of" "v = ieee_word el w"
  shows "De754 be el (pre @ En754 be el log2_of v @ post) (length pre) = (if v = NegZero then Fin 0 else v) \<and>
    (v \<notin> {NaN, NegZero} \<longrightarrow> En754 be el log2_of v = (if be then rev (le_bytes (fl_len el) w) else le_bytes (fl_len el) w))"
  using assms by (rule roundtrip_fields)

lemma En754_De754_roundtrip_witness:
  "De754 False float_d ([7] @ En754 False float_d floor_log2 (ieee_word float_d 0xC00921FB54442D18) @ []) 1 = ieee_word float_d 0xC00921FB54442D18"
proof -
  have "log2_estimate floor_log2" by (simp add: log2_estimate_def)
  moreover have "ieee_word float_d 0xC00921FB54442D18 \<noteq> NegZero" by (simp add: ieee_word_def ieee_value_def Let_def)
  ultimately show ?thesis
    using En754_De754_roundtrip [of float_d "0xC00921FB54442D18" floor_log2 _ False "[7]" "[]"] by (simp add: float_els_def)
qed

section \<open>Series\<close>

text \<open>The element functions keep the contract of a series: one width for every value, and decoding at any offset.\<close>

lemma length_mant_loop: "length (fst (mant_loop n m)) = n div 8" "snd (snd (mant_loop n m)) = n mod 8"
proof (induction n m rule: mant_loop.induct)
  case (1 n m)
  obtain bs m' r where b: "mant_loop (n - 8) (d_div m (Fin 256)) = (bs, m', r)" by (cases "mant_loop (n - 8) (d_div m (Fin 256))")
  have "8 \<le> n \<Longrightarrow> n div 8 = Suc ((n - 8) div 8)" "8 \<le> n \<Longrightarrow> n mod 8 = (n - 8) mod 8" by (simp_all add: le_div_geq le_mod_geq)
  then show "length (fst (mant_loop n m)) = n div 8" "snd (snd (mant_loop n m)) = n mod 8"
    using 1 b by (subst mant_loop.simps, simp)+
qed

lemma length_En754:
  assumes "el \<in> float_els"
  shows "length (En754 be el log2_of v) = fl_len el"
proof -
  obtain m e where f: "en_fields el log2_of (d_abs v) = (m, e)" by (cases "en_fields el log2_of (d_abs v)")
  obtain bs m' r where b: "mant_loop (fl_mLen el) m = (bs, m', r)" by (cases "mant_loop (fl_mLen el) m")
  have l: "length bs = fl_mLen el div 8" "r = fl_mLen el mod 8"
    using length_mant_loop [of "fl_mLen el" m] by (simp_all add: b)
  have "length (exp_loop 15 x) = 2" for x by (simp add: exp_loop.simps [of 15] exp_loop.simps [of 7] exp_loop.simps [of 0])
  moreover have "fl_eLen el + r = 15" "fl_len el = fl_mLen el div 8 + 2" using assms by (auto simp: float_els_def l(2))
  ultimately show ?thesis using l(1) by (simp add: En754_def f b Let_def)
qed

definition float_norm :: "bool \<Rightarrow> float_el \<Rightarrow> (rat \<Rightarrow> int) \<Rightarrow> js_double \<Rightarrow> js_double" where
  "float_norm be el log2_of v = De754 be el (En754 be el log2_of v) 0"

lemma De754_anywhere: "el \<in> float_els \<Longrightarrow> De754 be el (pre @ En754 be el log2_of v @ post) (length pre) = float_norm be el log2_of v"
  by (simp add: De754_def float_norm_def length_En754)

interpretation float: codec "En754 be float_f log2_of" "De754 be float_f" "float_norm be float_f log2_of" 4 for be log2_of
  by unfold_locales (simp_all add: length_En754 De754_anywhere float_els_def)

interpretation double: codec "En754 be float_d log2_of" "De754 be float_d" "float_norm be float_d log2_of" 8 for be log2_of
  by unfold_locales (simp_all add: length_En754 De754_anywhere float_els_def)

text \<open>\<open>_PackSeries\<close> and \<open>_UnpackSeries\<close> on doubles: what was packed is unpacked in order.\<close>

lemma double_series:
  assumes "log2_estimate log2_of" "set vs \<subseteq> ieee_word float_d ` {0..<2 ^ 64} - {NegZero}"
  shows "map (\<lambda>i. De754 be float_d (pre @ concat (map (En754 be float_d log2_of) vs) @ post) (length pre + i * 8)) [0..<length vs] = vs"
proof -
  have "float_norm be float_d log2_of v = v" if v: "v \<in> set vs" for v
  proof -
    have n: "v \<noteq> NegZero" and "v \<in> ieee_word float_d ` {0..<2 ^ 64}" using assms(2) v by (simp_all add: subset_iff)
    from this(2) obtain w where w: "w \<in> {0..<2 ^ 64}" "v = ieee_word float_d w" by (rule imageE) (rule that)
    have b: "float_d \<in> float_els" "0 \<le> w" "w < 2 ^ (8 * fl_len float_d)" using w(1) by (simp_all add: float_els_def)
    from roundtrip_fields [OF b assms(1) w(2), of be "[]" "[]", THEN conjunct1] show ?thesis
      unfolding append_Nil append_Nil2 list.size if_not_P [OF n] float_norm_def .
  qed
  then have "map (float_norm be float_d log2_of) vs = vs" by (rule map_idI)
  then show ?thesis by (simp only: double.dec_series)
qed

end
