(* ===== verification/Spec2Isabelle.thy ===== *)
theory Spec2Isabelle
  imports IpFlush IpReport IpObjects NodeNetkit Ieee754En
begin

text \<open>
  \<^bold>\<open>node-netkit\<close>: a model of the JavaScript part of the library, which talks to the Linux kernel over netlink
  sockets: it packs messages, sends them with a native addon, and turns the replies into objects.

  \<^bold>\<open>Values and effects.\<close> \<open>Prelude\<close> has the values of JavaScript the code works on (\<open>jsval\<close>, objects as
  association lists in insertion order, errors as \<open>ErrorObj\<close>), and the outcome of a piece of code, \<open>'a run\<close>:
  \<open>Return\<close>, \<open>Throw\<close> with the kind of error, or \<open>Diverge\<close> for a loop that does not end. The error
  \<open>NotModelled\<close> marks the places where the model stops and the code goes on. \<open>JsString\<close> has the string
  functions and \<open>NodeBuffer\<close> reading, writing and slicing of byte buffers with the range errors of node.

  \<^bold>\<open>Messages.\<close>
  \<^item> \<open>BufferPack\<close> (\<open>libs/bufferpack.js\<close>): format strings, \<open>pack\<close>, \<open>unpack\<close>, meta objects. Numbers are
    clamped to the range of their field; packing and unpacking are inverse up to that. \<open>JsDouble\<close> has the
    doubles of JavaScript with their rounding, \<open>Ieee754\<close> the functions behind the formats \<open>f\<close> and \<open>d\<close>: what is
    read is the value of IEEE 754 (\<open>De754_word\<close>), and \<open>Ieee754En\<close> shows that what is written is read back.
  \<^item> \<open>Netlink\<close> (\<open>nl/netlink.js\<close>): constants, header and framing. \<open>AttrLoop\<close> is the walk over attributes the
    two parsers share, with exactly the inputs on which it does not end.
  \<^item> \<open>RtNetlink\<close> (\<open>nl/rtnetlink.js\<close>): tables, payload objects, encoder and decoder of attributes, and the
    parser of messages, with round trips for attributes and for whole messages.
  \<^item> \<open>Common\<close> (\<open>libs/common.js\<close>: \<open>isaddress\<close> with its regular expressions, \<open>maskFromCidr\<close>) and \<open>Logger\<close> (the
    logger of the same file with \<open>libs/colors.js\<close>).
  \<^item> \<open>IpParse\<close> (\<open>ip/ipparse.js\<close>, \<open>nl/netutils.js\<close>): messages to event objects, flag names, filters.
    \<open>IpObjects\<close> follows messages about addresses and neighbours from the bytes to the object that is reported.

  \<^bold>\<open>Commands of the directory ip.\<close> A command is a trace of events (\<open>Create\<close>, \<open>Send\<close>, \<open>Close\<close>, \<open>Callback\<close>) with an
  outcome, \<open>'a act\<close> in \<open>IpCommand\<close>. The socket is a parameter, the record \<open>netkit\<close>: the error of \<open>create\<close>, if
  any, and the reply to each message; the addon's functions for addresses and interface names are the
  record \<open>native\<close>. The locale \<open>reporting\<close> is the contract between the functions that build and send one
  message and the operations that use them: they hand over to their continuation exactly once.
  \<open>handing_over\<close> describes the same functions by how they end (\<open>hands_over\<close>) and gives \<open>reporting\<close> by
  \<open>sublocale\<close>; it is interpreted on the functions for inquiries, links, neighbours and routes, and \<open>reporting\<close>
  directly on the one for addresses, which may call back early and go on.
  \<^item> \<open>IpCommand\<close> (\<open>ip/ipcommand.js\<close>): the inquiries. \<open>IpLink\<close>, \<open>IpNeighbor\<close>, \<open>IpRoute\<close>, \<open>IpAddress\<close>
    (\<open>ip/link.js\<close>, \<open>neighbor.js\<close>, \<open>route.js\<close>, \<open>addr.js\<close>): the operations, the exact bytes of their requests, and
    how often the caller is called back. \<open>IpAddrLabel\<close> (\<open>ip/addrlabel.js\<close>): the operations, which always fail
    before they send, and the message they would send.
  \<^item> \<open>IpReport\<close>: asking for the links from end to end, from the messages of the kernel to the objects of the caller.
  \<^item> \<open>IpFlush\<close>: the loop of \<open>flush\<close> in \<open>ip/addr.js\<close> as a step relation in which replies come in any order, with
    the invariant of its counter and a bound on the length of every run; runs that are at their end have the
    events of the sequential loop in \<open>IpAddress\<close>.
  \<^item> \<open>IpEvents\<close> (\<open>ip/netevent.js\<close>) and \<open>ProcEvents\<close> (\<open>nl/prnetlink.js\<close>, \<open>proc/nlprocess.js\<close>): subscriptions and
    the handlers of the messages that arrive, which are a parameter.

  \<^bold>\<open>Netfilter.\<close>
  \<^item> \<open>Peg\<close> and \<open>NfGrammar\<close> (\<open>nf/node-netfilter.js\<close>, generated from \<open>nf/node-netfilter.pegjs\<close>): the combinators and
    all rules and actions of the parser, its state and its syntax errors. \<open>NfLanguage\<close> describes commands by
    an abstract syntax; \<open>NfSound\<close> and \<open>NfComplete\<close> show that the parser accepts exactly their spellings and
    what options it returns. \<open>NfText\<close> and \<open>NfValues\<close> follow the options and the values of criteria.
  \<^item> \<open>NfTables\<close> (\<open>nf/nftables.js\<close>), \<open>NfAttributes\<close> (\<open>nf/nfattr.js\<close>, \<open>nf/nfattributes.js\<close>): the specification of the
    attributes, and the flat array with corrected lengths as a refinement of the tree of attributes.
  \<^item> \<open>NfNetlink\<close> (\<open>nl/nfnetlink.js\<close>, \<open>nf/nfcommand.js\<close>, \<open>nf/nlnetfilter.js\<close>): the command builder, batches, the
    parser of replies. \<open>NfRequest\<close> goes from the text of a command to the bytes of its request, and \<open>NfSend\<close>
    adds the socket: every command calls back once and closes its socket once.

  \<^bold>\<open>The whole library.\<close> \<open>IpSockets\<close> follows the state of the socket through the trace of an operation: what is
  sent goes to an open socket, at most one socket is created, and only callbacks come after its close; it also shows which operations
  leave a socket open and which break the order. \<open>NodeNetkit\<close> (\<open>lib/node-netkit.js\<close>) has the stream over a tunnel device, the constants, and
  the calls a user of the module can make, for which \<open>netkit_sockets\<close> puts these facts together.

  \<^bold>\<open>Loops and fuel.\<close> Loops over lists are structural. The walk over attributes (\<open>AttrLoop\<close>) has
  one unit of fuel more than the buffer has bytes; as the index never goes back, running out means that it
  stands still for ever (\<open>fuel_adequate\<close>), and the outcome is \<open>Diverge\<close>. \<open>rt_parseAttrs_diverges_iff\<close> and
  \<open>nf_parseAttrs_diverges_iff\<close> say when that is. The repetition of the parser takes
  the rest of the text as its bound, which is enough because every repeated rule consumes a character
  (\<open>nf_parse_outcome\<close>). The attributes of a command are built with the depth of the parameters as fuel, which
  \<open>newNfAttributes_terminates\<close> shows to suffice.

  \<^bold>\<open>Assumptions.\<close> Replies are taken in the order of the messages, except for \<open>flush\<close>, where all orders are
  considered; only one message at a time waits for its reply in the other commands. Callbacks given by
  the user do not throw. JavaScript leaves the precision of \<open>Math.log\<close> open: the theorem on \<open>_En754\<close> assumes that the
  logarithm it computes is off by at most one after rounding down.

  \<^bold>\<open>Not modelled.\<close> The native addon (\<open>src/*.cc\<close>: sockets, devices, addresses) is a parameter or left out;
  \<open>index.js\<close>, \<open>lib/nnf.js\<close> and \<open>nf/buildnfpeg.js\<close> have no logic. Of the modelled files: what the commands print,
  the loading of the addon, the entry points of the generated parser for actions that no action uses and its
  choice of another start rule, and the errors printed in the reply callback of \<open>addIPv6Neighbor\<close>. The
  formats \<open>f\<close> and \<open>d\<close> are covered element by element and not within \<open>pack\<close> and \<open>unpack\<close>, whose numbers are
  integers; the only format that has one, \<open>proc_fork_fmt\<close> of \<open>proc/nlprocess.js\<close>, is never used. Characters are bytes: texts with characters from 256 on are
  not covered, and such characters in a decoded buffer are shown as \<open>?\<close>. Conversions of arrays and objects to numbers end in \<open>NotModelled\<close>.
\<close>

end
